(* ===== verification/Prelude.thy ===== *)
theory Prelude
  imports Main "HOL-Library.Word"
begin

text \<open>
  The prelude of the development: names for the C integer types, the big-endian byte
  encoding every wire format of the switch uses, the two interfaces that many components
  share (a wire format with a fixed width, and a state machine driven by calls), and the
  lemmas on lists and words that the component theories use.
\<close>

unbundle bit_operations_syntax

type_synonym u8 = "8 word"
type_synonym u16 = "16 word"
type_synonym u32 = "32 word"
type_synonym u64 = "64 word"

named_theorems c_arith \<open>facts that remove the wrap-around of C integers in range\<close>
named_theorems wire \<open>facts that evaluate encoders and decoders of wire formats\<close>

text \<open>
  An Ethernet address (\<open>struct eth_addr\<close>), its first byte on the wire in the top eight
  bits, and the group bit of that byte.
\<close>

type_synonym eth_addr = "48 word"

definition eth_addr_is_multicast :: "eth_addr \<Rightarrow> bool" where
  "eth_addr_is_multicast a \<longleftrightarrow> bit a 40"

subsection \<open>Signed C integers\<close>

text \<open>
  A signed 32-bit result, with the two's complement wrap-around of the supported compilers
  written out, and the division of C, which truncates towards zero.
\<close>

definition c_int :: "int \<Rightarrow> int" where
  "c_int x = (x + 2147483648) mod 4294967296 - 2147483648"

definition c_div :: "int \<Rightarrow> int \<Rightarrow> int" where
  "c_div a b = (if (a < 0) = (b < 0) then \<bar>a\<bar> div \<bar>b\<bar> else - (\<bar>a\<bar> div \<bar>b\<bar>))"

lemma c_int_id [c_arith]: "- 2147483648 \<le> x \<Longrightarrow> x < 2147483648 \<Longrightarrow> c_int x = x"
  by (simp add: c_int_def)

lemma c_int_range: "- 2147483648 \<le> c_int x \<and> c_int x < 2147483648"
proof -
  have "0 \<le> (x + 2147483648) mod 4294967296" and "(x + 2147483648) mod 4294967296 < 4294967296"
    by simp_all
  then show ?thesis by (simp add: c_int_def)
qed

lemma c_div_nonneg [c_arith]: "0 \<le> a \<Longrightarrow> 0 < b \<Longrightarrow> c_div a b = a div b"
  by (simp add: c_div_def)

subsection \<open>Big-endian bytes\<close>

text \<open>\<open>be_put n x\<close> is the \<open>n\<close>-byte network representation of \<open>x\<close> (the value modulo
  \<open>256 ^ n\<close>, as a store into an \<open>n\<close>-byte field truncates), \<open>be_get\<close> reads one back.\<close>

fun be_put :: "nat \<Rightarrow> nat \<Rightarrow> u8 list" where
  "be_put 0 x = []"
| "be_put (Suc n) x = be_put n (x div 256) @ [word_of_nat (x mod 256)]"

fun be_get_from :: "nat \<Rightarrow> u8 list \<Rightarrow> nat" where
  "be_get_from a [] = a"
| "be_get_from a (b # bs) = be_get_from (a * 256 + unat b) bs"

definition be_get :: "u8 list \<Rightarrow> nat" where
  "be_get bs = be_get_from 0 bs"

definition be_field :: "nat \<Rightarrow> nat \<Rightarrow> u8 list \<Rightarrow> nat" where
  "be_field off n bs = be_get (take n (drop off bs))"

lemma length_be_put [simp]: "length (be_put n x) = n"
  by (induction n arbitrary: x) auto

lemma be_get_from_append:
  "be_get_from a (bs @ cs) = be_get_from (be_get_from a bs) cs"
  by (induction bs arbitrary: a) auto

lemma be_get_snoc: "be_get (bs @ [b]) = be_get bs * 256 + unat b"
  by (simp add: be_get_def be_get_from_append)

lemma unat_u8: "unat (b :: u8) < 256"
  by (rule order_less_le_trans [OF unsigned_less]) simp

lemma unat_byte: "unat (word_of_nat (x mod 256) :: u8) = x mod 256"
  by (simp add: unat_of_nat)

lemma be_get_put: "be_get (be_put n x) = x mod 256 ^ n"
proof (induction n arbitrary: x)
  case 0
  then show ?case by (simp add: be_get_def)
next
  case (Suc n)
  have "be_get (be_put (Suc n) x) = (x div 256) mod 256 ^ n * 256 + x mod 256"
    by (simp add: be_get_snoc Suc.IH unat_byte)
  also have "\<dots> = x mod (256 * 256 ^ n)"
    by (simp add: mod_mult2_eq)
  finally show ?case by simp
qed

lemma be_get_put_small [wire]: "x < 256 ^ n \<Longrightarrow> be_get (be_put n x) = x"
  by (simp add: be_get_put)

lemma be_get_bound: "be_get bs < 256 ^ length bs"
proof (induction bs rule: rev_induct)
  case Nil
  then show ?case by (simp add: be_get_def)
next
  case (snoc b bs)
  have "unat b < 256" by (rule unat_u8)
  moreover from snoc have "be_get bs + 1 \<le> 256 ^ length bs" by simp
  then have "(be_get bs + 1) * 256 \<le> 256 ^ length bs * 256" by (rule mult_le_mono1)
  ultimately have "be_get bs * 256 + unat b < 256 ^ length bs * 256" by simp
  then show ?case by (simp add: be_get_snoc mult.commute)
qed

lemma be_put_get: "length bs = n \<Longrightarrow> be_put n (be_get bs) = bs"
proof (induction bs arbitrary: n rule: rev_induct)
  case Nil
  then show ?case by simp
next
  case (snoc b bs)
  then obtain m where m: "n = Suc m" "length bs = m" by auto
  have b: "unat b < 256" by (rule unat_u8)
  have "be_get (bs @ [b]) div 256 = be_get bs" and "be_get (bs @ [b]) mod 256 = unat b"
    using b by (simp_all add: be_get_snoc)
  with m snoc.IH [of m] show ?case by simp
qed

lemma be_field_skip [wire]: "length a \<le> off \<Longrightarrow> be_field off n (a @ b) = be_field (off - length a) n b"
  by (simp add: be_field_def)

lemma be_field_here [wire]: "length a = n \<Longrightarrow> be_field 0 n (a @ b) = be_get a"
  by (simp add: be_field_def)

lemma be_field_last [wire]: "length a = n \<Longrightarrow> be_field 0 n a = be_get a"
  by (simp add: be_field_def)

lemma be_get_single [wire]: "be_get [b] = unat b"
  by (simp add: be_get_def)

lemma unat_mod_width [wire]:
  fixes w8 :: u8 and w16 :: u16 and w32 :: u32 and w64 :: u64
  shows "unat w8 mod 256 = unat w8" and "unat w16 mod 65536 = unat w16"
    and "unat w32 mod 4294967296 = unat w32"
    and "unat w64 mod 18446744073709551616 = unat w64"
  using unsigned_less [of w8, where ?'a = nat] unsigned_less [of w16, where ?'a = nat]
    unsigned_less [of w32, where ?'a = nat] unsigned_less [of w64, where ?'a = nat]
  by simp_all

lemma be_get_put_word [wire]:
  fixes w16 :: u16 and w32 :: u32 and w64 :: u64
  shows "be_get (be_put 2 (unat w16)) = unat w16"
    and "be_get (be_put 4 (unat w32)) = unat w32" and "be_get (be_put 8 (unat w64)) = unat w64"
  by (simp_all add: be_get_put unat_mod_width)

subsection \<open>The interface of a fixed-width wire format\<close>

text \<open>
  A C structure that is written to a buffer and read back through a pointer cast: an
  encoder and a decoder of one width, such that reading what was written gives the value
  back whatever follows it in the buffer. Arrays of such structures then round-trip too.
\<close>

fun decode_array :: "nat \<Rightarrow> (u8 list \<Rightarrow> 'a) \<Rightarrow> nat \<Rightarrow> u8 list \<Rightarrow> 'a list" where
  "decode_array w dec 0 bs = []"
| "decode_array w dec (Suc n) bs = dec bs # decode_array w dec n (drop w bs)"

locale wire_format =
  fixes width :: nat
    and enc :: "'a \<Rightarrow> u8 list"
    and dec :: "u8 list \<Rightarrow> 'a"
  assumes enc_width: "length (enc a) = width"
    and dec_enc: "dec (enc a @ rest) = a"
begin

lemma enc_inject: "enc a = enc b \<Longrightarrow> a = b"
  by (metis append_Nil2 dec_enc)

lemma array_width: "length (concat (map enc as)) = width * length as"
  by (induction as) (simp_all add: enc_width)

lemma array_round_trip: "decode_array width dec (length as) (concat (map enc as) @ rest) = as"
  by (induction as) (simp_all add: dec_enc enc_width)

end

subsection \<open>The interface of a component driven by calls\<close>

text \<open>
  Most components are records that a fixed set of functions updates. \<open>step\<close> is one call,
  \<open>legal\<close> what the caller owes, \<open>inv\<close> what every call keeps: then every sequence of
  legal calls keeps it. \<open>call_order\<close> adds a relation between the states before and
  after that is reflexive and transitive, such as a counter that only grows.
\<close>

fun run_calls :: "('s \<Rightarrow> 'e \<Rightarrow> 's) \<Rightarrow> 's \<Rightarrow> 'e list \<Rightarrow> 's" where
  "run_calls step s [] = s"
| "run_calls step s (e # es) = run_calls step (step s e) es"

fun legal_calls :: "('s \<Rightarrow> 'e \<Rightarrow> 's) \<Rightarrow> ('s \<Rightarrow> 'e \<Rightarrow> bool) \<Rightarrow> 's \<Rightarrow> 'e list \<Rightarrow> bool" where
  "legal_calls step legal s [] = True"
| "legal_calls step legal s (e # es) = (legal s e \<and> legal_calls step legal (step s e) es)"

lemma run_calls_append: "run_calls step s (xs @ ys) = run_calls step (run_calls step s xs) ys"
  by (induction xs arbitrary: s) auto

locale call_system =
  fixes step :: "'s \<Rightarrow> 'e \<Rightarrow> 's"
    and legal :: "'s \<Rightarrow> 'e \<Rightarrow> bool"
    and inv :: "'s \<Rightarrow> bool"
  assumes step_inv: "inv s \<Longrightarrow> legal s e \<Longrightarrow> inv (step s e)"
begin

lemma run_inv: "inv s \<Longrightarrow> legal_calls step legal s es \<Longrightarrow> inv (run_calls step s es)"
  by (induction es arbitrary: s) (auto intro: step_inv)

end

locale call_order = call_system +
  fixes le :: "'s \<Rightarrow> 's \<Rightarrow> bool"
  assumes le_refl: "le s s"
    and le_trans: "le s t \<Longrightarrow> le t u \<Longrightarrow> le s u"
    and step_le: "inv s \<Longrightarrow> legal s e \<Longrightarrow> le s (step s e)"
begin

lemma run_le: "inv s \<Longrightarrow> legal_calls step legal s es \<Longrightarrow> le s (run_calls step s es)"
proof (induction es arbitrary: s)
  case Nil
  then show ?case by (simp add: le_refl)
next
  case (Cons e es)
  from Cons.prems have "inv (step s e)" and "le s (step s e)"
    by (auto intro: step_inv step_le)
  with Cons show ?case by (auto intro: le_trans)
qed

end

subsection \<open>Lists\<close>

lemma nth_list_update_if:
  "i < length xs \<Longrightarrow> xs[i := v] ! j = (if i = j then v else xs ! j)"
  by (simp add: nth_list_update)

lemma map_update_same: "i < length xs \<Longrightarrow> f v = f (xs ! i) \<Longrightarrow> map f (xs[i := v]) = map f xs"
  by (metis list_update_id map_update)

lemma distinct_remove1_notin: "distinct xs \<Longrightarrow> x \<notin> set (remove1 x xs)"
  by simp

end
