(* ===== verification/Heap.thy ===== *)
theory Heap
  imports Prelude
begin

text \<open>
  The binary max-heap of \<open>lib/heap.c\<close> and \<open>lib/heap.h\<close>, which the MAC learning table
  uses to find the port with the most entries. A \<open>struct heap_node\<close> lives inside its
  owner, so a node is an element of an arbitrary type \<open>'x\<close> and its two members are maps
  from nodes; the array is a partial map from slots, empty where \<open>array\<close> is NULL or
  was never written. Priorities are 64-bit words.

  Shown: the loops end, no operation touches a slot outside the allocated array, every
  public operation keeps the heap order and has the effect of the same operation on a
  finite map from nodes to priorities, \<open>heap_max\<close> is a maximum, and \<open>heap_rebuild\<close>
  restores the order after any raw operations.
\<close>

subsection \<open>Data\<close>

record 'x heap =
  hp_array :: "nat \<rightharpoonup> 'x"
  hp_n :: nat
  hp_allocated :: nat
  node_idx :: "'x \<Rightarrow> nat"
  node_priority :: "'x \<Rightarrow> u64"

definition heap_slot :: "'x heap \<Rightarrow> nat \<Rightarrow> 'x" where
  "heap_slot h i = the (hp_array h i)"

abbreviation slot_pri :: "'x heap \<Rightarrow> nat \<Rightarrow> u64" where
  "slot_pri h i \<equiv> node_priority h (heap_slot h i)"

definition heap_parent :: "nat \<Rightarrow> nat" where
  "heap_parent idx = idx div 2"

definition heap_left :: "nat \<Rightarrow> nat" where
  "heap_left idx = idx * 2"

definition heap_right :: "nat \<Rightarrow> nat" where
  "heap_right idx = idx * 2 + 1"

definition heap_is_leaf :: "'x heap \<Rightarrow> nat \<Rightarrow> bool" where
  "heap_is_leaf h idx \<longleftrightarrow> heap_left idx > hp_n h"

definition heap_count :: "'x heap \<Rightarrow> nat" where
  "heap_count h = hp_n h"

definition heap_is_empty :: "'x heap \<Rightarrow> bool" where
  "heap_is_empty h \<longleftrightarrow> hp_n h = 0"

definition heap_max :: "'x heap \<Rightarrow> 'x" where
  "heap_max h = heap_slot h 1"

subsection \<open>Operations\<close>

text \<open>\<open>heap_init\<close> leaves the nodes alone: their members keep what they held.\<close>

definition heap_init :: "('x \<Rightarrow> nat) \<Rightarrow> ('x \<Rightarrow> u64) \<Rightarrow> 'x heap" where
  "heap_init idx pri =
     \<lparr>hp_array = Map.empty, hp_n = 0, hp_allocated = 0, node_idx = idx, node_priority = pri\<rparr>"

definition heap_clear :: "'x heap \<Rightarrow> 'x heap" where
  "heap_clear h = h\<lparr>hp_n := 0\<rparr>"

definition put_node :: "'x heap \<Rightarrow> 'x \<Rightarrow> nat \<Rightarrow> 'x heap" where
  "put_node h x i = h\<lparr>hp_array := (hp_array h)(i \<mapsto> x), node_idx := (node_idx h)(x := i)\<rparr>"

definition swap_nodes :: "'x heap \<Rightarrow> nat \<Rightarrow> nat \<Rightarrow> 'x heap" where
  "swap_nodes h i j =
     (let old_i = heap_slot h i; old_j = heap_slot h j
      in put_node (put_node h old_j i) old_i j)"

text \<open>The loop of \<open>float_up\<close> returns the heap and whether a node moved.\<close>

function float_up :: "'x heap \<Rightarrow> nat \<Rightarrow> 'x heap \<times> bool" where
  "float_up h i =
     (if i > 1
      then let parent = heap_parent i
           in if slot_pri h parent \<ge> slot_pri h i then (h, False)
              else (fst (float_up (swap_nodes h parent i) parent), True)
      else (h, False))"
  by pat_completeness auto
termination
  by (relation "measure snd") (auto simp: heap_parent_def)

lemma hp_n_put_node [simp]: "hp_n (put_node h x i) = hp_n h"
  by (simp add: put_node_def)

lemma hp_n_swap_nodes [simp]: "hp_n (swap_nodes h i j) = hp_n h"
  by (simp add: swap_nodes_def Let_def)

definition larger_child :: "'x heap \<Rightarrow> nat \<Rightarrow> nat" where
  "larger_child h i =
     (let left = heap_left i; right = heap_right i;
          m = (if slot_pri h left > slot_pri h i then left else i)
      in if right \<le> hp_n h \<and> slot_pri h right > slot_pri h m then right else m)"

lemma larger_child_progress:
  "\<not> heap_is_leaf h i \<Longrightarrow> larger_child h i \<noteq> i \<Longrightarrow> i < larger_child h i \<and> larger_child h i \<le> hp_n h"
  by (auto simp: larger_child_def heap_is_leaf_def heap_left_def heap_right_def Let_def
      split: if_splits)

function float_down :: "'x heap \<Rightarrow> nat \<Rightarrow> 'x heap" where
  "float_down h i =
     (if \<not> heap_is_leaf h i
      then let m = larger_child h i
           in if m = i then h else float_down (swap_nodes h m i) m
      else h)"
  by pat_completeness auto
termination
proof (relation "measure (\<lambda>(h, i). hp_n h - i)", goal_cases)
  case 1
  show ?case by simp
next
  case (2 h i m)
  with larger_child_progress [of h i] show ?case by auto
qed

declare float_up.simps [simp del] float_down.simps [simp del]

definition float_up_or_down :: "'x heap \<Rightarrow> nat \<Rightarrow> 'x heap" where
  "float_up_or_down h i =
     (let (h', moved) = float_up h i in if \<not> moved then float_down h' i else h')"

definition heap_raw_insert :: "'x heap \<Rightarrow> 'x \<Rightarrow> u64 \<Rightarrow> 'x heap" where
  "heap_raw_insert h x priority =
     (let h1 = (if hp_n h \<ge> hp_allocated h
                then h\<lparr>hp_allocated := (if hp_n h = 0 then 1 else 2 * hp_n h)\<rparr> else h);
          h2 = h1\<lparr>hp_n := hp_n h1 + 1\<rparr>;
          h3 = put_node h2 x (hp_n h2)
      in h3\<lparr>node_priority := (node_priority h3)(x := priority)\<rparr>)"

definition heap_raw_remove :: "'x heap \<Rightarrow> 'x \<Rightarrow> 'x heap" where
  "heap_raw_remove h x =
     (let i = node_idx h x;
          h1 = (if i < hp_n h then put_node h (heap_slot h (hp_n h)) i else h)
      in h1\<lparr>hp_n := hp_n h1 - 1\<rparr>)"

definition heap_raw_change :: "'x heap \<Rightarrow> 'x \<Rightarrow> u64 \<Rightarrow> 'x heap" where
  "heap_raw_change h x priority = h\<lparr>node_priority := (node_priority h)(x := priority)\<rparr>"

definition heap_insert :: "'x heap \<Rightarrow> 'x \<Rightarrow> u64 \<Rightarrow> 'x heap" where
  "heap_insert h x priority =
     (let h1 = heap_raw_insert h x priority in fst (float_up h1 (node_idx h1 x)))"

definition heap_remove :: "'x heap \<Rightarrow> 'x \<Rightarrow> 'x heap" where
  "heap_remove h x =
     (let i = node_idx h x; h1 = heap_raw_remove h x
      in if i \<le> hp_n h1 then float_up_or_down h1 i else h1)"

definition heap_change :: "'x heap \<Rightarrow> 'x \<Rightarrow> u64 \<Rightarrow> 'x heap" where
  "heap_change h x priority =
     (let h1 = heap_raw_change h x priority in float_up_or_down h1 (node_idx h1 x))"

definition heap_pop :: "'x heap \<Rightarrow> 'x heap \<times> 'x" where
  "heap_pop h = (h\<lparr>hp_n := hp_n h - 1\<rparr>, heap_slot h (hp_n h))"

text \<open>The loop \<open>for (i = n / 2; i >= 1; i--)\<close>.\<close>

fun heap_rebuild_from :: "'x heap \<Rightarrow> nat \<Rightarrow> 'x heap" where
  "heap_rebuild_from h 0 = h"
| "heap_rebuild_from h (Suc i) = heap_rebuild_from (float_down h (Suc i)) i"

definition heap_rebuild :: "'x heap \<Rightarrow> 'x heap" where
  "heap_rebuild h = heap_rebuild_from h (hp_n h div 2)"

subsection \<open>Well-formedness and order\<close>

text \<open>
  \<open>heap_wf\<close>: slots 1 to \<open>n\<close> are inside the allocation and hold nodes whose \<open>idx\<close>
  points back. \<open>heap_ordered m\<close>: every node whose parent slot is at least \<open>m\<close> is at
  most its parent.
\<close>

definition heap_wf :: "'x heap \<Rightarrow> bool" where
  "heap_wf h \<longleftrightarrow> hp_n h \<le> hp_allocated h \<and>
     (\<forall>i \<in> {1..hp_n h}. \<exists>x. hp_array h i = Some x \<and> node_idx h x = i)"

definition heap_ordered :: "nat \<Rightarrow> 'x heap \<Rightarrow> bool" where
  "heap_ordered m h \<longleftrightarrow>
     (\<forall>j \<in> {2..hp_n h}. m \<le> j div 2 \<longrightarrow> slot_pri h j \<le> slot_pri h (j div 2))"

definition heap_inv :: "'x heap \<Rightarrow> bool" where
  "heap_inv h \<longleftrightarrow> heap_wf h \<and> heap_ordered 1 h"

definition heap_nodes :: "'x heap \<Rightarrow> 'x set" where
  "heap_nodes h = heap_slot h ` {1..hp_n h}"

lemma heap_wf_slot: "heap_wf h \<Longrightarrow> 1 \<le> i \<Longrightarrow> i \<le> hp_n h \<Longrightarrow>
    hp_array h i = Some (heap_slot h i) \<and> node_idx h (heap_slot h i) = i"
  by (force simp: heap_wf_def heap_slot_def)

lemma heap_wfI:
  assumes "hp_n h \<le> hp_allocated h"
    and "\<And>i. 1 \<le> i \<Longrightarrow> i \<le> hp_n h \<Longrightarrow> \<exists>x. hp_array h i = Some x \<and> node_idx h x = i"
  shows "heap_wf h"
  using assms by (auto simp: heap_wf_def)

lemma heap_slot_inj: "heap_wf h \<Longrightarrow> i \<in> {1..hp_n h} \<Longrightarrow> j \<in> {1..hp_n h} \<Longrightarrow>
    heap_slot h i = heap_slot h j \<longleftrightarrow> i = j"
  using heap_wf_slot by (metis atLeastAtMost_iff)

lemma heap_nodes_idx:
  assumes "heap_wf h" "x \<in> heap_nodes h"
  shows "1 \<le> node_idx h x \<and> node_idx h x \<le> hp_n h \<and> heap_slot h (node_idx h x) = x"
  using assms heap_wf_slot by (fastforce simp: heap_nodes_def)

lemma finite_heap_nodes [simp]: "finite (heap_nodes h)"
  by (simp add: heap_nodes_def)

subsection \<open>Swapping two slots\<close>

lemma swap_nodes_slot:
  "heap_slot (swap_nodes h i j) k =
     (if k = j then heap_slot h i else if k = i then heap_slot h j else heap_slot h k)"
  by (simp add: swap_nodes_def put_node_def heap_slot_def Let_def)

lemma swap_nodes_priority [simp]: "node_priority (swap_nodes h i j) = node_priority h"
  by (simp add: swap_nodes_def put_node_def Let_def)

lemma swap_nodes_allocated [simp]: "hp_allocated (swap_nodes h i j) = hp_allocated h"
  by (simp add: swap_nodes_def put_node_def Let_def)

lemma swap_nodes_wf:
  assumes "heap_wf h" "i \<in> {1..hp_n h}" "j \<in> {1..hp_n h}" "i \<noteq> j"
  shows "heap_wf (swap_nodes h i j)"
proof (rule heap_wfI)
  show "hp_n (swap_nodes h i j) \<le> hp_allocated (swap_nodes h i j)"
    using assms(1) by (simp add: heap_wf_def)
next
  fix k assume k: "1 \<le> k" "k \<le> hp_n (swap_nodes h i j)"
  then have k': "k \<in> {1..hp_n h}" by simp
  note s = heap_wf_slot [OF assms(1)] heap_slot_inj [OF assms(1)]
  show "\<exists>x. hp_array (swap_nodes h i j) k = Some x \<and> node_idx (swap_nodes h i j) x = k"
    using assms(2-4) k' s(1) [of k] s(2) [OF assms(2) k'] s(2) [OF assms(3) k']
      s(2) [OF assms(2,3)]
    by (auto simp: swap_nodes_def put_node_def Let_def)
qed

lemma swap_nodes_nodes:
  assumes "i \<in> {1..hp_n h}" "j \<in> {1..hp_n h}"
  shows "heap_nodes (swap_nodes h i j) = heap_nodes h"
  using assms by (auto simp: heap_nodes_def swap_nodes_slot image_iff)


subsection \<open>The order with a hole\<close>

text \<open>
  While a node floats, the order may fail at its slot only. \<open>heap_hole m h i\<close>: pairs
  that do not involve slot \<open>i\<close> are in order and the children of \<open>i\<close> are in order
  with the parent of \<open>i\<close>, all restricted to parents from slot \<open>m\<close> on.
\<close>

definition heap_hole :: "nat \<Rightarrow> 'x heap \<Rightarrow> nat \<Rightarrow> bool" where
  "heap_hole m h i \<longleftrightarrow>
     (\<forall>j \<in> {2..hp_n h}. m \<le> j div 2 \<longrightarrow> j \<noteq> i \<longrightarrow> j div 2 \<noteq> i \<longrightarrow>
        slot_pri h j \<le> slot_pri h (j div 2)) \<and>
     (\<forall>j \<in> {2..hp_n h}. j div 2 = i \<longrightarrow> 2 \<le> i \<longrightarrow> m \<le> i div 2 \<longrightarrow>
        slot_pri h j \<le> slot_pri h (i div 2))"

definition children_ok :: "'x heap \<Rightarrow> nat \<Rightarrow> bool" where
  "children_ok h i \<longleftrightarrow> (\<forall>j \<in> {2..hp_n h}. j div 2 = i \<longrightarrow> slot_pri h j \<le> slot_pri h i)"

definition parent_ok :: "nat \<Rightarrow> 'x heap \<Rightarrow> nat \<Rightarrow> bool" where
  "parent_ok m h i \<longleftrightarrow> (2 \<le> i \<longrightarrow> m \<le> i div 2 \<longrightarrow> slot_pri h i \<le> slot_pri h (i div 2))"

lemma heap_hole_closed:
  "heap_hole m h i \<Longrightarrow> children_ok h i \<Longrightarrow> parent_ok m h i \<Longrightarrow> heap_ordered m h"
  unfolding heap_hole_def children_ok_def parent_ok_def heap_ordered_def by fastforce

lemma heap_hole_swap_up:
  assumes hole: "heap_hole 1 h i" and bad: "\<not> parent_ok 1 h i" and i: "1 < i" "i \<le> hp_n h"
  shows "heap_hole 1 (swap_nodes h (i div 2) i) (i div 2)"
    and "children_ok (swap_nodes h (i div 2) i) (i div 2)"
proof -
  let ?p = "i div 2" and ?h = "swap_nodes h (i div 2) i"
  have lt: "slot_pri h ?p < slot_pri h i"
    using bad by (auto simp: parent_ok_def)
  have p: "1 \<le> ?p" "?p \<noteq> i" "?p \<le> hp_n h" using i by auto
  have sib: "slot_pri h j \<le> slot_pri h ?p" if "j \<in> {2..hp_n h}" "j div 2 = ?p" "j \<noteq> i" for j
    using hole that p unfolding heap_hole_def by metis
  have gp: "slot_pri h ?p \<le> slot_pri h (?p div 2)" if "2 \<le> ?p"
  proof -
    have "?p \<in> {2..hp_n h}" "1 \<le> ?p div 2" "?p div 2 \<noteq> i" using that p i by auto
    with hole p(2) show ?thesis unfolding heap_hole_def by metis
  qed
  have kids: "slot_pri h j \<le> slot_pri h ?p" if "j \<in> {2..hp_n h}" "j div 2 = i" for j
    using hole that i unfolding heap_hole_def by auto
  show "children_ok ?h ?p"
    unfolding children_ok_def
  proof (intro ballI impI)
    fix j assume j: "j \<in> {2..hp_n ?h}" "j div 2 = ?p"
    then show "slot_pri ?h j \<le> slot_pri ?h ?p"
      using sib [of j] lt i by (cases "j = i") (auto simp: swap_nodes_slot)
  qed
  show "heap_hole 1 ?h ?p"
    unfolding heap_hole_def
  proof (intro conjI ballI impI)
    fix j assume j: "j \<in> {2..hp_n ?h}" "1 \<le> j div 2" "j \<noteq> ?p" "j div 2 \<noteq> ?p"
    show "slot_pri ?h j \<le> slot_pri ?h (j div 2)"
    proof (cases "j div 2 = i")
      case True
      with kids [of j] j show ?thesis by (auto simp: swap_nodes_slot)
    next
      case False
      with hole j show ?thesis by (auto simp: swap_nodes_slot heap_hole_def)
    qed
  next
    fix j assume j: "j \<in> {2..hp_n ?h}" "j div 2 = ?p" "2 \<le> ?p"
    have "?p div 2 \<noteq> i" "?p div 2 \<noteq> ?p" using j(3) i by auto
    then show "slot_pri ?h j \<le> slot_pri ?h (?p div 2)"
      using gp [OF j(3)] sib [of j] j by (cases "j = i") (auto simp: swap_nodes_slot)
  qed
qed


lemma larger_child_max:
  assumes "\<not> heap_is_leaf h i"
  shows "\<forall>j \<in> {2..hp_n h}. j div 2 = i \<longrightarrow> slot_pri h j \<le> slot_pri h (larger_child h i)"
    and "slot_pri h i \<le> slot_pri h (larger_child h i)"
    and "larger_child h i \<noteq> i \<Longrightarrow> larger_child h i div 2 = i \<and>
           slot_pri h i < slot_pri h (larger_child h i)"
proof -
  have "j = i * 2 \<or> j = i * 2 + 1" if "j div 2 = i" for j :: nat using that by auto
  then show "\<forall>j \<in> {2..hp_n h}. j div 2 = i \<longrightarrow> slot_pri h j \<le> slot_pri h (larger_child h i)"
    using assms
    by (fastforce simp: larger_child_def heap_is_leaf_def heap_left_def heap_right_def Let_def)
qed (auto simp: larger_child_def heap_left_def heap_right_def Let_def split: if_splits)

lemma heap_hole_swap_down:
  assumes hole: "heap_hole m h i" and up: "parent_ok m h i" and i: "m \<le> i" "1 \<le> m"
    and step: "\<not> heap_is_leaf h i" "larger_child h i \<noteq> i"
  shows "heap_hole m (swap_nodes h (larger_child h i) i) (larger_child h i)"
    and "parent_ok m (swap_nodes h (larger_child h i) i) (larger_child h i)"
proof -
  let ?c = "larger_child h i" and ?h = "swap_nodes h (larger_child h i) i"
  note c = larger_child_progress [OF step] larger_child_max [OF step(1)]
  have c2: "?c div 2 = i" and lt: "slot_pri h i < slot_pri h ?c" using c(4) step by auto
  show "parent_ok m ?h ?c"
    using c2 lt c(1) by (auto simp: parent_ok_def swap_nodes_slot)
  show "heap_hole m ?h ?c"
    unfolding heap_hole_def
  proof (intro conjI ballI impI)
    fix j assume j: "j \<in> {2..hp_n ?h}" "m \<le> j div 2" "j \<noteq> ?c" "j div 2 \<noteq> ?c"
    consider "j div 2 = i" | "j = i" "j div 2 \<noteq> i" | "j \<noteq> i" "j div 2 \<noteq> i" by blast
    then show "slot_pri ?h j \<le> slot_pri ?h (j div 2)"
    proof cases
      case 1
      then show ?thesis using c(1) c(2) j i by (auto simp: swap_nodes_slot)
    next
      case 2
      have "slot_pri h ?c \<le> slot_pri h (i div 2)"
        using hole 2 j c(1) c2 i unfolding heap_hole_def by force
      then show ?thesis using 2 j by (auto simp: swap_nodes_slot)
    next
      case 3
      then show ?thesis using hole j by (auto simp: swap_nodes_slot heap_hole_def)
    qed
  next
    fix j assume j: "j \<in> {2..hp_n ?h}" "j div 2 = ?c"
    then have "j \<noteq> i" "j \<noteq> ?c" using c(1) by auto
    moreover have "slot_pri h j \<le> slot_pri h ?c"
      using hole j c(1) i \<open>j \<noteq> i\<close> unfolding heap_hole_def by force
    ultimately show "slot_pri ?h j \<le> slot_pri ?h (?c div 2)"
      using c2 c(1) by (auto simp: swap_nodes_slot)
  qed
qed

subsection \<open>Floating\<close>

text \<open>What every step of floating leaves alone.\<close>

definition heap_frame :: "'x heap \<Rightarrow> 'x heap \<Rightarrow> bool" where
  "heap_frame h h' \<longleftrightarrow> heap_wf h' \<and> hp_n h' = hp_n h \<and> hp_allocated h' = hp_allocated h \<and>
     node_priority h' = node_priority h \<and> heap_nodes h' = heap_nodes h"

lemma heap_frame_trans: "heap_frame h h' \<Longrightarrow> heap_frame h' h'' \<Longrightarrow> heap_frame h h''"
  by (auto simp: heap_frame_def)

lemma heap_frame_swap:
  "heap_wf h \<Longrightarrow> i \<in> {1..hp_n h} \<Longrightarrow> j \<in> {1..hp_n h} \<Longrightarrow> i \<noteq> j \<Longrightarrow>
   heap_frame h (swap_nodes h i j)"
  by (simp add: heap_frame_def swap_nodes_wf swap_nodes_nodes)

lemma float_up_frame:
  "heap_wf h \<Longrightarrow> i \<le> hp_n h \<Longrightarrow> heap_frame h (fst (float_up h i))"
proof (induction h i rule: float_up.induct)
  case (1 h i)
  show ?case
  proof (cases "1 < i \<and> \<not> slot_pri h i \<le> slot_pri h (heap_parent i)")
    case True
    let ?h = "swap_nodes h (heap_parent i) i"
    have f: "heap_frame h ?h"
      using True 1(2,3) by (intro heap_frame_swap) (auto simp: heap_parent_def)
    have "heap_parent i \<le> hp_n ?h" using 1(3) by (simp add: heap_parent_def)
    with f True 1(1) have "heap_frame ?h (fst (float_up ?h (heap_parent i)))"
      by (simp add: heap_frame_def)
    with f have "heap_frame h (fst (float_up ?h (heap_parent i)))" by (rule heap_frame_trans)
    with True show ?thesis by (simp add: float_up.simps [of h i] Let_def)
  next
    case False
    with 1(2) show ?thesis by (auto simp: float_up.simps [of h i] heap_frame_def Let_def)
  qed
qed

lemma float_up_moved: "snd (float_up h i) \<longleftrightarrow> \<not> parent_ok 1 h i"
  by (auto simp: float_up.simps [of h i] parent_ok_def heap_parent_def Let_def)

lemma float_up_unmoved: "parent_ok 1 h i \<Longrightarrow> fst (float_up h i) = h"
  by (auto simp: float_up.simps [of h i] parent_ok_def heap_parent_def Let_def)

lemma float_up_ordered:
  "heap_hole 1 h i \<Longrightarrow> children_ok h i \<or> \<not> parent_ok 1 h i \<Longrightarrow> i \<le> hp_n h \<Longrightarrow>
   heap_ordered 1 (fst (float_up h i))"
proof (induction h i rule: float_up.induct)
  case (1 h i)
  show ?case
  proof (cases "parent_ok 1 h i")
    case True
    with 1(2,3) show ?thesis by (simp add: float_up_unmoved heap_hole_closed)
  next
    case False
    then have i: "1 < i" and gt: "\<not> slot_pri h i \<le> slot_pri h (heap_parent i)"
      by (auto simp: parent_ok_def heap_parent_def)
    note sw = heap_hole_swap_up [OF 1(2) False i 1(4)]
    have "i div 2 \<le> hp_n (swap_nodes h (i div 2) i)" using 1(4) by simp
    with sw 1(1) i gt
    have "heap_ordered 1 (fst (float_up (swap_nodes h (i div 2) i) (i div 2)))"
      by (simp add: heap_parent_def)
    with i gt show ?thesis
      by (simp add: float_up.simps [of h i] Let_def heap_parent_def)
  qed
qed

lemma float_down_frame:
  "heap_wf h \<Longrightarrow> 1 \<le> i \<Longrightarrow> i \<le> hp_n h \<Longrightarrow> heap_frame h (float_down h i)"
proof (induction h i rule: float_down.induct)
  case (1 h i)
  show ?case
  proof (cases "\<not> heap_is_leaf h i \<and> larger_child h i \<noteq> i")
    case True
    let ?h = "swap_nodes h (larger_child h i) i"
    have c: "i < larger_child h i" "larger_child h i \<le> hp_n h"
      using larger_child_progress True by blast+
    with 1(2-4) have f: "heap_frame h ?h" by (intro heap_frame_swap) auto
    with c True 1(1) have "heap_frame ?h (float_down ?h (larger_child h i))"
      by (simp add: heap_frame_def)
    with f have "heap_frame h (float_down ?h (larger_child h i))" by (rule heap_frame_trans)
    with True show ?thesis by (simp add: float_down.simps [of h i] Let_def)
  next
    case False
    with 1(2) show ?thesis by (auto simp: float_down.simps [of h i] heap_frame_def Let_def)
  qed
qed

lemma float_down_ordered:
  "heap_hole m h i \<Longrightarrow> parent_ok m h i \<Longrightarrow> m \<le> i \<Longrightarrow> 1 \<le> m \<Longrightarrow>
   heap_ordered m (float_down h i)"
proof (induction h i rule: float_down.induct)
  case (1 h i)
  show ?case
  proof (cases "\<not> heap_is_leaf h i \<and> larger_child h i \<noteq> i")
    case True
    then have sw: "heap_hole m (swap_nodes h (larger_child h i) i) (larger_child h i)"
      "parent_ok m (swap_nodes h (larger_child h i) i) (larger_child h i)"
      using heap_hole_swap_down [OF 1(2-5)] by blast+
    have "m \<le> larger_child h i" using larger_child_progress True 1(4) by fastforce
    with sw True 1(1,5) show ?thesis by (simp add: float_down.simps [of h i] Let_def)
  next
    case False
    then have "children_ok h i"
      using larger_child_max(1) [of h i]
      by (fastforce simp: children_ok_def heap_is_leaf_def heap_left_def)
    then have "heap_ordered m h" using 1(2,3) heap_hole_closed by blast
    with False show ?thesis by (auto simp: float_down.simps [of h i] Let_def)
  qed
qed

lemma float_up_or_down_correct:
  assumes "heap_wf h" "heap_hole 1 h i" "1 \<le> i" "i \<le> hp_n h"
  shows "heap_frame h (float_up_or_down h i) \<and> heap_ordered 1 (float_up_or_down h i)"
proof (cases "parent_ok 1 h i")
  case True
  with assms float_down_frame [of h i] float_down_ordered [of 1 h i] show ?thesis
    by (simp add: float_up_or_down_def case_prod_beta float_up_moved float_up_unmoved Let_def)
next
  case False
  with assms float_up_frame [of h i] float_up_ordered [of h i] show ?thesis
    by (simp add: float_up_or_down_def case_prod_beta float_up_moved Let_def)
qed


subsection \<open>The public operations\<close>

lemma heap_raw_insert_simps:
  "hp_n (heap_raw_insert h x p) = Suc (hp_n h)"
  "node_priority (heap_raw_insert h x p) = (node_priority h)(x := p)"
  "hp_array (heap_raw_insert h x p) = (hp_array h)(Suc (hp_n h) \<mapsto> x)"
  "node_idx (heap_raw_insert h x p) = (node_idx h)(x := Suc (hp_n h))"
  "hp_allocated (heap_raw_insert h x p) =
     (if hp_allocated h \<le> hp_n h then if hp_n h = 0 then 1 else 2 * hp_n h else hp_allocated h)"
  by (simp_all add: heap_raw_insert_def put_node_def Let_def)

lemma heap_raw_insert_slot:
  "heap_slot (heap_raw_insert h x p) i = (if i = Suc (hp_n h) then x else heap_slot h i)"
  by (simp add: heap_slot_def heap_raw_insert_simps)

lemma heap_slot_in_nodes: "1 \<le> i \<Longrightarrow> i \<le> hp_n h \<Longrightarrow> heap_slot h i \<in> heap_nodes h"
  by (simp add: heap_nodes_def)

lemma heap_raw_insert_wf:
  assumes "heap_wf h" "x \<notin> heap_nodes h"
  shows "heap_wf (heap_raw_insert h x p)"
proof (rule heap_wfI)
  show "hp_n (heap_raw_insert h x p) \<le> hp_allocated (heap_raw_insert h x p)"
    using assms(1) by (auto simp: heap_raw_insert_simps heap_wf_def)
next
  fix i assume i: "1 \<le> i" "i \<le> hp_n (heap_raw_insert h x p)"
  then show "\<exists>y. hp_array (heap_raw_insert h x p) i = Some y \<and>
      node_idx (heap_raw_insert h x p) y = i"
    using heap_wf_slot [OF assms(1), of i] heap_slot_in_nodes [of i h] assms(2)
    by (cases "i = Suc (hp_n h)") (auto simp: heap_raw_insert_simps)
qed

lemma heap_raw_insert_nodes:
  "heap_nodes (heap_raw_insert h x p) = insert x (heap_nodes h)"
  by (auto simp: heap_nodes_def heap_raw_insert_simps heap_raw_insert_slot image_iff)

lemma heap_insert_correct:
  assumes "heap_inv h" "x \<notin> heap_nodes h"
  shows "heap_inv (heap_insert h x p)"
    and "heap_nodes (heap_insert h x p) = insert x (heap_nodes h)"
    and "node_priority (heap_insert h x p) = (node_priority h)(x := p)"
proof -
  let ?h = "heap_raw_insert h x p" and ?i = "Suc (hp_n h)"
  have wf: "heap_wf ?h" using assms heap_raw_insert_wf by (auto simp: heap_inv_def)
  have ne: "heap_slot h j \<noteq> x" if "1 \<le> j" "j \<le> hp_n h" for j
    using heap_slot_in_nodes [OF that] assms(2) by auto
  have ne2: "heap_slot h (j div 2) \<noteq> x" if "2 \<le> j" "j \<le> Suc (hp_n h)" for j
    using ne [of "j div 2"] that by auto
  have kids: "j div 2 \<noteq> ?i" if "j \<le> ?i" for j using that by auto
  have "heap_hole 1 ?h ?i"
    unfolding heap_hole_def
  proof (intro conjI ballI impI)
    fix j assume j: "j \<in> {2..hp_n ?h}" "j \<noteq> ?i" "j div 2 \<noteq> ?i"
    then have "2 \<le> j" "j \<le> hp_n h" by (auto simp: heap_raw_insert_simps)
    with j assms(1) ne [of j] ne2 [of j] show "slot_pri ?h j \<le> slot_pri ?h (j div 2)"
      by (auto simp: heap_inv_def heap_ordered_def heap_raw_insert_simps heap_raw_insert_slot)
  next
    fix j assume "j \<in> {2..hp_n ?h}" "j div 2 = ?i"
    with kids [of j] show "slot_pri ?h j \<le> slot_pri ?h (?i div 2)"
      by (simp add: heap_raw_insert_simps)
  qed
  moreover have "children_ok ?h ?i"
    using kids by (auto simp: children_ok_def heap_raw_insert_simps)
  ultimately have "heap_ordered 1 (fst (float_up ?h ?i))" and "heap_frame ?h (fst (float_up ?h ?i))"
    using wf float_up_ordered [of ?h ?i] float_up_frame [of ?h ?i]
    by (auto simp: heap_raw_insert_simps)
  then show "heap_inv (heap_insert h x p)"
    and "heap_nodes (heap_insert h x p) = insert x (heap_nodes h)"
    and "node_priority (heap_insert h x p) = (node_priority h)(x := p)"
    by (auto simp: heap_insert_def heap_inv_def heap_frame_def Let_def heap_raw_insert_simps
        heap_raw_insert_nodes)
qed

lemma heap_raw_remove_simps:
  "hp_n (heap_raw_remove h x) = hp_n h - 1"
  "hp_allocated (heap_raw_remove h x) = hp_allocated h"
  "node_priority (heap_raw_remove h x) = node_priority h"
  "hp_array (heap_raw_remove h x) =
     (if node_idx h x < hp_n h then (hp_array h)(node_idx h x \<mapsto> heap_slot h (hp_n h))
      else hp_array h)"
  "node_idx (heap_raw_remove h x) =
     (if node_idx h x < hp_n h then (node_idx h)(heap_slot h (hp_n h) := node_idx h x)
      else node_idx h)"
  by (simp_all add: heap_raw_remove_def put_node_def Let_def)

lemma heap_raw_remove_slot:
  "heap_slot (heap_raw_remove h x) j =
     (if node_idx h x < hp_n h \<and> j = node_idx h x then heap_slot h (hp_n h) else heap_slot h j)"
  by (simp add: heap_slot_def heap_raw_remove_simps)

lemma heap_raw_remove_wf:
  assumes "heap_wf h" "x \<in> heap_nodes h"
  shows "heap_wf (heap_raw_remove h x)"
proof (rule heap_wfI)
  show "hp_n (heap_raw_remove h x) \<le> hp_allocated (heap_raw_remove h x)"
    using assms(1) by (auto simp: heap_raw_remove_simps heap_wf_def)
next
  fix j assume "1 \<le> j" "j \<le> hp_n (heap_raw_remove h x)"
  then have j: "1 \<le> j" "j < hp_n h" by (auto simp: heap_raw_remove_simps)
  have "heap_slot h j \<noteq> heap_slot h (hp_n h)"
    using heap_slot_inj [OF assms(1), of j "hp_n h"] j by auto
  then show "\<exists>y. hp_array (heap_raw_remove h x) j = Some y \<and>
      node_idx (heap_raw_remove h x) y = j"
    using heap_wf_slot [OF assms(1), of j] j by (auto simp: heap_raw_remove_simps)
qed

lemma heap_raw_remove_nodes:
  assumes "heap_wf h" "x \<in> heap_nodes h"
  shows "heap_nodes (heap_raw_remove h x) = heap_nodes h - {x}"
proof -
  let ?i = "node_idx h x" and ?n = "hp_n h"
  have i: "1 \<le> ?i" "?i \<le> ?n" "heap_slot h ?i = x" using heap_nodes_idx [OF assms] by auto
  have "y \<in> heap_nodes (heap_raw_remove h x) \<longleftrightarrow> (\<exists>j. 1 \<le> j \<and> j \<le> ?n \<and> j \<noteq> ?i \<and> heap_slot h j = y)" for y
  proof
    assume "y \<in> heap_nodes (heap_raw_remove h x)"
    then obtain j where j: "1 \<le> j" "j < ?n" "heap_slot (heap_raw_remove h x) j = y"
      by (auto simp: heap_nodes_def heap_raw_remove_simps)
    show "\<exists>j. 1 \<le> j \<and> j \<le> ?n \<and> j \<noteq> ?i \<and> heap_slot h j = y"
    proof (cases "j = ?i")
      case True
      with j show ?thesis by (intro exI [of _ ?n]) (auto simp: heap_raw_remove_slot)
    next
      case False
      with j show ?thesis by (intro exI [of _ j]) (auto simp: heap_raw_remove_slot)
    qed
  next
    assume "\<exists>j. 1 \<le> j \<and> j \<le> ?n \<and> j \<noteq> ?i \<and> heap_slot h j = y"
    then obtain j where j: "1 \<le> j" "j \<le> ?n" "j \<noteq> ?i" "heap_slot h j = y" by auto
    show "y \<in> heap_nodes (heap_raw_remove h x)"
    proof (cases "j = ?n")
      case True
      with j i show ?thesis
        by (auto simp: heap_nodes_def heap_raw_remove_simps heap_raw_remove_slot image_iff
            intro!: bexI [of _ ?i])
    next
      case False
      with j show ?thesis
        by (auto simp: heap_nodes_def heap_raw_remove_simps heap_raw_remove_slot image_iff
            intro!: bexI [of _ j])
    qed
  qed
  moreover have "y \<in> heap_nodes h - {x} \<longleftrightarrow> (\<exists>j. 1 \<le> j \<and> j \<le> ?n \<and> j \<noteq> ?i \<and> heap_slot h j = y)" for y
    using i heap_slot_inj [OF assms(1)] by (fastforce simp: heap_nodes_def)
  ultimately show ?thesis by blast
qed


lemma heap_remove_correct:
  assumes "heap_inv h" "x \<in> heap_nodes h"
  shows "heap_inv (heap_remove h x)"
    and "heap_nodes (heap_remove h x) = heap_nodes h - {x}"
    and "node_priority (heap_remove h x) = node_priority h"
proof -
  let ?h = "heap_raw_remove h x" and ?i = "node_idx h x"
  have wf: "heap_wf h" and ord: "heap_ordered 1 h" using assms(1) by (auto simp: heap_inv_def)
  have i: "1 \<le> ?i" "?i \<le> hp_n h" using heap_nodes_idx [OF wf assms(2)] by auto
  have P: "slot_pri h j \<le> slot_pri h (j div 2)" if "2 \<le> j" "j \<le> hp_n h" for j
    using ord that by (auto simp: heap_ordered_def)
  have "heap_hole 1 ?h ?i" if "?i < hp_n h"
    unfolding heap_hole_def
  proof (intro conjI ballI impI)
    fix j assume "j \<in> {2..hp_n ?h}" "j \<noteq> ?i" "j div 2 \<noteq> ?i"
    then show "slot_pri ?h j \<le> slot_pri ?h (j div 2)"
      using P [of j] by (auto simp: heap_raw_remove_simps heap_raw_remove_slot)
  next
    fix j assume j: "j \<in> {2..hp_n ?h}" "j div 2 = ?i" "2 \<le> ?i"
    then have "slot_pri h j \<le> slot_pri h ?i" using P [of j] by (auto simp: heap_raw_remove_simps)
    also have "\<dots> \<le> slot_pri h (?i div 2)" using P [of ?i] i j by simp
    finally show "slot_pri ?h j \<le> slot_pri ?h (?i div 2)"
      using j by (auto simp: heap_raw_remove_simps heap_raw_remove_slot)
  qed
  moreover have "heap_ordered 1 ?h" if "\<not> ?i < hp_n h"
    using that P by (auto simp: heap_ordered_def heap_raw_remove_simps heap_raw_remove_slot)
  ultimately show "heap_inv (heap_remove h x)"
    and "heap_nodes (heap_remove h x) = heap_nodes h - {x}"
    and "node_priority (heap_remove h x) = node_priority h"
    using float_up_or_down_correct [of ?h ?i] heap_raw_remove_wf [OF wf assms(2)]
      heap_raw_remove_nodes [OF wf assms(2)] i
    by (auto simp: heap_remove_def heap_inv_def heap_frame_def Let_def heap_raw_remove_simps)
qed

lemma heap_change_correct:
  assumes "heap_inv h" "x \<in> heap_nodes h"
  shows "heap_inv (heap_change h x p)"
    and "heap_nodes (heap_change h x p) = heap_nodes h"
    and "node_priority (heap_change h x p) = (node_priority h)(x := p)"
proof -
  let ?h = "heap_raw_change h x p" and ?i = "node_idx h x"
  have wf: "heap_wf h" and ord: "heap_ordered 1 h" using assms(1) by (auto simp: heap_inv_def)
  have i: "1 \<le> ?i" "?i \<le> hp_n h" using heap_nodes_idx [OF wf assms(2)] by auto
  have same: "heap_wf ?h = heap_wf h" "heap_nodes ?h = heap_nodes h" "hp_n ?h = hp_n h"
    "heap_slot ?h j = heap_slot h j" "node_idx ?h = node_idx h"
    "node_priority ?h = (node_priority h)(x := p)" for j
    by (simp_all add: heap_raw_change_def heap_wf_def heap_nodes_def heap_slot_def)
  have ne: "heap_slot h j \<noteq> x" if "1 \<le> j" "j \<le> hp_n h" "j \<noteq> ?i" for j
    using heap_wf_slot [OF wf that(1,2)] that(3) by auto
  have P: "slot_pri h j \<le> slot_pri h (j div 2)" if "2 \<le> j" "j \<le> hp_n h" for j
    using ord that by (auto simp: heap_ordered_def)
  have "heap_hole 1 ?h ?i"
    unfolding heap_hole_def
  proof (intro conjI ballI impI)
    fix j assume j: "j \<in> {2..hp_n ?h}" "j \<noteq> ?i" "j div 2 \<noteq> ?i"
    then have "2 \<le> j" "j \<le> hp_n h" "1 \<le> j div 2" "j div 2 \<le> hp_n h" by (auto simp: same)
    with j show "slot_pri ?h j \<le> slot_pri ?h (j div 2)"
      using P [of j] ne [of j] ne [of "j div 2"] by (simp add: same)
  next
    fix j assume j: "j \<in> {2..hp_n ?h}" "j div 2 = ?i" "2 \<le> ?i"
    then have b: "j \<noteq> ?i" "?i div 2 \<noteq> ?i" "1 \<le> ?i div 2" "?i div 2 \<le> hp_n h" "2 \<le> j" "j \<le> hp_n h"
      using i by (auto simp: same)
    have "slot_pri h j \<le> slot_pri h (?i div 2)"
      using P [OF b(5,6)] P [of ?i] i j by simp
    with b i show "slot_pri ?h j \<le> slot_pri ?h (?i div 2)"
      using ne [of j] ne [of "?i div 2"] by (simp add: same)
  qed
  then show "heap_inv (heap_change h x p)"
    and "heap_nodes (heap_change h x p) = heap_nodes h"
    and "node_priority (heap_change h x p) = (node_priority h)(x := p)"
    using float_up_or_down_correct [of ?h ?i] wf i
    by (auto simp: heap_change_def heap_inv_def heap_frame_def Let_def same)
qed

lemma heap_max_correct:
  assumes "heap_inv h" "heap_nodes h \<noteq> {}"
  shows "heap_max h \<in> heap_nodes h"
    and "x \<in> heap_nodes h \<Longrightarrow> node_priority h x \<le> node_priority h (heap_max h)"
proof -
  have n: "1 \<le> hp_n h" using assms(2) by (auto simp: heap_nodes_def)
  then show "heap_max h \<in> heap_nodes h" by (simp add: heap_max_def heap_slot_in_nodes)
  have "1 \<le> i \<Longrightarrow> i \<le> hp_n h \<Longrightarrow> slot_pri h i \<le> slot_pri h 1" for i
  proof (induction i rule: less_induct)
    case (less i)
    show ?case
    proof (cases "i = 1")
      case False
      with less.prems have "slot_pri h i \<le> slot_pri h (i div 2)"
        using assms(1) by (auto simp: heap_inv_def heap_ordered_def)
      also have "\<dots> \<le> slot_pri h 1" using less.IH [of "i div 2"] less.prems False by auto
      finally show ?thesis .
    qed simp
  qed
  then show "x \<in> heap_nodes h \<Longrightarrow> node_priority h x \<le> node_priority h (heap_max h)"
    by (auto simp: heap_nodes_def heap_max_def)
qed

lemma heap_rebuild_from_correct:
  assumes "heap_wf h" "heap_ordered (Suc k) h" "k \<le> hp_n h"
  shows "heap_frame h (heap_rebuild_from h k) \<and> heap_ordered 1 (heap_rebuild_from h k)"
  using assms
proof (induction k arbitrary: h)
  case 0
  then show ?case by (auto simp: heap_frame_def)
next
  case (Suc k)
  let ?h = "float_down h (Suc k)"
  have f: "heap_frame h ?h" using Suc.prems by (intro float_down_frame) auto
  have "heap_hole (Suc k) h (Suc k)" "parent_ok (Suc k) h (Suc k)"
    using Suc.prems by (auto simp: heap_hole_def heap_ordered_def parent_ok_def)
  then have "heap_ordered (Suc k) ?h" by (intro float_down_ordered) auto
  with Suc f have "heap_frame ?h (heap_rebuild_from ?h k) \<and> heap_ordered 1 (heap_rebuild_from ?h k)"
    by (auto simp: heap_frame_def)
  with f show ?case by (auto intro: heap_frame_trans)
qed

lemma heap_rebuild_correct:
  assumes "heap_wf h"
  shows "heap_frame h (heap_rebuild h) \<and> heap_ordered 1 (heap_rebuild h)"
  unfolding heap_rebuild_def
proof (rule heap_rebuild_from_correct [OF assms])
  show "heap_ordered (Suc (hp_n h div 2)) h"
    by (auto simp: heap_ordered_def)
qed simp

lemma heap_pop_correct:
  assumes "heap_inv h" "heap_nodes h \<noteq> {}"
  shows "heap_inv (fst (heap_pop h)) \<and> heap_nodes (fst (heap_pop h)) = heap_nodes h - {snd (heap_pop h)}
    \<and> snd (heap_pop h) \<in> heap_nodes h \<and> node_priority (fst (heap_pop h)) = node_priority h"
proof -
  have wf: "heap_wf h" and n: "1 \<le> hp_n h"
    using assms by (auto simp: heap_inv_def heap_nodes_def)
  let ?x = "heap_slot h (hp_n h)"
  have "node_idx h ?x = hp_n h" using heap_wf_slot [OF wf n] by simp
  then have "fst (heap_pop h) = heap_raw_remove h ?x"
    by (simp add: heap_pop_def heap_raw_remove_def)
  moreover have "heap_ordered 1 (fst (heap_pop h))"
    using assms(1) by (auto simp: heap_pop_def heap_ordered_def heap_inv_def heap_slot_def)
  ultimately show ?thesis
    using heap_raw_remove_wf [OF wf, of ?x] heap_raw_remove_nodes [OF wf, of ?x]
      heap_slot_in_nodes [OF n order_refl] heap_raw_remove_simps(3) [of h ?x]
    by (simp add: heap_inv_def) (simp add: heap_pop_def)
qed


subsection \<open>The interface a client relies on\<close>

text \<open>
  \<open>max_queue\<close> is what \<open>heap.h\<close> promises: a set of nodes with priorities, changed by
  insert, remove and change, and a top node that is a maximum. The client lemmas are for
  the use \<open>lib/mac-learning.c\<close> makes of it: the priority of a node counts how many
  users it has, a node enters the queue with its first user and leaves with its last.
\<close>

locale max_queue =
  fixes ins :: "'q \<Rightarrow> 'x \<Rightarrow> u64 \<Rightarrow> 'q"
    and del :: "'q \<Rightarrow> 'x \<Rightarrow> 'q"
    and chg :: "'q \<Rightarrow> 'x \<Rightarrow> u64 \<Rightarrow> 'q"
    and top :: "'q \<Rightarrow> 'x"
    and members :: "'q \<Rightarrow> 'x set"
    and prio :: "'q \<Rightarrow> 'x \<Rightarrow> u64"
    and ok :: "'q \<Rightarrow> bool"
  assumes ins: "ok q \<Longrightarrow> x \<notin> members q \<Longrightarrow>
      ok (ins q x p) \<and> members (ins q x p) = insert x (members q) \<and> prio (ins q x p) = (prio q)(x := p)"
    and del: "ok q \<Longrightarrow> x \<in> members q \<Longrightarrow>
      ok (del q x) \<and> members (del q x) = members q - {x} \<and> prio (del q x) = prio q"
    and chg: "ok q \<Longrightarrow> x \<in> members q \<Longrightarrow>
      ok (chg q x p) \<and> members (chg q x p) = members q \<and> prio (chg q x p) = (prio q)(x := p)"
    and top_in: "ok q \<Longrightarrow> members q \<noteq> {} \<Longrightarrow> top q \<in> members q"
    and top_max: "ok q \<Longrightarrow> x \<in> members q \<Longrightarrow> prio q x \<le> prio q (top q)"
begin

definition counts :: "'q \<Rightarrow> ('x \<Rightarrow> nat) \<Rightarrow> bool" where
  "counts q c \<longleftrightarrow> ok q \<and> members q = {x. 0 < c x} \<and> (\<forall>x. 0 < c x \<longrightarrow> unat (prio q x) = c x)"

lemma counts_first: "counts q c \<Longrightarrow> c x = 0 \<Longrightarrow> counts (ins q x 1) (c(x := 1))"
  using ins [of q x 1] by (auto simp: counts_def)

lemma counts_more:
  assumes "counts q c" "0 < c x" "Suc (c x) < 2 ^ 64"
  shows "counts (chg q x (prio q x + 1)) (c(x := Suc (c x)))"
proof -
  have "unat (prio q x + 1) = Suc (c x)"
    using assms by (simp add: counts_def unat_word_ariths)
  with assms chg [of q x] show ?thesis by (auto simp: counts_def)
qed

lemma counts_fewer:
  assumes "counts q c" "1 < c x"
  shows "counts (chg q x (prio q x - 1)) (c(x := c x - 1))"
proof -
  have "1 \<le> prio q x" using assms by (simp add: counts_def word_le_nat_alt)
  then have "unat (prio q x - 1) = c x - 1"
    using assms by (simp add: counts_def unat_sub)
  with assms chg [of q x] show ?thesis by (auto simp: counts_def)
qed

lemma counts_last: "counts q c \<Longrightarrow> c x = 1 \<Longrightarrow> counts (del q x) (c(x := 0))"
  using del [of q x] by (auto simp: counts_def)

lemma counts_prio: "counts q c \<Longrightarrow> 0 < c x \<Longrightarrow> unat (prio q x) = c x"
  by (simp add: counts_def)

lemma counts_top:
  assumes "counts q c" "0 < c x"
  shows "0 < c (top q)" and "c y \<le> c (top q)"
proof -
  have "top q \<in> members q" using assms top_in [of q] by (auto simp: counts_def)
  then show pos: "0 < c (top q)" using assms by (simp add: counts_def)
  show "c y \<le> c (top q)"
  proof (cases "0 < c y")
    case True
    with assms top_max [of q y] have "prio q y \<le> prio q (top q)" by (simp add: counts_def)
    with True pos assms show ?thesis by (simp add: counts_def word_le_nat_alt)
  qed simp
qed

end

interpretation hq: max_queue heap_insert heap_remove heap_change heap_max heap_nodes
  node_priority heap_inv
proof (unfold_locales, goal_cases)
  case (1 q x p)
  then show ?case by (simp add: heap_insert_correct)
next
  case (2 q x)
  then show ?case by (simp add: heap_remove_correct)
next
  case (3 q x p)
  then show ?case by (simp add: heap_change_correct)
next
  case (4 q)
  then show ?case by (rule heap_max_correct(1))
next
  case (5 q x)
  then show ?case by (auto intro: heap_max_correct(2))
qed

subsection \<open>Refinement of a finite map\<close>

datatype 'x heap_call = Insert 'x u64 | Remove 'x | Change 'x u64 | Rebuild

fun heap_step :: "'x heap \<Rightarrow> 'x heap_call \<Rightarrow> 'x heap" where
  "heap_step h (Insert x p) = heap_insert h x p"
| "heap_step h (Remove x) = heap_remove h x"
| "heap_step h (Change x p) = heap_change h x p"
| "heap_step h Rebuild = heap_rebuild h"

fun heap_legal :: "'x heap \<Rightarrow> 'x heap_call \<Rightarrow> bool" where
  "heap_legal h (Insert x p) = (x \<notin> heap_nodes h)"
| "heap_legal h (Remove x) = (x \<in> heap_nodes h)"
| "heap_legal h (Change x p) = (x \<in> heap_nodes h)"
| "heap_legal h Rebuild = True"

fun queue_spec :: "('x \<rightharpoonup> u64) \<Rightarrow> 'x heap_call \<Rightarrow> ('x \<rightharpoonup> u64)" where
  "queue_spec m (Insert x p) = m(x \<mapsto> p)"
| "queue_spec m (Remove x) = m(x := None)"
| "queue_spec m (Change x p) = m(x \<mapsto> p)"
| "queue_spec m Rebuild = m"

definition heap_abs :: "'x heap \<Rightarrow> ('x \<rightharpoonup> u64)" where
  "heap_abs h = (\<lambda>x. if x \<in> heap_nodes h then Some (node_priority h x) else None)"

lemma heap_step_refines:
  assumes "heap_inv h" "heap_legal h c"
  shows "heap_inv (heap_step h c) \<and> heap_abs (heap_step h c) = queue_spec (heap_abs h) c"
proof (cases c)
  case (Insert x p)
  with assms heap_insert_correct [of h x p] show ?thesis by (simp add: heap_abs_def fun_eq_iff)
next
  case (Remove x)
  with assms heap_remove_correct [of h x] show ?thesis by (simp add: heap_abs_def fun_eq_iff)
next
  case (Change x p)
  with assms heap_change_correct [of h x p] show ?thesis by (simp add: heap_abs_def fun_eq_iff)
next
  case Rebuild
  with assms heap_rebuild_correct [of h] show ?thesis
    by (simp add: heap_inv_def heap_frame_def heap_abs_def fun_eq_iff)
qed

interpretation hcalls: call_system heap_step heap_legal heap_inv
  using heap_step_refines by unfold_locales blast

lemma heap_run_refines:
  "heap_inv h \<Longrightarrow> legal_calls heap_step heap_legal h cs \<Longrightarrow>
   heap_abs (run_calls heap_step h cs) = run_calls queue_spec (heap_abs h) cs"
  by (induction cs arbitrary: h) (auto simp: heap_step_refines)

lemma heap_init_inv: "heap_inv (heap_init idx pri)"
  by (simp add: heap_inv_def heap_wf_def heap_ordered_def heap_init_def)

lemma heap_init_nodes [simp]: "heap_nodes (heap_init idx pri) = {}"
  by (simp add: heap_init_def heap_nodes_def)


subsection \<open>Properties\<close>

text \<open>C7: Any sequence of heap calls in which only absent nodes are inserted and only
  present nodes are removed or changed leaves the heap with the contents of the finite map
  that the same calls describe, in heap order, with \<open>heap_max\<close> a node of greatest
  priority whenever the heap is not empty.\<close>

theorem heap_refines_map:
  assumes "legal_calls heap_step heap_legal (heap_init idx pri) cs"
  defines "h \<equiv> run_calls heap_step (heap_init idx pri) cs"
  shows "heap_inv h \<and> heap_abs h = run_calls queue_spec Map.empty cs \<and>
    (\<forall>x p. heap_abs h x = Some p \<longrightarrow>
       (\<exists>q. heap_abs h (heap_max h) = Some q \<and> p \<le> q))"
proof (intro conjI allI impI)
  show inv: "heap_inv h"
    unfolding h_def by (rule hcalls.run_inv [OF heap_init_inv assms(1)])
  show "heap_abs h = run_calls queue_spec Map.empty cs"
    unfolding h_def heap_run_refines [OF heap_init_inv assms(1)] by (simp add: heap_abs_def)
  fix x p assume "heap_abs h x = Some p"
  then show "\<exists>q. heap_abs h (heap_max h) = Some q \<and> p \<le> q"
    using hq.top_max [OF inv] hq.top_in [OF inv] by (auto simp: heap_abs_def split: if_splits)
qed

text \<open>The equations that evaluate heap operations on concrete heaps.\<close>

lemmas heap_eval = heap_init_def heap_insert_def heap_raw_insert_def heap_remove_def heap_raw_remove_def
  heap_change_def heap_raw_change_def float_up_or_down_def float_up.simps float_down.simps put_node_def
  swap_nodes_def heap_parent_def heap_left_def heap_right_def heap_is_leaf_def larger_child_def
  heap_slot_def heap_max_def heap_is_empty_def

definition heap_example :: "nat heap_call list" where
  "heap_example = [Insert 1 5, Insert 2 9, Insert 3 7, Change 1 20, Remove 2, Rebuild]"

theorem heap_refines_map_witness:
  "legal_calls heap_step heap_legal (heap_init (\<lambda>_. 0) (\<lambda>_. 0)) heap_example \<and>
   heap_inv (run_calls heap_step (heap_init (\<lambda>_. 0) (\<lambda>_. 0)) heap_example) \<and>
   heap_max (run_calls heap_step (heap_init (\<lambda>_. 0) (\<lambda>_. 0)) heap_example) = 1"
proof -
  have legal: "legal_calls heap_step heap_legal (heap_init (\<lambda>_. 0) (\<lambda>_. 0)) heap_example"
    by code_simp
  moreover have "heap_max (run_calls heap_step (heap_init (\<lambda>_. 0) (\<lambda>_. 0)) heap_example) = 1"
    by code_simp
  ultimately show ?thesis using heap_refines_map [OF legal] by simp
qed

text \<open>C8: \<open>heap_rebuild\<close> turns any heap whose array and back-pointers agree, whatever its
  order, into one in heap order with the same nodes and priorities, so that
  \<open>heap_max\<close> is a maximum again after raw operations.\<close>

theorem heap_rebuild_restores:
  assumes "heap_wf h"
  shows "heap_inv (heap_rebuild h) \<and> heap_abs (heap_rebuild h) = heap_abs h \<and>
    (\<forall>x \<in> heap_nodes h. node_priority h x \<le> node_priority h (heap_max (heap_rebuild h)))"
proof -
  have r: "heap_inv (heap_rebuild h)" "heap_nodes (heap_rebuild h) = heap_nodes h"
    "node_priority (heap_rebuild h) = node_priority h"
    using heap_rebuild_correct [OF assms] by (auto simp: heap_inv_def heap_frame_def)
  with hq.top_max [OF r(1)] show ?thesis by (simp add: heap_abs_def fun_eq_iff)
qed

definition raw_example :: "nat heap" where
  "raw_example =
     heap_raw_change (heap_raw_insert (heap_raw_insert (heap_raw_insert
       (heap_init (\<lambda>_. 0) (\<lambda>_. 0)) 1 3) 2 8) 3 9) 1 1"

theorem heap_rebuild_restores_witness:
  "heap_wf raw_example \<and> \<not> heap_ordered 1 raw_example \<and> heap_inv (heap_rebuild raw_example) \<and>
   heap_max (heap_rebuild raw_example) = 3"
proof -
  have wf: "heap_wf raw_example"
    by (auto simp: heap_wf_def raw_example_def heap_raw_change_def heap_raw_insert_def
        heap_init_def put_node_def numeral_eq_Suc le_Suc_eq)
  have "\<not> heap_ordered 1 raw_example" by code_simp
  moreover have "heap_max (heap_rebuild raw_example) = 3" by code_simp
  ultimately show ?thesis using wf heap_rebuild_restores [OF wf] by simp
qed

end
