(* ===== verification/MacLearning.thy ===== *)
theory MacLearning
  imports Heap "HOL-Library.AList" "HOL-Library.Monad_Syntax"
begin

text \<open>
  The MAC learning table of \<open>lib/mac-learning.c\<close> and \<open>lib/mac-learning.h\<close>.

  A \<open>struct mac_entry\<close> is identified by its key, the pair of address and VLAN, and a
  \<open>struct mac_learning_port\<close> by the client's port pointer, an element of an arbitrary
  type \<open>'p\<close>; a null port pointer is \<open>None\<close>. The hash tables \<open>table\<close> and
  \<open>ports_by_ptr\<close> are association lists, the LRU lists are lists of keys with the least
  recently used first, \<open>ports_by_usage\<close> is the heap of theory \<open>Heap\<close>. The time of
  day (\<open>time_now\<close>) is an argument. \<open>None\<close> as the result of an operation is the abort
  of a failed \<open>ovs_assert\<close> or the use of a null or dangling pointer. Locking and
  reference counting are left out.

  Shown: no sequence of calls aborts; the four structures always agree; learning an address
  makes it found on its port; eviction takes the least recently used entry of a port with the
  most entries and nothing else; the read-locked check and the update agree on when nothing
  has to change; \<open>mac_learning_run\<close> leaves no expired entry and no more than the
  configured number.
\<close>

subsection \<open>Data\<close>

type_synonym mac_key = "eth_addr \<times> u16"

record 'p mac_entry =
  expires :: int
  grat_arp_lock :: int
  entry_mac :: eth_addr
  entry_vlan :: u16
  mlport :: "'p option"

record 'p mac_learning =
  ml_table :: "(mac_key \<times> 'p mac_entry) list"
  ml_lrus :: "mac_key list"
  flood_vlans :: "(nat \<Rightarrow> bool) option"
  idle_time :: nat
  max_entries :: nat
  need_revalidate :: bool
  total_learned :: u64
  total_expired :: u64
  total_evicted :: u64
  total_moved :: u64
  ports_by_ptr :: "('p \<times> mac_key list) list"
  ports_by_usage :: "'p heap"

definition MAC_DEFAULT_MAX :: nat where "MAC_DEFAULT_MAX = 8192"
definition MAC_GRAT_ARP_LOCK_TIME :: int where "MAC_GRAT_ARP_LOCK_TIME = 5"
definition TIME_MIN :: int where "TIME_MIN = - (2 ^ 63)"

subsection \<open>Operations\<close>

definition mac_entry_lookup :: "'p mac_learning \<Rightarrow> eth_addr \<Rightarrow> u16 \<Rightarrow> 'p mac_entry option" where
  "mac_entry_lookup ml mac vlan = map_of (ml_table ml) (mac, vlan)"

definition mac_entry_age :: "'p mac_learning \<Rightarrow> 'p mac_entry \<Rightarrow> int \<Rightarrow> int" where
  "mac_entry_age ml e now = (let remaining = expires e - now in int (idle_time ml) - remaining)"

definition mac_learning_port_lookup :: "'p mac_learning \<Rightarrow> 'p \<Rightarrow> mac_key list option" where
  "mac_learning_port_lookup ml port = map_of (ports_by_ptr ml) port"

definition mac_entry_get_port :: "'p mac_entry \<Rightarrow> 'p option" where
  "mac_entry_get_port e = mlport e"

definition mac_entry_set_grat_arp_lock :: "'p mac_entry \<Rightarrow> int \<Rightarrow> 'p mac_entry" where
  "mac_entry_set_grat_arp_lock e now = e\<lparr>grat_arp_lock := now + MAC_GRAT_ARP_LOCK_TIME\<rparr>"

definition mac_entry_is_grat_arp_locked :: "'p mac_entry \<Rightarrow> int \<Rightarrow> bool" where
  "mac_entry_is_grat_arp_locked e now \<longleftrightarrow> now < grat_arp_lock e"

definition put_entry :: "'p mac_learning \<Rightarrow> mac_key \<Rightarrow> 'p mac_entry \<Rightarrow> 'p mac_learning" where
  "put_entry ml k e = ml\<lparr>ml_table := AList.update k e (ml_table ml)\<rparr>"

text \<open>The two halves of \<open>mac_entry_set_port\<close>: taking the entry off its present port, with
  the two assertions on the port's usage count, and putting it on a port.\<close>

definition leave_port :: "'p mac_learning \<Rightarrow> mac_key \<Rightarrow> 'p mac_entry \<Rightarrow> 'p mac_learning option" where
  "leave_port ml k e =
     (case mlport e of
        None \<Rightarrow> Some ml
      | Some q \<Rightarrow> do {
          lrus \<leftarrow> mac_learning_port_lookup ml q;
          let lrus' = remove1 k lrus;
          let heap = ports_by_usage ml;
          let priority = node_priority heap q;
          if lrus' = []
          then if priority = 1
               then Some (put_entry (ml\<lparr>ports_by_ptr := AList.delete q (ports_by_ptr ml),
                                       ports_by_usage := heap_remove heap q\<rparr>)
                            k (e\<lparr>mlport := None\<rparr>))
               else None
          else if priority > 1
               then Some (put_entry (ml\<lparr>ports_by_ptr := AList.update q lrus' (ports_by_ptr ml),
                                       ports_by_usage := heap_change heap q (priority - 1)\<rparr>)
                            k (e\<lparr>mlport := None\<rparr>))
               else None
        })"

definition join_port :: "'p mac_learning \<Rightarrow> mac_key \<Rightarrow> 'p mac_entry \<Rightarrow> 'p \<Rightarrow> 'p mac_learning" where
  "join_port ml k e p =
     (let heap = ports_by_usage ml;
          (lrus, heap') = (case mac_learning_port_lookup ml p of
             None \<Rightarrow> ([], heap_insert heap p 1)
           | Some lrus \<Rightarrow> (lrus, heap_change heap p (node_priority heap p + 1)))
      in put_entry (ml\<lparr>ports_by_ptr := AList.update p (lrus @ [k]) (ports_by_ptr ml),
                      ports_by_usage := heap'\<rparr>)
           k (e\<lparr>mlport := Some p\<rparr>))"

definition mac_entry_set_port ::
    "'p mac_learning \<Rightarrow> mac_key \<Rightarrow> 'p option \<Rightarrow> 'p mac_learning option" where
  "mac_entry_set_port ml k port = do {
     e \<leftarrow> map_of (ml_table ml) k;
     if mac_entry_get_port e \<noteq> port
     then do {
       ml1 \<leftarrow> leave_port (ml\<lparr>need_revalidate := True\<rparr>) k e;
       (case port of
          None \<Rightarrow> Some ml1
        | Some p \<Rightarrow> Some (join_port ml1 k (e\<lparr>mlport := None\<rparr>) p))
     }
     else Some ml
   }"

definition mac_learning_expire :: "'p mac_learning \<Rightarrow> mac_key \<Rightarrow> 'p mac_learning option" where
  "mac_learning_expire ml k = do {
     ml1 \<leftarrow> mac_entry_set_port (ml\<lparr>need_revalidate := True\<rparr>) k None;
     Some (ml1\<lparr>ml_table := AList.delete k (ml_table ml1), ml_lrus := remove1 k (ml_lrus ml1)\<rparr>)
   }"

text \<open>\<open>heap_max\<close> of an empty heap and the front of an empty list are not objects.\<close>

definition evict_mac_entry_fairly :: "'p mac_learning \<Rightarrow> 'p mac_learning option" where
  "evict_mac_entry_fairly ml =
     (if heap_is_empty (ports_by_usage ml) then None
      else do {
        lrus \<leftarrow> mac_learning_port_lookup ml (heap_max (ports_by_usage ml));
        (case lrus of
           [] \<Rightarrow> None
         | k # _ \<Rightarrow> mac_learning_expire (ml\<lparr>total_evicted := total_evicted ml + 1\<rparr>) k)
      })"

definition get_lru :: "'p mac_learning \<Rightarrow> mac_key option" where
  "get_lru ml = (case ml_lrus ml of [] \<Rightarrow> None | k # _ \<Rightarrow> Some k)"

definition normalize_idle_time :: "nat \<Rightarrow> nat" where
  "normalize_idle_time t = (if t < 15 then 15 else if t > 3600 then 3600 else t)"

definition mac_learning_clear_statistics :: "'p mac_learning \<Rightarrow> 'p mac_learning" where
  "mac_learning_clear_statistics ml =
     ml\<lparr>total_learned := 0, total_expired := 0, total_evicted := 0, total_moved := 0\<rparr>"

definition mac_learning_create :: "nat \<Rightarrow> 'p mac_learning" where
  "mac_learning_create t = mac_learning_clear_statistics
     \<lparr>ml_table = [], ml_lrus = [], flood_vlans = None, idle_time = normalize_idle_time t,
      max_entries = MAC_DEFAULT_MAX, need_revalidate = False,
      total_learned = 0, total_expired = 0, total_evicted = 0, total_moved = 0,
      ports_by_ptr = [], ports_by_usage = heap_init (\<lambda>_. 0) (\<lambda>_. 0)\<rparr>"

definition vlan_bitmap_equal :: "(nat \<Rightarrow> bool) option \<Rightarrow> (nat \<Rightarrow> bool) option \<Rightarrow> bool" where
  "vlan_bitmap_equal a b =
     (case (a, b) of
        (None, None) \<Rightarrow> True
      | (Some x, Some y) \<Rightarrow> list_all (\<lambda>v. x v = y v) [0..<4096]
      | _ \<Rightarrow> False)"

definition mac_learning_set_flood_vlans ::
    "'p mac_learning \<Rightarrow> (nat \<Rightarrow> bool) option \<Rightarrow> 'p mac_learning \<times> bool" where
  "mac_learning_set_flood_vlans ml bitmap =
     (if vlan_bitmap_equal (flood_vlans ml) bitmap then (ml, False)
      else (ml\<lparr>flood_vlans := bitmap\<rparr>, True))"

text \<open>The loop over the LRU list adds \<open>delta\<close> to the expiry of every entry on it.\<close>

definition mac_learning_set_idle_time :: "'p mac_learning \<Rightarrow> nat \<Rightarrow> 'p mac_learning" where
  "mac_learning_set_idle_time ml t =
     (let t' = normalize_idle_time t
      in if t' \<noteq> idle_time ml
         then let delta = int t' - int (idle_time ml)
              in ml\<lparr>ml_table := map (\<lambda>(k, e). if k \<in> set (ml_lrus ml)
                                          then (k, e\<lparr>expires := expires e + delta\<rparr>) else (k, e))
                                (ml_table ml),
                    idle_time := t'\<rparr>
         else ml)"

definition mac_learning_set_max_entries :: "'p mac_learning \<Rightarrow> nat \<Rightarrow> 'p mac_learning" where
  "mac_learning_set_max_entries ml n =
     ml\<lparr>max_entries := (if n < 10 then 10 else if n > 1000 * 1000 then 1000 * 1000 else n)\<rparr>"

definition is_learning_vlan :: "'p mac_learning \<Rightarrow> u16 \<Rightarrow> bool" where
  "is_learning_vlan ml vlan =
     (case flood_vlans ml of None \<Rightarrow> True | Some bitmap \<Rightarrow> \<not> bitmap (unat vlan))"

definition mac_learning_may_learn :: "'p mac_learning \<Rightarrow> eth_addr \<Rightarrow> u16 \<Rightarrow> bool" where
  "mac_learning_may_learn ml src_mac vlan \<longleftrightarrow>
     is_learning_vlan ml vlan \<and> \<not> eth_addr_is_multicast src_mac"

text \<open>\<open>mac_learning_insert\<close>: creating the entry if there is none (evicting one first when
  the table is full), then marking it most recently used.\<close>

definition new_mac_entry :: "eth_addr \<Rightarrow> u16 \<Rightarrow> 'p mac_entry" where
  "new_mac_entry mac vlan =
     \<lparr>expires = 0, grat_arp_lock = TIME_MIN, entry_mac = mac, entry_vlan = vlan, mlport = None\<rparr>"

definition find_or_add_entry ::
    "'p mac_learning \<Rightarrow> eth_addr \<Rightarrow> u16 \<Rightarrow> 'p mac_learning option" where
  "find_or_add_entry ml src_mac vlan =
     (case mac_entry_lookup ml src_mac vlan of
        None \<Rightarrow> do {
          ml1 \<leftarrow> (if length (ml_table ml) \<ge> max_entries ml then evict_mac_entry_fairly ml else Some ml);
          Some ((put_entry ml1 (src_mac, vlan) (new_mac_entry src_mac vlan))
                  \<lparr>total_learned := total_learned ml1 + 1\<rparr>)
        }
      | Some e \<Rightarrow> Some (ml\<lparr>ml_lrus := remove1 (src_mac, vlan) (ml_lrus ml)\<rparr>))"

definition mark_recently_used :: "'p mac_learning \<Rightarrow> mac_key \<Rightarrow> int \<Rightarrow> 'p mac_learning option" where
  "mark_recently_used ml k now = do {
     e \<leftarrow> map_of (ml_table ml) k;
     let ml1 = ml\<lparr>ml_lrus := ml_lrus ml @ [k]\<rparr>;
     ml2 \<leftarrow> (case mlport e of
        None \<Rightarrow> Some ml1
      | Some q \<Rightarrow> do {
          lrus \<leftarrow> mac_learning_port_lookup ml1 q;
          Some (ml1\<lparr>ports_by_ptr := AList.update q (remove1 k lrus @ [k]) (ports_by_ptr ml1)\<rparr>)
        });
     Some (put_entry ml2 k (e\<lparr>expires := now + int (idle_time ml2)\<rparr>))
   }"

definition mac_learning_insert ::
    "'p mac_learning \<Rightarrow> eth_addr \<Rightarrow> u16 \<Rightarrow> int \<Rightarrow> 'p mac_learning option" where
  "mac_learning_insert ml src_mac vlan now = do {
     ml1 \<leftarrow> find_or_add_entry ml src_mac vlan;
     mark_recently_used ml1 (src_mac, vlan) now
   }"

text \<open>A lookup returns the entry, if any; the outer \<open>None\<close> is the failed assertion that an
  entry in the table has a port.\<close>

definition mac_learning_lookup ::
    "'p mac_learning \<Rightarrow> eth_addr \<Rightarrow> u16 \<Rightarrow> 'p mac_entry option option" where
  "mac_learning_lookup ml dst vlan =
     (if eth_addr_is_multicast dst then Some None
      else if \<not> is_learning_vlan ml vlan then Some None
      else case mac_entry_lookup ml dst vlan of
             None \<Rightarrow> Some None
           | Some e \<Rightarrow> if mac_entry_get_port e \<noteq> None then Some (Some e) else None)"

definition is_mac_learning_update_needed ::
    "'p mac_learning \<Rightarrow> eth_addr \<Rightarrow> u16 \<Rightarrow> bool \<Rightarrow> bool \<Rightarrow> 'p option \<Rightarrow> int \<Rightarrow> bool option" where
  "is_mac_learning_update_needed ml src vlan is_gratuitous_arp is_bond in_port now =
     (if \<not> mac_learning_may_learn ml src vlan then Some False
      else do {
        mac \<leftarrow> mac_learning_lookup ml src vlan;
        (case mac of
           None \<Rightarrow> Some True
         | Some e \<Rightarrow>
             if mac_entry_age ml e now \<noteq> 0 then Some True
             else if is_gratuitous_arp \<and> \<not> is_bond then Some True
             else if is_gratuitous_arp \<and> mac_entry_is_grat_arp_locked e now then Some False
             else Some (mac_entry_get_port e \<noteq> in_port))
      })"

definition update_learning_table ::
    "'p mac_learning \<Rightarrow> eth_addr \<Rightarrow> u16 \<Rightarrow> bool \<Rightarrow> bool \<Rightarrow> 'p option \<Rightarrow> int \<Rightarrow>
     ('p mac_learning \<times> bool) option" where
  "update_learning_table ml src vlan is_gratuitous_arp is_bond in_port now =
     (if \<not> mac_learning_may_learn ml src vlan then Some (ml, False)
      else do {
        ml1 \<leftarrow> mac_learning_insert ml src vlan now;
        e \<leftarrow> map_of (ml_table ml1) (src, vlan);
        let ml2 = (if is_gratuitous_arp \<and> \<not> is_bond
                   then put_entry ml1 (src, vlan) (mac_entry_set_grat_arp_lock e now) else ml1);
        if is_gratuitous_arp \<and> is_bond \<and> mac_entry_is_grat_arp_locked e now
        then Some (ml2, False)
        else if mac_entry_get_port e \<noteq> in_port
        then do {
          let ml3 = (if mac_entry_get_port e \<noteq> None
                     then ml2\<lparr>total_moved := total_moved ml2 + 1\<rparr> else ml2);
          ml4 \<leftarrow> mac_entry_set_port ml3 (src, vlan) in_port;
          Some (ml4, True)
        }
        else Some (ml2, False)
      })"

definition mac_learning_update ::
    "'p mac_learning \<Rightarrow> eth_addr \<Rightarrow> u16 \<Rightarrow> bool \<Rightarrow> bool \<Rightarrow> 'p option \<Rightarrow> int \<Rightarrow>
     ('p mac_learning \<times> bool) option" where
  "mac_learning_update ml src vlan is_gratuitous_arp is_bond in_port now =
     (if in_port \<noteq> None
      then do {
        need_update \<leftarrow> is_mac_learning_update_needed ml src vlan is_gratuitous_arp is_bond in_port now;
        if need_update
        then update_learning_table ml src vlan is_gratuitous_arp is_bond in_port now
        else Some (ml, False)
      }
      else Some (ml, False))"

subsection \<open>The loops over the LRU list\<close>

lemma leave_port_lrus: "leave_port ml k e = Some ml' \<Longrightarrow> ml_lrus ml' = ml_lrus ml"
  by (auto simp: leave_port_def put_entry_def Let_def bind_eq_Some_conv
      split: option.splits if_splits)

lemma join_port_lrus [simp]: "ml_lrus (join_port ml k e p) = ml_lrus ml"
  by (simp add: join_port_def put_entry_def Let_def split: option.split)

lemma mac_entry_set_port_lrus: "mac_entry_set_port ml k p = Some ml' \<Longrightarrow> ml_lrus ml' = ml_lrus ml"
  by (cases p) (auto simp: mac_entry_set_port_def bind_eq_Some_conv dest: leave_port_lrus
      split: if_splits)

lemma mac_learning_expire_lrus:
  "mac_learning_expire ml k = Some ml' \<Longrightarrow> ml_lrus ml' = remove1 k (ml_lrus ml)"
  by (auto simp: mac_learning_expire_def bind_eq_Some_conv dest: mac_entry_set_port_lrus)

lemma expire_lru_shorter:
  "get_lru ml = Some k \<Longrightarrow> mac_learning_expire ml' k = Some ml'' \<Longrightarrow> ml_lrus ml' = ml_lrus ml \<Longrightarrow>
   length (ml_lrus ml'') < length (ml_lrus ml)"
  by (auto simp: get_lru_def dest!: mac_learning_expire_lrus split: list.splits)

function mac_learning_flush :: "'p mac_learning \<Rightarrow> 'p mac_learning option" where
  "mac_learning_flush ml =
     (case get_lru ml of
        None \<Rightarrow> Some ml
      | Some k \<Rightarrow> (case mac_learning_expire ml k of
                     None \<Rightarrow> None
                   | Some ml' \<Rightarrow> mac_learning_flush ml'))"
  by pat_completeness auto
termination
  by (relation "measure (\<lambda>ml. length (ml_lrus ml))") (auto dest: expire_lru_shorter)

function mac_learning_run_loop :: "'p mac_learning \<Rightarrow> int \<Rightarrow> 'p mac_learning option" where
  "mac_learning_run_loop ml now =
     (case get_lru ml of
        None \<Rightarrow> Some ml
      | Some k \<Rightarrow>
          (case map_of (ml_table ml) k of
             None \<Rightarrow> None
           | Some e \<Rightarrow>
               if length (ml_table ml) > max_entries ml \<or> now \<ge> expires e
               then (case mac_learning_expire (ml\<lparr>total_expired := total_expired ml + 1\<rparr>) k of
                       None \<Rightarrow> None
                     | Some ml' \<Rightarrow> mac_learning_run_loop ml' now)
               else Some ml))"
  by pat_completeness auto
termination
  by (relation "measure (\<lambda>(ml, now). length (ml_lrus ml))") (auto dest: expire_lru_shorter)

declare mac_learning_flush.simps [simp del] mac_learning_run_loop.simps [simp del]

definition mac_learning_run :: "'p mac_learning \<Rightarrow> int \<Rightarrow> ('p mac_learning \<times> bool) option" where
  "mac_learning_run ml now = do {
     ml1 \<leftarrow> mac_learning_run_loop ml now;
     Some (ml1\<lparr>need_revalidate := False\<rparr>, need_revalidate ml1)
   }"

text \<open>When the caller's poll loop should wake up: at once, at a time in milliseconds, or not
  on account of this table.\<close>

datatype wakeup = Immediate | At int | Never

definition mac_learning_wait :: "'p mac_learning \<Rightarrow> wakeup option" where
  "mac_learning_wait ml =
     (if length (ml_table ml) > max_entries ml \<or> need_revalidate ml then Some Immediate
      else case ml_lrus ml of
             [] \<Rightarrow> Some Never
           | k # _ \<Rightarrow> do { e \<leftarrow> map_of (ml_table ml) k; Some (At (expires e * 1000)) })"

subsection \<open>Ports and their counts\<close>

declare map_of_eq_Some_iff [simp del] map_of_eq_None_iff [simp del]
  split_paired_All [simp del] split_paired_Ex [simp del]

definition on_port :: "(mac_key \<rightharpoonup> 'p mac_entry) \<Rightarrow> 'p \<Rightarrow> mac_key set" where
  "on_port m p = {k. \<exists>e. m k = Some e \<and> mlport e = Some p}"

definition plist :: "('p \<times> mac_key list) list \<Rightarrow> 'p \<Rightarrow> mac_key list" where
  "plist P p = (case map_of P p of None \<Rightarrow> [] | Some l \<Rightarrow> l)"

text \<open>The port structures describe the entries: each port's LRU list holds exactly the entries
  on it, ports without entries are not kept, and the heap counts the entries of each port.\<close>

definition ports_ok ::
    "(mac_key \<rightharpoonup> 'p mac_entry) \<Rightarrow> ('p \<times> mac_key list) list \<Rightarrow> 'p heap \<Rightarrow> bool" where
  "ports_ok m P H \<longleftrightarrow> distinct (map fst P) \<and> (\<forall>p. map_of P p \<noteq> Some []) \<and>
     (\<forall>p. distinct (plist P p) \<and> set (plist P p) = on_port m p) \<and>
     hq.counts H (\<lambda>p. length (plist P p))"

lemma plist_update [simp]: "plist (AList.update q l P) = (plist P)(q := l)"
  by (rule ext) (simp add: plist_def update_conv)

lemma plist_delete [simp]: "plist (AList.delete q P) = (plist P)(q := [])"
  by (rule ext) (simp add: plist_def delete_conv restrict_map_def split: option.split)

lemma on_port_update:
  "on_port (m(k \<mapsto> e)) p = (if mlport e = Some p then insert k (on_port m p) else on_port m p - {k})"
  by (auto simp: on_port_def)

lemma ports_ok_set: "ports_ok m P H \<Longrightarrow> set (plist P p) = on_port m p"
  by (simp add: ports_ok_def)

lemma ports_okD:
  assumes "ports_ok m P H" "m k = Some e" "mlport e = Some q"
  shows "map_of P q = Some (plist P q)" "k \<in> set (plist P q)" "distinct (plist P q)"
    "unat (node_priority H q) = length (plist P q)"
proof -
  show k: "k \<in> set (plist P q)" "distinct (plist P q)"
    using assms by (auto simp: ports_ok_def on_port_def)
  then show "map_of P q = Some (plist P q)" by (auto simp: plist_def split: option.splits)
  show "unat (node_priority H q) = length (plist P q)"
    using assms(1) length_pos_if_in_set [OF k(1)] hq.counts_prio [of H "\<lambda>p. length (plist P p)" q]
    by (simp add: ports_ok_def)
qed

lemma on_port_other:
  "m k = Some e \<Longrightarrow> mlport e = Some q \<Longrightarrow> p \<noteq> q \<Longrightarrow> k \<notin> on_port m p"
  by (auto simp: on_port_def)

lemma ports_leave_last:
  assumes P: "ports_ok m P H" and k: "m k = Some e" "mlport e = Some q" and "remove1 k (plist P q) = []"
  shows "node_priority H q = 1"
    "ports_ok (m(k \<mapsto> e\<lparr>mlport := None\<rparr>)) (AList.delete q P) (heap_remove H q)"
proof -
  note d = ports_okD [OF P k]
  have l: "plist P q = [k]" using d assms(4) by (cases "plist P q") (auto split: if_splits)
  then show "node_priority H q = 1" using d by (simp add: word_unat_eq_iff)
  have "hq.counts (heap_remove H q) ((\<lambda>p. length (plist P p))(q := 0))"
    using P l by (intro hq.counts_last) (auto simp: ports_ok_def)
  moreover have "(\<lambda>p. length (plist P p))(q := 0) = (\<lambda>p. length (((plist P)(q := [])) p))"
    by (auto simp: fun_eq_iff)
  moreover have "on_port m q = {k}" using ports_ok_set [OF P, of q] l by simp
  ultimately show "ports_ok (m(k \<mapsto> e\<lparr>mlport := None\<rparr>)) (AList.delete q P) (heap_remove H q)"
    using P on_port_other [of m k e q, OF k]
    by (auto simp: ports_ok_def on_port_update distinct_delete delete_conv')
qed

lemma ports_leave_more:
  assumes P: "ports_ok m P H" and k: "m k = Some e" "mlport e = Some q" and "remove1 k (plist P q) \<noteq> []"
  shows "node_priority H q > 1"
    "ports_ok (m(k \<mapsto> e\<lparr>mlport := None\<rparr>)) (AList.update q (remove1 k (plist P q)) P)
       (heap_change H q (node_priority H q - 1))"
proof -
  note d = ports_okD [OF P k]
  have len: "length (remove1 k (plist P q)) = length (plist P q) - 1"
    using d by (simp add: length_remove1)
  have l: "1 < length (plist P q)"
    using assms(4) len by (cases "length (plist P q)") auto
  then show "node_priority H q > 1" using d by (simp add: word_less_nat_alt)
  have "hq.counts (heap_change H q (node_priority H q - 1))
          ((\<lambda>p. length (plist P p))(q := length (plist P q) - 1))"
    using P l by (intro hq.counts_fewer) (auto simp: ports_ok_def)
  moreover have "(\<lambda>p. length (plist P p))(q := length (plist P q) - 1)
      = (\<lambda>p. length (((plist P)(q := remove1 k (plist P q))) p))"
    using len by (auto simp: fun_eq_iff)
  ultimately show "ports_ok (m(k \<mapsto> e\<lparr>mlport := None\<rparr>)) (AList.update q (remove1 k (plist P q)) P)
       (heap_change H q (node_priority H q - 1))"
    using P assms(4) on_port_other [of m k e q, OF k]
    by (auto simp: ports_ok_def on_port_update distinct_update update_conv)
qed

lemma ports_join:
  assumes P: "ports_ok m P H" and k: "m k = Some e" "mlport e = None"
    and "Suc (length (plist P p)) < 2 ^ 64"
  shows "ports_ok (m(k \<mapsto> e\<lparr>mlport := Some p\<rparr>)) (AList.update p (plist P p @ [k]) P)
           (if map_of P p = None then heap_insert H p 1
            else heap_change H p (node_priority H p + 1))" (is "ports_ok ?m ?P ?H")
proof -
  have k': "k \<notin> on_port m p'" for p' using k by (auto simp: on_port_def)
  have eq: "(\<lambda>p. length (plist P p))(p := Suc (length (plist P p)))
      = (\<lambda>p'. length (((plist P)(p := plist P p @ [k])) p'))"
    by (auto simp: fun_eq_iff)
  have "hq.counts ?H ((\<lambda>p. length (plist P p))(p := Suc (length (plist P p))))"
  proof (cases "map_of P p = None")
    case True
    then show ?thesis
      using P hq.counts_first [of H "\<lambda>p. length (plist P p)" p]
      by (simp add: ports_ok_def plist_def)
  next
    case False
    then have "0 < length (plist P p)" using P by (auto simp: ports_ok_def plist_def)
    then show ?thesis
      using P assms(4) False hq.counts_more [of H "\<lambda>p. length (plist P p)" p]
      by (simp only: ports_ok_def if_False simp_thms)
  qed
  then show ?thesis
    using P k' by (auto simp: ports_ok_def on_port_update distinct_update update_conv eq)
qed

lemma ports_touch:
  assumes P: "ports_ok m P H" and k: "m k = Some e" "mlport e = Some q"
  shows "ports_ok (m(k \<mapsto> e\<lparr>expires := t\<rparr>)) (AList.update q (remove1 k (plist P q) @ [k]) P) H"
proof -
  note d = ports_okD [OF P k]
  have "length (remove1 k (plist P q) @ [k]) = length (plist P q)"
    using d length_pos_if_in_set [OF d(2)] by (simp add: length_remove1)
  then have "(\<lambda>p. length (plist P p)) = (\<lambda>p. length (((plist P)(q := remove1 k (plist P q) @ [k])) p))"
    by (auto simp: fun_eq_iff)
  moreover have "on_port (m(k \<mapsto> e\<lparr>expires := t\<rparr>)) p = on_port m p" for p
    using k by (auto simp: on_port_def)
  moreover have "insert k (on_port m q - {k}) = on_port m q"
    using k by (auto simp: on_port_def)
  ultimately show ?thesis
    using P d by (auto simp: ports_ok_def distinct_update update_conv)
qed

subsection \<open>The invariant of the table\<close>

lemma length_card_dom: "distinct (map fst T) \<Longrightarrow> length T = card (dom (map_of T))"
  by (metis distinct_card dom_map_of_conv_image_fst length_map list.set_map)

lemma length_update_old: "map_of T k = Some e \<Longrightarrow> length (AList.update k v T) = length T"
  by (induction T) (auto split: if_splits)

lemma length_update_new: "map_of T k = None \<Longrightarrow> length (AList.update k v T) = Suc (length T)"
  by (induction T) (auto split: if_splits)

definition entry_expires :: "(mac_key \<rightharpoonup> 'p mac_entry) \<Rightarrow> mac_key \<Rightarrow> int" where
  "entry_expires m k = (case m k of None \<Rightarrow> 0 | Some e \<Rightarrow> expires e)"

definition ml_links :: "'p mac_learning \<Rightarrow> bool" where
  "ml_links ml \<longleftrightarrow> distinct (map fst (ml_table ml)) \<and>
     (\<forall>k e. map_of (ml_table ml) k = Some e \<longrightarrow> (entry_mac e, entry_vlan e) = k) \<and>
     length (ml_table ml) \<le> 1000000 \<and>
     ports_ok (map_of (ml_table ml)) (ports_by_ptr ml) (ports_by_usage ml)"

definition ml_config_ok :: "'p mac_learning \<Rightarrow> bool" where
  "ml_config_ok ml \<longleftrightarrow> 10 \<le> max_entries ml \<and> max_entries ml \<le> 1000000 \<and>
     15 \<le> idle_time ml \<and> idle_time ml \<le> 3600"

text \<open>The LRU list holds every entry once, in order of expiry; each port's own list has the
  same order.\<close>

definition lru_ok :: "'p mac_learning \<Rightarrow> int \<Rightarrow> bool" where
  "lru_ok ml now \<longleftrightarrow> distinct (ml_lrus ml) \<and> set (ml_lrus ml) = dom (map_of (ml_table ml)) \<and>
     sorted_wrt (\<lambda>a b. entry_expires (map_of (ml_table ml)) a \<le> entry_expires (map_of (ml_table ml)) b)
       (ml_lrus ml) \<and>
     (\<forall>k \<in> set (ml_lrus ml). entry_expires (map_of (ml_table ml)) k \<le> now + int (idle_time ml))"

definition order_ok :: "'p mac_learning \<Rightarrow> bool" where
  "order_ok ml \<longleftrightarrow> (\<forall>p. plist (ports_by_ptr ml) p =
     filter (\<lambda>k. k \<in> on_port (map_of (ml_table ml)) p) (ml_lrus ml))"

text \<open>\<open>X\<close> holds the entries that may lack a port: none between calls, the entry just
  inserted inside \<open>update_learning_table__\<close>.\<close>

definition ml_ok :: "mac_key set \<Rightarrow> int \<Rightarrow> 'p mac_learning \<Rightarrow> bool" where
  "ml_ok X now ml \<longleftrightarrow> ml_links ml \<and> ml_config_ok ml \<and> lru_ok ml now \<and> order_ok ml \<and>
     (\<forall>k e. map_of (ml_table ml) k = Some e \<longrightarrow> mlport e = None \<longrightarrow> k \<in> X)"

abbreviation "ml_inv \<equiv> ml_ok {}"

definition same_config :: "'p mac_learning \<Rightarrow> 'p mac_learning \<Rightarrow> bool" where
  "same_config ml ml' \<longleftrightarrow> flood_vlans ml' = flood_vlans ml \<and> idle_time ml' = idle_time ml \<and>
     max_entries ml' = max_entries ml"

text \<open>Setting a port succeeds on consistent links, changes one entry, and moves it between the
  port lists.\<close>

lemma leave_port_ok:
  assumes "ml_links ml" and k: "map_of (ml_table ml) k = Some e"
  shows "\<exists>ml'. leave_port ml k e = Some ml' \<and> ml_links ml' \<and> same_config ml ml' \<and>
    ml_lrus ml' = ml_lrus ml \<and>
    map_of (ml_table ml') = (map_of (ml_table ml))(k \<mapsto> e\<lparr>mlport := None\<rparr>) \<and>
    plist (ports_by_ptr ml') = (\<lambda>p. if mlport e = Some p then remove1 k (plist (ports_by_ptr ml) p)
                                    else plist (ports_by_ptr ml) p)"
proof (cases "mlport e")
  case None
  then have "e\<lparr>mlport := None\<rparr> = e" by simp
  with assms None show ?thesis by (auto simp: leave_port_def same_config_def fun_upd_idem_iff)
next
  case (Some q)
  let ?P = "ports_by_ptr ml" and ?T = "AList.update k (e\<lparr>mlport := None\<rparr>) (ml_table ml)"
  have P: "ports_ok (map_of (ml_table ml)) ?P (ports_by_usage ml)" using assms by (simp add: ml_links_def)
  have T: "distinct (map fst ?T)" using assms by (simp add: ml_links_def distinct_update)
  have "length ?T = length (ml_table ml)" by (rule length_update_old [OF k])
  note T' = this T
  show ?thesis
  proof (cases "remove1 k (plist ?P q) = []")
    case True
    with ports_leave_last [OF P k Some True] ports_okD [OF P k Some] assms Some T' k show ?thesis
      by (auto simp: leave_port_def mac_learning_port_lookup_def put_entry_def ml_links_def
          same_config_def update_conv' fun_eq_iff Let_def)
  next
    case False
    with ports_leave_more [OF P k Some False] ports_okD [OF P k Some] assms Some T' k show ?thesis
      by (auto simp: leave_port_def mac_learning_port_lookup_def put_entry_def ml_links_def
          same_config_def update_conv' fun_eq_iff Let_def)
  qed
qed

lemma plist_length_bound:
  assumes "ml_links ml" shows "length (plist (ports_by_ptr ml) p) \<le> 1000000"
proof -
  have "length (plist (ports_by_ptr ml) p) = card (on_port (map_of (ml_table ml)) p)"
    using assms distinct_card [of "plist (ports_by_ptr ml) p"] by (simp add: ml_links_def ports_ok_def)
  also have "\<dots> \<le> card (dom (map_of (ml_table ml)))"
    by (rule card_mono) (auto simp: finite_dom_map_of on_port_def)
  also have "\<dots> = length (ml_table ml)" using assms by (simp add: ml_links_def length_card_dom)
  finally show ?thesis using assms by (simp add: ml_links_def)
qed

lemma join_port_ok:
  assumes "ml_links ml" and k: "map_of (ml_table ml) k = Some e" "mlport e = None"
  shows "ml_links (join_port ml k e p) \<and> same_config ml (join_port ml k e p) \<and>
    ml_lrus (join_port ml k e p) = ml_lrus ml \<and>
    map_of (ml_table (join_port ml k e p)) = (map_of (ml_table ml))(k \<mapsto> e\<lparr>mlport := Some p\<rparr>) \<and>
    plist (ports_by_ptr (join_port ml k e p)) = (plist (ports_by_ptr ml))(p := plist (ports_by_ptr ml) p @ [k])"
proof -
  let ?P = "ports_by_ptr ml" and ?T = "AList.update k (e\<lparr>mlport := Some p\<rparr>) (ml_table ml)"
  have P: "ports_ok (map_of (ml_table ml)) ?P (ports_by_usage ml)" using assms by (simp add: ml_links_def)
  have T: "distinct (map fst ?T)" using assms by (simp add: ml_links_def distinct_update)
  have len: "length ?T = length (ml_table ml)"
    by (rule length_update_old [OF k(1)])
  have "Suc (length (plist ?P p)) < 2 ^ 64" using plist_length_bound [OF assms(1), of p] by simp
  note j = ports_join [OF P k this]
  show ?thesis
  proof (cases "map_of ?P p")
    case None
    then have "plist ?P p = []" by (simp add: plist_def)
    with None j assms T len k show ?thesis
      by (auto simp: join_port_def mac_learning_port_lookup_def put_entry_def ml_links_def
          same_config_def update_conv' Let_def)
  next
    case (Some l)
    then have "plist ?P p = l" by (simp add: plist_def)
    with Some j assms T len k show ?thesis
      by (auto simp: join_port_def mac_learning_port_lookup_def put_entry_def ml_links_def
          same_config_def update_conv' Let_def)
  qed
qed

lemma mac_entry_set_port_ok:
  assumes "ml_links ml" and k: "map_of (ml_table ml) k = Some e"
  shows "\<exists>ml'. mac_entry_set_port ml k port = Some ml' \<and> ml_links ml' \<and> same_config ml ml' \<and>
    ml_lrus ml' = ml_lrus ml \<and>
    map_of (ml_table ml') = (map_of (ml_table ml))(k \<mapsto> e\<lparr>mlport := port\<rparr>) \<and>
    plist (ports_by_ptr ml') =
      (\<lambda>p. if mlport e = port then plist (ports_by_ptr ml) p
           else if mlport e = Some p then remove1 k (plist (ports_by_ptr ml) p)
           else if port = Some p then plist (ports_by_ptr ml) p @ [k]
           else plist (ports_by_ptr ml) p)"
proof (cases "mlport e = port")
  case True
  then have "e\<lparr>mlport := port\<rparr> = e" by simp
  with assms True show ?thesis
    by (auto simp: mac_entry_set_port_def mac_entry_get_port_def same_config_def fun_upd_idem_iff)
next
  case False
  let ?ml = "ml\<lparr>need_revalidate := True\<rparr>"
  have "ml_links ?ml" "map_of (ml_table ?ml) k = Some e" using assms by (auto simp: ml_links_def)
  from leave_port_ok [OF this] obtain ml1 where ml1: "leave_port ?ml k e = Some ml1" "ml_links ml1"
      "same_config ?ml ml1" "ml_lrus ml1 = ml_lrus ml"
      "map_of (ml_table ml1) = (map_of (ml_table ml))(k \<mapsto> e\<lparr>mlport := None\<rparr>)"
      "plist (ports_by_ptr ml1) = (\<lambda>p. if mlport e = Some p then remove1 k (plist (ports_by_ptr ml) p)
                                    else plist (ports_by_ptr ml) p)"
    by (auto simp: fun_eq_iff)
  show ?thesis
  proof (cases port)
    case None
    with False ml1 k show ?thesis
      by (auto simp: mac_entry_set_port_def mac_entry_get_port_def same_config_def fun_eq_iff)
  next
    case (Some p)
    have "map_of (ml_table ml1) k = Some (e\<lparr>mlport := None\<rparr>)" using ml1 by simp
    from join_port_ok [OF ml1(2) this, of p] Some False ml1 k show ?thesis
      by (auto simp: mac_entry_set_port_def mac_entry_get_port_def same_config_def fun_eq_iff)
  qed
qed

lemma mac_learning_expire_ok:
  assumes L: "ml_links ml" and k: "map_of (ml_table ml) k = Some e"
  shows "\<exists>ml'. mac_learning_expire ml k = Some ml' \<and> ml_links ml' \<and> same_config ml ml' \<and>
    ml_lrus ml' = remove1 k (ml_lrus ml) \<and> map_of (ml_table ml') = (map_of (ml_table ml))(k := None) \<and>
    plist (ports_by_ptr ml') = (\<lambda>p. if mlport e = Some p then remove1 k (plist (ports_by_ptr ml) p)
                                    else plist (ports_by_ptr ml) p)"
proof -
  have "ml_links (ml\<lparr>need_revalidate := True\<rparr>)"
    "map_of (ml_table (ml\<lparr>need_revalidate := True\<rparr>)) k = Some e" using assms by (auto simp: ml_links_def)
  from mac_entry_set_port_ok [OF this, of None] obtain ml1 where
    ml1: "mac_entry_set_port (ml\<lparr>need_revalidate := True\<rparr>) k None = Some ml1" "ml_links ml1"
      "same_config ml ml1" "ml_lrus ml1 = ml_lrus ml"
      "map_of (ml_table ml1) = (map_of (ml_table ml))(k \<mapsto> e\<lparr>mlport := None\<rparr>)"
      "plist (ports_by_ptr ml1) = (\<lambda>p. if mlport e = Some p then remove1 k (plist (ports_by_ptr ml) p)
                                    else plist (ports_by_ptr ml) p)"
    by (auto simp: same_config_def fun_eq_iff)
  let ?m = "(map_of (ml_table ml))(k := None)"
  have "on_port ?m p = on_port (map_of (ml_table ml1)) p" for p by (auto simp: on_port_def ml1(5))
  then have "ports_ok ?m (ports_by_ptr ml1) (ports_by_usage ml1)"
    using ml1(2) by (simp add: ml_links_def ports_ok_def)
  moreover have "map_of (AList.delete k (ml_table ml1)) = ?m" by (simp add: ml1(5) delete_conv')
  moreover have "length (AList.delete k (ml_table ml1)) \<le> length (ml_table ml1)"
    by (rule length_delete_le)
  ultimately show ?thesis
    using ml1 L k
    by (auto simp: mac_learning_expire_def ml_links_def same_config_def distinct_delete)
qed

text \<open>Removing an entry keeps the whole invariant.\<close>

lemma remove1_filter: "distinct xs \<Longrightarrow> remove1 x xs = filter (\<lambda>y. y \<noteq> x) xs"
  by (simp add: distinct_remove1_removeAll removeAll_filter_not_eq) (metis)

lemma order_ok_distinct: "order_ok ml \<Longrightarrow> lru_ok ml now \<Longrightarrow> distinct (plist (ports_by_ptr ml) p)"
  by (simp add: order_ok_def lru_ok_def)

lemma sorted_removed:
  fixes f g :: "'k \<Rightarrow> int"
  assumes "sorted_wrt (\<lambda>a b. f a \<le> f b) xs" "\<And>a. a \<noteq> k \<Longrightarrow> g a = f a"
  shows "sorted_wrt (\<lambda>a b. g a \<le> g b) (filter (\<lambda>y. y \<noteq> k) xs)"
  by (rule sorted_wrt_mono_rel [OF _ sorted_wrt_filter [OF assms(1)]]) (auto simp: assms(2))

lemma ml_ok_remove:
  assumes ok: "ml_ok X now ml" and "ml_links ml'" "same_config ml ml'"
    and lrus: "ml_lrus ml' = remove1 k (ml_lrus ml)"
    and tbl: "map_of (ml_table ml') = (map_of (ml_table ml))(k := None)"
    and k: "map_of (ml_table ml) k = Some e"
    and pl: "plist (ports_by_ptr ml') = (\<lambda>p. if mlport e = Some p then remove1 k (plist (ports_by_ptr ml) p)
                                    else plist (ports_by_ptr ml) p)"
  shows "ml_ok X now ml'"
proof -
  have d: "distinct (ml_lrus ml)" using ok by (simp add: ml_ok_def lru_ok_def)
  have ex: "entry_expires ((map_of (ml_table ml))(k := None)) a = entry_expires (map_of (ml_table ml)) a"
    if "a \<noteq> k" for a using that by (simp add: entry_expires_def)
  have on: "on_port ((map_of (ml_table ml))(k := None)) p = on_port (map_of (ml_table ml)) p - {k}" for p
    by (auto simp: on_port_def)
  have "sorted_wrt (\<lambda>a b. entry_expires (map_of (ml_table ml')) a \<le> entry_expires (map_of (ml_table ml')) b)
      (ml_lrus ml')"
    unfolding lrus tbl remove1_filter [OF d] using ok
    by (intro sorted_removed [where f = "entry_expires (map_of (ml_table ml))"])
      (auto simp: ex ml_ok_def lru_ok_def)
  then have "lru_ok ml' now"
    using ok assms(3) d by (auto simp: ml_ok_def lru_ok_def lrus tbl remove1_filter ex same_config_def)
  moreover have "order_ok ml'"
    unfolding order_ok_def
  proof
    fix p
    have pl': "plist (ports_by_ptr ml) p = filter (\<lambda>k. k \<in> on_port (map_of (ml_table ml)) p) (ml_lrus ml)"
      using ok by (simp add: ml_ok_def order_ok_def)
    have "k \<in> on_port (map_of (ml_table ml)) p \<longleftrightarrow> mlport e = Some p" using k by (auto simp: on_port_def)
    then show "plist (ports_by_ptr ml') p = filter (\<lambda>k. k \<in> on_port (map_of (ml_table ml')) p) (ml_lrus ml')"
      using d by (auto simp: pl pl' lrus tbl on remove1_filter intro: filter_cong)
  qed
  ultimately show ?thesis
    using ok assms(2,3) by (auto simp: ml_ok_def tbl ml_config_ok_def same_config_def split: if_splits)
qed

lemma mac_learning_expire_inv:
  assumes "ml_ok X now ml" "map_of (ml_table ml) k = Some e"
  shows "\<exists>ml'. mac_learning_expire ml k = Some ml' \<and> ml_ok X now ml' \<and> same_config ml ml' \<and>
    ml_lrus ml' = remove1 k (ml_lrus ml) \<and> map_of (ml_table ml') = (map_of (ml_table ml))(k := None)"
proof -
  have "ml_links ml" using assms by (simp add: ml_ok_def)
  from mac_learning_expire_ok [OF this assms(2)] ml_ok_remove [OF assms(1), where k = k] assms(2)
  show ?thesis by blast
qed

lemma ml_inv_port: "ml_inv now ml \<Longrightarrow> map_of (ml_table ml) k = Some e \<Longrightarrow> \<exists>q. mlport e = Some q"
  unfolding ml_ok_def by (metis empty_iff not_None_eq)

lemma ml_ok_stats [simp]:
  "ml_ok X now (ml\<lparr>total_expired := n\<rparr>) = ml_ok X now ml"
  "ml_ok X now (ml\<lparr>total_evicted := n\<rparr>) = ml_ok X now ml"
  "ml_ok X now (ml\<lparr>total_learned := n\<rparr>) = ml_ok X now ml"
  "ml_ok X now (ml\<lparr>total_moved := n\<rparr>) = ml_ok X now ml"
  "ml_ok X now (ml\<lparr>need_revalidate := b\<rparr>) = ml_ok X now ml"
  by (simp_all add: ml_ok_def ml_links_def ml_config_ok_def lru_ok_def order_ok_def)

lemma ml_ok_table:
  assumes "ml_ok X now ml"
  shows "length (ml_table ml) = card (dom (map_of (ml_table ml)))"
    "length (ml_table ml) = length (ml_lrus ml)" "length (ml_table ml) \<le> 1000000"
proof -
  show *: "length (ml_table ml) = card (dom (map_of (ml_table ml)))"
    using assms by (simp add: ml_ok_def ml_links_def length_card_dom)
  show "length (ml_table ml) = length (ml_lrus ml)"
    using assms unfolding * by (auto simp: ml_ok_def lru_ok_def simp flip: distinct_card)
  show "length (ml_table ml) \<le> 1000000" using assms by (simp add: ml_ok_def ml_links_def)
qed

text \<open>The port with the most entries exists when some entry has a port, and its list is not
  empty.\<close>

lemma heap_top_port:
  assumes "ml_links ml" "map_of (ml_table ml) k = Some e" "mlport e = Some q"
  defines "p \<equiv> heap_max (ports_by_usage ml)"
  shows "\<not> heap_is_empty (ports_by_usage ml)"
    "map_of (ports_by_ptr ml) p = Some (plist (ports_by_ptr ml) p)" "plist (ports_by_ptr ml) p \<noteq> []"
    "length (plist (ports_by_ptr ml) p') \<le> length (plist (ports_by_ptr ml) p)"
proof -
  have P: "ports_ok (map_of (ml_table ml)) (ports_by_ptr ml) (ports_by_usage ml)"
    using assms by (simp add: ml_links_def)
  then have c: "hq.counts (ports_by_usage ml) (\<lambda>p. length (plist (ports_by_ptr ml) p))"
    by (simp add: ports_ok_def)
  have pos: "0 < length (plist (ports_by_ptr ml) q)"
    using ports_okD(2) [OF P assms(2,3)] by (rule length_pos_if_in_set)
  then have "q \<in> heap_nodes (ports_by_usage ml)" using c by (simp add: hq.counts_def)
  then show "\<not> heap_is_empty (ports_by_usage ml)" by (auto simp: heap_is_empty_def heap_nodes_def)
  show p: "plist (ports_by_ptr ml) p \<noteq> []" using hq.counts_top(1) [OF c pos] by (auto simp: p_def)
  then show "map_of (ports_by_ptr ml) p = Some (plist (ports_by_ptr ml) p)"
    by (auto simp: plist_def split: option.splits)
  show "length (plist (ports_by_ptr ml) p') \<le> length (plist (ports_by_ptr ml) p)"
    using hq.counts_top(2) [OF c pos] by (simp add: p_def)
qed

lemma evict_mac_entry_fairly_ok:
  assumes ok: "ml_inv now ml" and "ml_table ml \<noteq> []"
  shows "\<exists>ml' k e q. evict_mac_entry_fairly ml = Some ml' \<and> ml_inv now ml' \<and> same_config ml ml' \<and>
    map_of (ml_table ml) k = Some e \<and> mlport e = Some q \<and> k = hd (plist (ports_by_ptr ml) q) \<and>
    (\<forall>p. length (plist (ports_by_ptr ml) p) \<le> length (plist (ports_by_ptr ml) q)) \<and>
    ml_lrus ml' = remove1 k (ml_lrus ml) \<and> map_of (ml_table ml') = (map_of (ml_table ml))(k := None)"
proof -
  obtain k0 e0 rest where "ml_table ml = (k0, e0) # rest"
    using assms(2) by (metis list.exhaust surj_pair)
  then have "map_of (ml_table ml) k0 = Some e0" by simp
  moreover from this obtain q0 where "mlport e0 = Some q0" using ml_inv_port [OF ok] by blast
  ultimately have top: "\<not> heap_is_empty (ports_by_usage ml)"
      "\<And>p'. length (plist (ports_by_ptr ml) p') \<le> length (plist (ports_by_ptr ml) (heap_max (ports_by_usage ml)))"
      "plist (ports_by_ptr ml) (heap_max (ports_by_usage ml)) \<noteq> []"
      "map_of (ports_by_ptr ml) (heap_max (ports_by_usage ml))
         = Some (plist (ports_by_ptr ml) (heap_max (ports_by_usage ml)))"
    using heap_top_port [of ml k0 e0 q0] ok by (auto simp: ml_ok_def)
  define q where "q = heap_max (ports_by_usage ml)"
  obtain k ks where k: "plist (ports_by_ptr ml) q = k # ks" using top(3) by (auto simp: q_def neq_Nil_conv)
  have "ports_ok (map_of (ml_table ml)) (ports_by_ptr ml) (ports_by_usage ml)"
    using ok by (simp add: ml_ok_def ml_links_def)
  then have "set (plist (ports_by_ptr ml) q) = on_port (map_of (ml_table ml)) q" by (rule ports_ok_set)
  then have "k \<in> on_port (map_of (ml_table ml)) q" using k by (metis list.set_intros(1))
  then obtain e where e: "map_of (ml_table ml) k = Some e" "mlport e = Some q" by (auto simp: on_port_def)
  have "ml_inv now (ml\<lparr>total_evicted := total_evicted ml + 1\<rparr>)" using ok by simp
  from mac_learning_expire_inv [OF this, of k e] e top k show ?thesis
    by (fastforce simp: evict_mac_entry_fairly_def mac_learning_port_lookup_def same_config_def
        simp flip: q_def)
qed

text \<open>Making an entry the most recently used one keeps the invariant.\<close>

lemma sorted_appended:
  fixes f g :: "'k \<Rightarrow> int"
  assumes "sorted_wrt (\<lambda>a b. f a \<le> f b) xs" "\<And>a. a \<noteq> k \<Longrightarrow> g a = f a"
    "\<And>a. a \<in> set xs \<Longrightarrow> f a \<le> g k"
  shows "sorted_wrt (\<lambda>a b. g a \<le> g b) (filter (\<lambda>y. y \<noteq> k) xs @ [k])"
  using sorted_removed [OF assms(1,2)] assms(2,3) by (auto simp: sorted_wrt_append)

lemma ml_ok_append:
  assumes ok: "ml_ok X now0 ml" and now: "now0 \<le> now" and L: "ml_links ml'" and C: "same_config ml ml'"
    and lrus: "ml_lrus ml' = filter (\<lambda>y. y \<noteq> k) (ml_lrus ml) @ [k]"
    and tbl: "map_of (ml_table ml') = (map_of (ml_table ml))(k \<mapsto> e)"
    and e: "expires e = now + int (idle_time ml)"
    and old: "\<And>p. mlport e = Some p \<longleftrightarrow> k \<in> on_port (map_of (ml_table ml)) p"
    and pl: "\<And>p. plist (ports_by_ptr ml') p =
       (if mlport e = Some p then filter (\<lambda>y. y \<noteq> k) (plist (ports_by_ptr ml) p) @ [k]
        else plist (ports_by_ptr ml) p)"
    and X: "X \<subseteq> X'" "mlport e = None \<longrightarrow> k \<in> X'"
  shows "ml_ok X' now ml'"
proof -
  let ?m = "map_of (ml_table ml)" and ?m' = "map_of (ml_table ml')"
  have o: "lru_ok ml now0" "order_ok ml" using ok by (auto simp: ml_ok_def)
  have ex: "entry_expires ?m' a = entry_expires ?m a" if "a \<noteq> k" for a
    using that by (simp add: tbl entry_expires_def)
  have le: "entry_expires ?m a \<le> now + int (idle_time ml)" if "a \<in> set (ml_lrus ml)" for a
    using o(1) now that unfolding lru_ok_def by force
  have exk: "entry_expires ?m' k = now + int (idle_time ml)" by (simp add: tbl entry_expires_def e)
  have "sorted_wrt (\<lambda>a b. entry_expires ?m' a \<le> entry_expires ?m' b) (ml_lrus ml')"
    unfolding lrus using o(1)
    by (intro sorted_appended [where f = "entry_expires ?m"]) (simp_all add: ex exk le lru_ok_def)
  moreover have "\<forall>a \<in> set (ml_lrus ml'). entry_expires ?m' a \<le> now + int (idle_time ml')"
    using C le by (auto simp: lrus ex exk same_config_def)
  moreover have "set (ml_lrus ml') = dom ?m'" "distinct (ml_lrus ml')"
    using o(1) by (auto simp: lrus tbl lru_ok_def)
  ultimately have "lru_ok ml' now" by (simp add: lru_ok_def)
  moreover have "order_ok ml'"
    unfolding order_ok_def
  proof
    fix p
    have pl': "plist (ports_by_ptr ml) p = filter (\<lambda>k. k \<in> on_port ?m p) (ml_lrus ml)"
      using o(2) by (simp add: order_ok_def)
    have on: "x \<in> on_port ?m' p \<longleftrightarrow> x \<in> on_port ?m p" for x
      using old [of p] by (auto simp: tbl on_port_def split: if_splits)
    show "plist (ports_by_ptr ml') p = filter (\<lambda>k. k \<in> on_port ?m' p) (ml_lrus ml')"
      using old [of p] by (auto simp: pl pl' lrus on conj_commute intro!: filter_cong)
  qed
  ultimately show ?thesis
    using ok L C X by (auto simp: ml_ok_def tbl ml_config_ok_def same_config_def split: if_splits)
qed

lemma mark_new_ok:
  assumes ok: "ml_inv now0 ml" and "now0 \<le> now" and new: "map_of (ml_table ml) (mac, vlan) = None"
    and room: "length (ml_table ml) < 1000000"
  defines "ml1 \<equiv> (put_entry ml (mac, vlan) (new_mac_entry mac vlan))\<lparr>total_learned := total_learned ml + 1\<rparr>"
    and "e \<equiv> (new_mac_entry mac vlan)\<lparr>expires := now + int (idle_time ml)\<rparr>"
  shows "\<exists>ml2. mark_recently_used ml1 (mac, vlan) now = Some ml2 \<and> ml_ok {(mac, vlan)} now ml2 \<and>
    same_config ml ml2 \<and> map_of (ml_table ml2) = (map_of (ml_table ml))((mac, vlan) \<mapsto> e) \<and>
    ml_lrus ml2 = ml_lrus ml @ [(mac, vlan)]"
proof -
  let ?k = "(mac, vlan)"
  define ml2 where "ml2 = put_entry (ml1\<lparr>ml_lrus := ml_lrus ml @ [?k]\<rparr>) ?k e"
  have eq: "mark_recently_used ml1 ?k now = Some ml2"
    by (simp add: mark_recently_used_def ml1_def put_entry_def update_conv' new_mac_entry_def ml2_def e_def)
  have tbl: "map_of (ml_table ml2) = (map_of (ml_table ml))(?k \<mapsto> e)"
    by (simp add: ml2_def ml1_def put_entry_def update_conv')
  have on: "on_port ((map_of (ml_table ml))(?k \<mapsto> e)) p = on_port (map_of (ml_table ml)) p" for p
    using new by (auto simp: on_port_def e_def new_mac_entry_def)
  have len: "length (ml_table ml2) = Suc (length (ml_table ml))"
    using length_update_new [OF new]
    by (simp add: ml2_def ml1_def put_entry_def length_update_old [where e = "new_mac_entry mac vlan"]
        update_conv')
  have L: "ml_links ml2"
    using ok room len
    by (auto simp: ml_ok_def ml_links_def tbl ports_ok_def on split: if_splits)
      (auto simp: ml2_def ml1_def put_entry_def distinct_update e_def new_mac_entry_def)
  have notin: "?k \<notin> set (ml_lrus ml)" using ok new by (auto simp: ml_ok_def lru_ok_def)
  then have lrus: "ml_lrus ml2 = filter (\<lambda>y. y \<noteq> ?k) (ml_lrus ml) @ [?k]"
    by (auto simp: ml2_def ml1_def put_entry_def intro!: filter_True [symmetric])
  have "ml_ok {?k} now ml2"
    by (rule ml_ok_append [OF ok assms(2) L _ lrus tbl])
      (use new in \<open>auto simp: same_config_def ml2_def ml1_def put_entry_def e_def new_mac_entry_def on_port_def\<close>)
  moreover have "ml_lrus ml2 = ml_lrus ml @ [?k]" "same_config ml ml2"
    by (simp_all add: same_config_def ml2_def ml1_def put_entry_def)
  ultimately show ?thesis using eq tbl by blast
qed

lemma mark_old_ok:
  assumes ok: "ml_inv now0 ml" and "now0 \<le> now" and old: "map_of (ml_table ml) k = Some e"
  defines "ml1 \<equiv> ml\<lparr>ml_lrus := remove1 k (ml_lrus ml)\<rparr>"
  shows "\<exists>ml2. mark_recently_used ml1 k now = Some ml2 \<and> ml_inv now ml2 \<and> same_config ml ml2 \<and>
    map_of (ml_table ml2) = (map_of (ml_table ml))(k \<mapsto> e\<lparr>expires := now + int (idle_time ml)\<rparr>) \<and>
    ml_lrus ml2 = filter (\<lambda>y. y \<noteq> k) (ml_lrus ml) @ [k]"
proof -
  obtain q where q: "mlport e = Some q" using ml_inv_port [OF ok old] by blast
  let ?P = "ports_by_ptr ml" and ?e = "e\<lparr>expires := now + int (idle_time ml)\<rparr>"
  have L: "ml_links ml" using ok by (simp add: ml_ok_def)
  then have P: "ports_ok (map_of (ml_table ml)) ?P (ports_by_usage ml)" by (simp add: ml_links_def)
  note d = ports_okD [OF P old q]
  define ml2 where "ml2 = put_entry (ml1\<lparr>ml_lrus := remove1 k (ml_lrus ml) @ [k],
    ports_by_ptr := AList.update q (remove1 k (plist ?P q) @ [k]) ?P\<rparr>) k ?e"
  have eq: "mark_recently_used ml1 k now = Some ml2"
    using q old d(1)
    by (simp add: mark_recently_used_def ml1_def mac_learning_port_lookup_def ml2_def put_entry_def)
  have tbl: "map_of (ml_table ml2) = (map_of (ml_table ml))(k \<mapsto> ?e)"
    by (simp add: ml2_def ml1_def put_entry_def update_conv')
  have L2: "ml_links ml2"
    using L ports_touch [OF P old q, of "now + int (idle_time ml)"] old
    by (auto simp: ml_links_def tbl split: if_splits)
      (auto simp: ml2_def ml1_def put_entry_def distinct_update length_update_old [OF old])
  have "distinct (ml_lrus ml)" using ok by (simp add: ml_ok_def lru_ok_def)
  then have lrus: "ml_lrus ml2 = filter (\<lambda>y. y \<noteq> k) (ml_lrus ml) @ [k]"
    by (simp add: ml2_def ml1_def put_entry_def remove1_filter)
  have "ml_inv now ml2"
    by (rule ml_ok_append [OF ok assms(2) L2 _ lrus tbl])
      (use old q d in \<open>auto simp: same_config_def ml2_def ml1_def put_entry_def on_port_def remove1_filter\<close>)
  with eq tbl lrus show ?thesis by (auto simp: same_config_def ml2_def ml1_def put_entry_def)
qed

lemma mac_entry_set_port_inv:
  assumes ok: "ml_ok {k} now ml" and k: "map_of (ml_table ml) k = Some e" and last: "ml_lrus ml = ys @ [k]"
  shows "\<exists>ml'. mac_entry_set_port ml k (Some p) = Some ml' \<and> ml_inv now ml' \<and> same_config ml ml' \<and>
    map_of (ml_table ml') = (map_of (ml_table ml))(k \<mapsto> e\<lparr>mlport := Some p\<rparr>)"
proof -
  have "ml_links ml" using ok by (simp add: ml_ok_def)
  from mac_entry_set_port_ok [OF this k, of "Some p"] obtain ml' where
    ml': "mac_entry_set_port ml k (Some p) = Some ml'" "ml_links ml'" "same_config ml ml'"
      "ml_lrus ml' = ml_lrus ml"
    and tbl: "map_of (ml_table ml') = (map_of (ml_table ml))(k \<mapsto> e\<lparr>mlport := Some p\<rparr>)"
    and pl: "plist (ports_by_ptr ml') =
      (\<lambda>p'. if mlport e = Some p then plist (ports_by_ptr ml) p'
           else if mlport e = Some p' then remove1 k (plist (ports_by_ptr ml) p')
           else if Some p = Some p' then plist (ports_by_ptr ml) p' @ [k]
           else plist (ports_by_ptr ml) p')"
    by blast
  let ?m = "map_of (ml_table ml)" and ?m' = "map_of (ml_table ml')"
  have o: "lru_ok ml now" "order_ok ml" using ok by (auto simp: ml_ok_def)
  then have d: "k \<notin> set ys" "distinct ys" by (auto simp: lru_ok_def last)
  have "entry_expires ?m' a = entry_expires ?m a" for a
    using k by (simp add: entry_expires_def tbl)
  moreover have "dom ?m' = dom ?m" using k by (auto simp: tbl)
  ultimately have "lru_ok ml' now" using o(1) ml'(3,4) by (simp add: lru_ok_def same_config_def)
  moreover have "order_ok ml'"
    unfolding order_ok_def
  proof
    fix p'
    have pl': "plist (ports_by_ptr ml) p' = filter (\<lambda>k. k \<in> on_port ?m p') ys @
        (if mlport e = Some p' then [k] else [])"
      using o(2) k by (auto simp: order_ok_def last on_port_def)
    have "filter (\<lambda>k. k \<in> on_port ?m' p') ys = filter (\<lambda>k. k \<in> on_port ?m p') ys"
      using d by (intro filter_cong) (auto simp: on_port_def tbl split: if_splits)
    moreover have "k \<in> on_port ?m' p' \<longleftrightarrow> p' = p" by (auto simp: on_port_def tbl)
    ultimately show "plist (ports_by_ptr ml') p' = filter (\<lambda>k. k \<in> on_port ?m' p') (ml_lrus ml')"
      using d by (auto simp: pl pl' ml'(4) last remove1_append)
  qed
  ultimately have "ml_inv now ml'"
    using ok ml'(2,3) by (auto simp: ml_ok_def tbl ml_config_ok_def same_config_def split: if_splits)
  with ml' tbl show ?thesis by blast
qed

lemma ml_ok_lock:
  assumes ok: "ml_ok X now ml" and k: "map_of (ml_table ml) k = Some e"
  shows "ml_ok X now (put_entry ml k (mac_entry_set_grat_arp_lock e t))"
proof -
  define e' where "e' = mac_entry_set_grat_arp_lock e t"
  have e': "mlport e' = mlport e" "expires e' = expires e" "entry_mac e' = entry_mac e"
    "entry_vlan e' = entry_vlan e" by (simp_all add: e'_def mac_entry_set_grat_arp_lock_def)
  let ?ml = "put_entry ml k e'"
  have tbl: "map_of (ml_table ?ml) = (map_of (ml_table ml))(k \<mapsto> e')"
    by (simp add: put_entry_def update_conv')
  have on: "on_port (map_of (ml_table ?ml)) p = on_port (map_of (ml_table ml)) p" for p
    using k by (auto simp: on_port_def tbl e')
  have ex: "entry_expires (map_of (ml_table ?ml)) a = entry_expires (map_of (ml_table ml)) a" for a
    using k by (simp add: entry_expires_def tbl e')
  have dom: "dom (map_of (ml_table ?ml)) = dom (map_of (ml_table ml))" using k by (auto simp: tbl)
  have rest: "ml_lrus ?ml = ml_lrus ml" "ports_by_ptr ?ml = ports_by_ptr ml"
    "ports_by_usage ?ml = ports_by_usage ml" "idle_time ?ml = idle_time ml" "max_entries ?ml = max_entries ml"
    "length (ml_table ?ml) = length (ml_table ml)"
    by (simp_all add: put_entry_def length_update_old [OF k])
  have "ml_links ?ml"
    using ok k unfolding ml_ok_def ml_links_def ports_ok_def on rest
    by (auto simp: tbl e') (auto simp: put_entry_def distinct_update)
  moreover have "\<forall>a f. map_of (ml_table ?ml) a = Some f \<longrightarrow> mlport f = None \<longrightarrow> a \<in> X"
    using ok k by (auto simp: tbl ml_ok_def e')
  ultimately show ?thesis
    using ok unfolding e'_def [symmetric] ml_ok_def ml_config_ok_def lru_ok_def order_ok_def on ex dom rest by blast
qed

subsection \<open>What learning does\<close>

text \<open>The entry that may be evicted: it sits on a port with the most entries and is the least
  recently used one there.\<close>

definition fair_victim :: "'p mac_learning \<Rightarrow> mac_key \<Rightarrow> bool" where
  "fair_victim ml v \<longleftrightarrow> (\<exists>q.
     (\<forall>p. card (on_port (map_of (ml_table ml)) p) \<le> card (on_port (map_of (ml_table ml)) q)) \<and>
     (\<exists>ks. filter (\<lambda>k. k \<in> on_port (map_of (ml_table ml)) q) (ml_lrus ml) = v # ks))"

lemma fair_victim_in: "fair_victim ml v \<Longrightarrow> \<exists>e. map_of (ml_table ml) v = Some e"
proof -
  assume "fair_victim ml v"
  then obtain q ks where "filter (\<lambda>k. k \<in> on_port (map_of (ml_table ml)) q) (ml_lrus ml) = v # ks"
    by (auto simp: fair_victim_def)
  then have "v \<in> set (filter (\<lambda>k. k \<in> on_port (map_of (ml_table ml)) q) (ml_lrus ml))" by simp
  then show ?thesis by (auto simp: on_port_def)
qed

lemma plist_card: "ml_ok X now ml \<Longrightarrow> length (plist (ports_by_ptr ml) p) = card (on_port (map_of (ml_table ml)) p)"
  using distinct_card [of "plist (ports_by_ptr ml) p"] by (simp add: ml_ok_def ml_links_def ports_ok_def)

lemma evict_fair:
  assumes ok: "ml_inv now ml" and "ml_table ml \<noteq> []"
  shows "\<exists>ml' v. evict_mac_entry_fairly ml = Some ml' \<and> fair_victim ml v \<and> ml_inv now ml' \<and>
    same_config ml ml' \<and> map_of (ml_table ml') = (map_of (ml_table ml))(v := None) \<and>
    length (ml_table ml') = length (ml_table ml) - 1"
proof -
  from evict_mac_entry_fairly_ok [OF assms] obtain ml' v e q where
    e: "evict_mac_entry_fairly ml = Some ml'" "ml_inv now ml'" "same_config ml ml'"
      "map_of (ml_table ml) v = Some e" "mlport e = Some q" "v = hd (plist (ports_by_ptr ml) q)"
      "\<forall>p. length (plist (ports_by_ptr ml) p) \<le> length (plist (ports_by_ptr ml) q)"
      "ml_lrus ml' = remove1 v (ml_lrus ml)" "map_of (ml_table ml') = (map_of (ml_table ml))(v := None)"
    by blast
  have "plist (ports_by_ptr ml) q = filter (\<lambda>k. k \<in> on_port (map_of (ml_table ml)) q) (ml_lrus ml)"
    using ok by (simp add: ml_ok_def order_ok_def)
  moreover have "ports_ok (map_of (ml_table ml)) (ports_by_ptr ml) (ports_by_usage ml)"
    using ok by (simp add: ml_ok_def ml_links_def)
  then have "v \<in> set (plist (ports_by_ptr ml) q)" using e(4,5) by (rule ports_okD(2))
  then have "plist (ports_by_ptr ml) q = v # tl (plist (ports_by_ptr ml) q)"
    using e(6) by (cases "plist (ports_by_ptr ml) q") auto
  ultimately have "filter (\<lambda>k. k \<in> on_port (map_of (ml_table ml)) q) (ml_lrus ml)
      = v # tl (plist (ports_by_ptr ml) q)" by simp
  then have "fair_victim ml v"
    using e(7) unfolding fair_victim_def plist_card [OF ok] by blast
  moreover have "length (ml_table ml') = length (ml_table ml) - 1"
    using e(4,9) ml_ok_table(1) [OF ok] ml_ok_table(1) [OF e(2)] by (simp add: card_Diff_singleton domI)
  ultimately show ?thesis using e by blast
qed

text \<open>The entry a learned packet leaves behind.\<close>

definition learned_entry ::
    "'p mac_learning \<Rightarrow> mac_key \<Rightarrow> bool \<Rightarrow> bool \<Rightarrow> 'p \<Rightarrow> int \<Rightarrow> 'p mac_entry" where
  "learned_entry ml k is_gratuitous_arp is_bond p now =
     (let e = (case map_of (ml_table ml) k of Some e \<Rightarrow> e | None \<Rightarrow> new_mac_entry (fst k) (snd k));
          e1 = e\<lparr>expires := now + int (idle_time ml)\<rparr>
      in if is_gratuitous_arp \<and> is_bond \<and> mac_entry_is_grat_arp_locked e now then e1
         else (if is_gratuitous_arp \<and> \<not> is_bond then mac_entry_set_grat_arp_lock e1 now else e1)
                \<lparr>mlport := Some p\<rparr>)"

lemma ml_ok_unexempt:
  assumes ok: "ml_ok {k} now ml" and k: "map_of (ml_table ml) k = Some f" "mlport f \<noteq> None"
  shows "ml_inv now ml"
proof -
  have "mlport e \<noteq> None" if e: "map_of (ml_table ml) k' = Some e" for k' e
  proof
    assume "mlport e = None"
    then have "k' = k" using ok e unfolding ml_ok_def by blast
    with e k \<open>mlport e = None\<close> show False by simp
  qed
  with ok show ?thesis unfolding ml_ok_def by blast
qed

text \<open>The part of \<open>update_learning_table__\<close> after the insertion.\<close>

lemma learn_after_insert:
  assumes ins: "mac_learning_insert ml src vlan now = Some ml1" and ok: "ml_ok X now ml1" and X: "X \<subseteq> {(src, vlan)}"
    and may: "mac_learning_may_learn ml src vlan"
    and tbl: "map_of (ml_table ml1) (src, vlan) = Some e" and last: "ml_lrus ml1 = ys @ [(src, vlan)]"
    and new: "mlport e = None \<Longrightarrow> \<not> mac_entry_is_grat_arp_locked e now"
  shows "\<exists>ml' b. update_learning_table ml src vlan g bo (Some p) now = Some (ml', b) \<and> ml_inv now ml' \<and>
    same_config ml1 ml' \<and> map_of (ml_table ml') = (map_of (ml_table ml1))((src, vlan) \<mapsto>
      (if g \<and> bo \<and> mac_entry_is_grat_arp_locked e now then e
       else (if g \<and> \<not> bo then mac_entry_set_grat_arp_lock e now else e)\<lparr>mlport := Some p\<rparr>)) \<and>
    b = (\<not> (g \<and> bo \<and> mac_entry_is_grat_arp_locked e now) \<and> mlport e \<noteq> Some p)"
proof -
  let ?k = "(src, vlan)"
  have ok1: "ml_ok {?k} now ml1" using ok X by (auto simp: ml_ok_def)
  have ported: "ml_inv now ml" if "ml_ok {?k} now ml" "map_of (ml_table ml) ?k = Some f" "mlport f \<noteq> None"
    for ml :: "'a mac_learning" and f using that by (rule ml_ok_unexempt)
  define e1 where "e1 = (if g \<and> \<not> bo then mac_entry_set_grat_arp_lock e now else e)"
  define ml2 where "ml2 = (if g \<and> \<not> bo then put_entry ml1 ?k (mac_entry_set_grat_arp_lock e now) else ml1)"
  have ml2: "ml_ok {?k} now ml2" "same_config ml1 ml2" "ml_lrus ml2 = ys @ [?k]"
      "map_of (ml_table ml2) = (map_of (ml_table ml1))(?k \<mapsto> e1)"
    using ml_ok_lock [OF ok1 tbl] ok1 last tbl
    by (auto simp: ml2_def e1_def same_config_def put_entry_def update_conv')
  have e1: "mlport e1 = mlport e" by (simp add: e1_def mac_entry_set_grat_arp_lock_def)
  define ml3 where "ml3 = (if mlport e \<noteq> None then ml2\<lparr>total_moved := total_moved ml2 + 1\<rparr> else ml2)"
  have ml3: "ml_ok {?k} now ml3" "map_of (ml_table ml3) ?k = Some e1" "ml_lrus ml3 = ys @ [?k]"
      "same_config ml2 ml3" "map_of (ml_table ml3) = map_of (ml_table ml2)"
    using ml2 by (auto simp: ml3_def same_config_def)
  note sp = mac_entry_set_port_inv [OF ml3(1,2,3), of p]
  have step: "update_learning_table ml src vlan g bo (Some p) now =
      (if g \<and> bo \<and> mac_entry_is_grat_arp_locked e now then Some (ml2, False)
       else if mlport e \<noteq> Some p then map_option (\<lambda>m. (m, True)) (mac_entry_set_port ml3 ?k (Some p))
       else Some (ml2, False))"
    by (simp add: update_learning_table_def Let_def mac_entry_get_port_def ins may tbl ml2_def ml3_def
        map_conv_bind_option comp_def)
  consider (locked) "g \<and> bo \<and> mac_entry_is_grat_arp_locked e now"
    | (same) "\<not> (g \<and> bo \<and> mac_entry_is_grat_arp_locked e now)" "mlport e = Some p"
    | (move) "\<not> (g \<and> bo \<and> mac_entry_is_grat_arp_locked e now)" "mlport e \<noteq> Some p" by blast
  then show ?thesis
  proof cases
    case locked
    then have "mlport e1 \<noteq> None" "e1 = e" using new e1 by (auto simp: e1_def)
    then have "ml_inv now ml2" using ported [OF ml2(1)] ml2(4) by simp
    with locked ml2(2,4) \<open>e1 = e\<close> show ?thesis
      unfolding step by (intro exI [of _ ml2] exI [of _ False]) simp
  next
    case same
    then have "ml_inv now ml2" using ported [OF ml2(1), of e1] ml2(4) e1 by simp
    moreover have "e1\<lparr>mlport := Some p\<rparr> = e1" using e1 same(2) by simp
    ultimately show ?thesis
      using same ml2(2,4)
      by (intro exI [of _ ml2] exI [of _ False]) (simp only: step e1_def [symmetric] if_False simp_thms)
  next
    case move
    from sp obtain ml' where ml': "mac_entry_set_port ml3 ?k (Some p) = Some ml'" "ml_inv now ml'"
        "same_config ml3 ml'" "map_of (ml_table ml') = (map_of (ml_table ml3))(?k \<mapsto> e1\<lparr>mlport := Some p\<rparr>)"
      by blast
    have "same_config ml1 ml'" using ml'(3) ml2(2) ml3(4) by (simp add: same_config_def)
    moreover have "map_of (ml_table ml') = (map_of (ml_table ml1))(?k \<mapsto> e1\<lparr>mlport := Some p\<rparr>)"
      using ml'(4) ml3(5) ml2(4) by simp
    ultimately show ?thesis
      using move ml'(1,2)
      by (intro exI [of _ ml'] exI [of _ True])
        (simp only: step e1_def [symmetric] if_False if_True simp_thms option.map)
  qed
qed

lemma make_room:
  assumes ok: "ml_inv now ml" and new: "map_of (ml_table ml) k = None"
  shows "\<exists>ml1 V. (if length (ml_table ml) \<ge> max_entries ml then evict_mac_entry_fairly ml else Some ml) = Some ml1 \<and>
    ml_inv now ml1 \<and> same_config ml ml1 \<and> map_of (ml_table ml1) = map_of (ml_table ml) |` (- V) \<and>
    length (ml_table ml1) < 1000000 \<and>
    (if length (ml_table ml) \<ge> max_entries ml then \<exists>v. fair_victim ml v \<and> V = {v} else V = {})"
proof (cases "length (ml_table ml) \<ge> max_entries ml")
  case True
  have "10 \<le> max_entries ml" using ok by (simp add: ml_ok_def ml_config_ok_def)
  then have ne: "ml_table ml \<noteq> []" and pos: "0 < length (ml_table ml)" using True by auto
  have restr: "(map_of (ml_table ml))(v := None) = map_of (ml_table ml) |` (- {v})" for v
    by (auto simp: restrict_map_def)
  have "length (ml_table ml) - 1 < 1000000" using ml_ok_table(3) [OF ok] pos by linarith
  moreover from evict_fair [OF ok ne] obtain ml' v where
    "evict_mac_entry_fairly ml = Some ml'" "fair_victim ml v" "ml_inv now ml'" "same_config ml ml'"
    "map_of (ml_table ml') = map_of (ml_table ml) |` (- {v})" "length (ml_table ml') = length (ml_table ml) - 1"
    unfolding restr by blast
  ultimately show ?thesis using True by (intro exI [of _ ml'] exI [of _ "{v}"]) simp
next
  case False
  moreover have "max_entries ml \<le> 1000000" using ok by (simp add: ml_ok_def ml_config_ok_def)
  ultimately show ?thesis using ok by (auto simp: same_config_def)
qed

text \<open>\<open>update_learning_table__\<close> always succeeds. It stores the learned entry under its key;
  beyond that it changes the table only by dropping one fair victim, when the key is new and
  the table is full.\<close>

lemma update_learning_table_ok:
  assumes ok: "ml_inv now0 ml" and now: "now0 \<le> now" "TIME_MIN \<le> now"
    and may: "mac_learning_may_learn ml src vlan"
  shows "\<exists>ml' b V. update_learning_table ml src vlan g bo (Some p) now = Some (ml', b) \<and> ml_inv now ml' \<and>
    same_config ml ml' \<and>
    map_of (ml_table ml') = (map_of (ml_table ml) |` (- V))((src, vlan) \<mapsto> learned_entry ml (src, vlan) g bo p now) \<and>
    (if map_of (ml_table ml) (src, vlan) = None \<and> length (ml_table ml) \<ge> max_entries ml
     then \<exists>v. fair_victim ml v \<and> V = {v} else V = {}) \<and>
    b = (case map_of (ml_table ml) (src, vlan) of None \<Rightarrow> True
         | Some e \<Rightarrow> \<not> (g \<and> bo \<and> mac_entry_is_grat_arp_locked e now) \<and> mlport e \<noteq> Some p)"
proof (cases "map_of (ml_table ml) (src, vlan)")
  case None
  let ?k = "(src, vlan)"
  define f :: "'a mac_entry" where "f = (new_mac_entry src vlan)\<lparr>expires := now + int (idle_time ml)\<rparr>"
  from make_room [OF ok None] obtain ml1 V where
    r: "(if length (ml_table ml) \<ge> max_entries ml then evict_mac_entry_fairly ml else Some ml) = Some ml1"
      "ml_inv now0 ml1" "same_config ml ml1" "map_of (ml_table ml1) = map_of (ml_table ml) |` (- V)"
      "length (ml_table ml1) < 1000000"
      "if length (ml_table ml) \<ge> max_entries ml then \<exists>v. fair_victim ml v \<and> V = {v} else V = {}"
    by blast
  have none: "map_of (ml_table ml1) ?k = None" using None by (simp add: r(4) restrict_map_def)
  have idle: "idle_time ml1 = idle_time ml" using r(3) by (simp add: same_config_def)
  from mark_new_ok [OF r(2) now(1) none r(5)] obtain ml2 where
    m: "mark_recently_used ((put_entry ml1 ?k (new_mac_entry src vlan))\<lparr>total_learned := total_learned ml1 + 1\<rparr>) ?k now = Some ml2"
      "ml_ok {?k} now ml2" "same_config ml1 ml2" "map_of (ml_table ml2) = (map_of (ml_table ml1))(?k \<mapsto> f)"
      "ml_lrus ml2 = ml_lrus ml1 @ [?k]" by (auto simp: idle f_def)
  have ins: "mac_learning_insert ml src vlan now = Some ml2"
    using None r(1) m(1) by (simp add: mac_learning_insert_def find_or_add_entry_def mac_entry_lookup_def)
  have unlocked: "\<not> mac_entry_is_grat_arp_locked f now"
    using now(2) by (simp add: mac_entry_is_grat_arp_locked_def new_mac_entry_def f_def)
  have portless: "mlport f = None" by (simp add: f_def new_mac_entry_def)
  have "map_of (ml_table ml2) ?k = Some f" using m(4) by simp
  from learn_after_insert [OF ins m(2) subset_refl may this m(5) unlocked, of g bo p] obtain ml' b where
    u: "update_learning_table ml src vlan g bo (Some p) now = Some (ml', b)" "ml_inv now ml'" "same_config ml2 ml'"
      "map_of (ml_table ml') = (map_of (ml_table ml2))(?k \<mapsto>
        (if g \<and> \<not> bo then mac_entry_set_grat_arp_lock f now else f)\<lparr>mlport := Some p\<rparr>)" "b"
    using unlocked portless by auto
  have "learned_entry ml ?k g bo p now =
      (if g \<and> \<not> bo then mac_entry_set_grat_arp_lock f now else f)\<lparr>mlport := Some p\<rparr>"
    using None unlocked by (simp add: learned_entry_def mac_entry_is_grat_arp_locked_def f_def Let_def)
  then have "map_of (ml_table ml') = (map_of (ml_table ml) |` (- V))(?k \<mapsto> learned_entry ml ?k g bo p now)"
    using u(4) m(4) r(4) by simp
  then show ?thesis
    using None r(3,6) m(3) u by (intro exI [of _ ml'] exI [of _ b] exI [of _ V]) (simp add: same_config_def)
next
  case (Some e)
  let ?k = "(src, vlan)"
  define f where "f = e\<lparr>expires := now + int (idle_time ml)\<rparr>"
  from mark_old_ok [OF ok now(1) Some] obtain ml2 where
    m: "mark_recently_used (ml\<lparr>ml_lrus := remove1 ?k (ml_lrus ml)\<rparr>) ?k now = Some ml2" "ml_inv now ml2"
      "same_config ml ml2" "map_of (ml_table ml2) = (map_of (ml_table ml))(?k \<mapsto> f)"
      "ml_lrus ml2 = filter (\<lambda>y. y \<noteq> ?k) (ml_lrus ml) @ [?k]" unfolding f_def by blast
  have ins: "mac_learning_insert ml src vlan now = Some ml2"
    using Some m(1) by (simp add: mac_learning_insert_def find_or_add_entry_def mac_entry_lookup_def)
  have tbl: "map_of (ml_table ml2) ?k = Some f" using m(4) by simp
  have f: "mlport f = mlport e" "mac_entry_is_grat_arp_locked f now = mac_entry_is_grat_arp_locked e now"
    by (simp_all add: f_def mac_entry_is_grat_arp_locked_def)
  then have "mlport f \<noteq> None" using ml_inv_port [OF ok Some] by auto
  then have "mlport f = None \<Longrightarrow> \<not> mac_entry_is_grat_arp_locked f now" by simp
  from learn_after_insert [OF ins m(2) empty_subsetI may tbl m(5) this, of g bo p] obtain ml' b where
    u: "update_learning_table ml src vlan g bo (Some p) now = Some (ml', b)" "ml_inv now ml'" "same_config ml2 ml'"
      "map_of (ml_table ml') = (map_of (ml_table ml2))(?k \<mapsto>
        (if g \<and> bo \<and> mac_entry_is_grat_arp_locked f now then f
         else (if g \<and> \<not> bo then mac_entry_set_grat_arp_lock f now else f)\<lparr>mlport := Some p\<rparr>))"
      "b = (\<not> (g \<and> bo \<and> mac_entry_is_grat_arp_locked f now) \<and> mlport f \<noteq> Some p)" by blast
  have "learned_entry ml ?k g bo p now = (if g \<and> bo \<and> mac_entry_is_grat_arp_locked f now then f
      else (if g \<and> \<not> bo then mac_entry_set_grat_arp_lock f now else f)\<lparr>mlport := Some p\<rparr>)"
    unfolding f(2) by (simp only: learned_entry_def Let_def Some option.case f_def)
  then have "map_of (ml_table ml') = (map_of (ml_table ml) |` (- {}))(?k \<mapsto> learned_entry ml ?k g bo p now)"
    using u(4) m(4) by (simp add: restrict_map_def)
  moreover have "same_config ml ml'" using m(3) u(3) by (simp add: same_config_def)
  ultimately show ?thesis
    using Some u(1,2,5) f by (intro exI [of _ ml'] exI [of _ b] exI [of _ "{}"]) simp
qed

text \<open>The check under the read lock never fails its assertion, and when it answers that
  nothing is needed the update would find nothing to change.\<close>

lemma mac_learning_lookup_ok:
  assumes "ml_inv now ml"
  shows "mac_learning_lookup ml dst vlan = Some
    (if mac_learning_may_learn ml dst vlan then map_of (ml_table ml) (dst, vlan) else None)"
  using ml_inv_port [OF assms, of "(dst, vlan)"]
  by (auto simp: mac_learning_lookup_def mac_learning_may_learn_def mac_entry_lookup_def
      mac_entry_get_port_def split: option.split)

lemma update_needed_total:
  "ml_inv now0 ml \<Longrightarrow> \<exists>b. is_mac_learning_update_needed ml src vlan g bo in_port now = Some b"
  by (auto simp: is_mac_learning_update_needed_def mac_learning_lookup_ok split: option.split)

lemma update_not_needed:
  assumes ok: "ml_inv now0 ml" and no: "is_mac_learning_update_needed ml src vlan g bo (Some p) now = Some False"
  shows "\<not> mac_learning_may_learn ml src vlan \<or>
    map_of (ml_table ml) (src, vlan) = Some (learned_entry ml (src, vlan) g bo p now)"
proof (cases "mac_learning_may_learn ml src vlan")
  case True
  with no obtain e where e: "map_of (ml_table ml) (src, vlan) = Some e" "mac_entry_age ml e now = 0"
      "g \<and> bo \<and> mac_entry_is_grat_arp_locked e now \<or> \<not> (g \<and> \<not> bo) \<and> mlport e = Some p"
    by (auto simp: is_mac_learning_update_needed_def mac_learning_lookup_ok [OF ok] mac_entry_get_port_def
        split: option.splits if_splits)
  then have "e\<lparr>expires := now + int (idle_time ml)\<rparr> = e" by (simp add: mac_entry_age_def)
  moreover from this have "e\<lparr>expires := now + int (idle_time ml), mlport := mlport e\<rparr> = e" by (cases e) simp
  ultimately show ?thesis using e by (auto simp: learned_entry_def Let_def)
qed simp

subsection \<open>Aging, flushing and configuration\<close>

lemma ml_ok_later: "ml_ok X now ml \<Longrightarrow> now \<le> now' \<Longrightarrow> ml_ok X now' ml"
  unfolding ml_ok_def lru_ok_def by force

lemma get_lru_entry:
  assumes "ml_ok X now ml" "get_lru ml = Some k"
  obtains e ks where "map_of (ml_table ml) k = Some e" "ml_lrus ml = k # ks"
proof -
  obtain ks where ks: "ml_lrus ml = k # ks" using assms(2) by (auto simp: get_lru_def split: list.splits)
  moreover have "k \<in> dom (map_of (ml_table ml))" using assms(1) ks by (auto simp: ml_ok_def lru_ok_def)
  ultimately show ?thesis using that by blast
qed

lemma mac_learning_flush_ok:
  "ml_ok X now ml \<Longrightarrow> \<exists>ml'. mac_learning_flush ml = Some ml' \<and> ml_ok X now ml' \<and> same_config ml ml' \<and> ml_table ml' = []"
proof (induction ml rule: mac_learning_flush.induct)
  case (1 ml)
  show ?case
  proof (cases "get_lru ml")
    case None
    then have "ml_lrus ml = []" by (auto simp: get_lru_def split: list.splits)
    then have "ml_table ml = []" using ml_ok_table(2) [OF "1.prems"] by simp
    with None "1.prems" show ?thesis by (simp add: mac_learning_flush.simps [of ml] same_config_def)
  next
    case (Some k)
    then obtain e where e: "map_of (ml_table ml) k = Some e" using get_lru_entry [OF "1.prems"] by metis
    from mac_learning_expire_inv [OF "1.prems" e] obtain ml1 where
      ml1: "mac_learning_expire ml k = Some ml1" "ml_ok X now ml1" "same_config ml ml1" by blast
    from "1.IH" [OF Some ml1(1,2)] Some ml1 show ?thesis
      by (auto simp: mac_learning_flush.simps [of ml] same_config_def)
  qed
qed

lemma lru_first_expires:
  assumes "ml_ok X now ml" "ml_lrus ml = k # ks" "map_of (ml_table ml) k = Some e" "map_of (ml_table ml) a = Some f"
  shows "expires e \<le> expires f"
proof -
  have o: "lru_ok ml now" using assms by (simp add: ml_ok_def)
  then have "a \<in> set (k # ks)" using assms by (metis domI lru_ok_def)
  with o assms(2-4) show ?thesis unfolding lru_ok_def entry_expires_def by fastforce
qed

definition unexpired :: "'p mac_learning \<Rightarrow> int \<Rightarrow> mac_key set" where
  "unexpired ml now = {k. \<exists>e. map_of (ml_table ml) k = Some e \<and> now < expires e}"

lemma mac_learning_run_loop_ok:
  "ml_ok X now0 ml \<Longrightarrow> \<exists>ml'. mac_learning_run_loop ml now = Some ml' \<and> ml_ok X now0 ml' \<and> same_config ml ml' \<and>
     length (ml_table ml') \<le> max_entries ml \<and> dom (map_of (ml_table ml')) \<subseteq> unexpired ml now \<and>
     map_of (ml_table ml') \<subseteq>\<^sub>m map_of (ml_table ml) \<and>
     (length (ml_table ml) \<le> max_entries ml \<longrightarrow> unexpired ml now \<subseteq> dom (map_of (ml_table ml')))"
proof (induction ml now rule: mac_learning_run_loop.induct)
  case (1 ml now)
  note ok = "1.prems"
  note step = mac_learning_run_loop.simps [of ml now]
  show ?case
  proof (cases "get_lru ml")
    case None
    then have "ml_lrus ml = []" by (auto simp: get_lru_def split: list.splits)
    then have "ml_table ml = []" using ml_ok_table(2) [OF ok] by simp
    with None ok show ?thesis by (simp add: step same_config_def unexpired_def)
  next
    case (Some k)
    then obtain e ks where e: "map_of (ml_table ml) k = Some e" "ml_lrus ml = k # ks"
      using get_lru_entry [OF ok] by metis
    show ?thesis
    proof (cases "length (ml_table ml) > max_entries ml \<or> now \<ge> expires e")
      case True
      let ?ml = "ml\<lparr>total_expired := total_expired ml + 1\<rparr>"
      have "ml_ok X now0 ?ml" "map_of (ml_table ?ml) k = Some e" using ok e by auto
      from mac_learning_expire_inv [OF this] obtain ml1 where
        ml1: "mac_learning_expire ?ml k = Some ml1" "ml_ok X now0 ml1" "same_config ml ml1"
          "map_of (ml_table ml1) = (map_of (ml_table ml))(k := None)" by (auto simp: same_config_def)
      from "1.IH" [OF Some e(1) True ml1(1,2)] obtain ml' where
        ml': "mac_learning_run_loop ml1 now = Some ml'" "ml_ok X now0 ml'" "same_config ml1 ml'"
          "length (ml_table ml') \<le> max_entries ml1" "dom (map_of (ml_table ml')) \<subseteq> unexpired ml1 now"
          "map_of (ml_table ml') \<subseteq>\<^sub>m map_of (ml_table ml1)"
          "length (ml_table ml1) \<le> max_entries ml1 \<longrightarrow> unexpired ml1 now \<subseteq> dom (map_of (ml_table ml'))"
        by blast
      have len: "length (ml_table ml1) \<le> length (ml_table ml)"
        using ml_ok_table(1) [OF ml1(2)] ml_ok_table(1) [OF ok] ml1(4)
        by (simp add: card_mono finite_dom_map_of)
      have un: "unexpired ml1 now = unexpired ml now - {k}" by (auto simp: unexpired_def ml1(4))
      have dead: "length (ml_table ml) \<le> max_entries ml \<Longrightarrow> k \<notin> unexpired ml now"
        using True e(1) by (auto simp: unexpired_def)
      have "map_of (ml_table ml') \<subseteq>\<^sub>m map_of (ml_table ml)"
        using ml'(6) unfolding ml1(4) by (rule map_le_trans) simp
      moreover have "mac_learning_run_loop ml now = Some ml'" using Some e(1) True ml1(1) ml'(1) by (simp add: step)
      ultimately show ?thesis
        using ml' ml1(3) un len dead by (auto simp: same_config_def)
    next
      case False
      then have "dom (map_of (ml_table ml)) \<subseteq> unexpired ml now"
        using lru_first_expires [OF ok e(2,1)] by (force simp: unexpired_def)
      with Some e(1) False ok show ?thesis by (auto simp: step same_config_def unexpired_def)
    qed
  qed
qed

lemma ml_ok_set_idle_time:
  assumes ok: "ml_ok X now ml"
  shows "ml_ok X now (mac_learning_set_idle_time ml t)"
proof (cases "normalize_idle_time t = idle_time ml")
  case True
  with ok show ?thesis by (simp add: mac_learning_set_idle_time_def)
next
  case False
  define d where "d = int (normalize_idle_time t) - int (idle_time ml)"
  define f :: "'a mac_entry \<Rightarrow> 'a mac_entry" where "f = (\<lambda>e. e\<lparr>expires := expires e + d\<rparr>)"
  have f: "mlport (f e) = mlport e" "entry_mac (f e) = entry_mac e" "entry_vlan (f e) = entry_vlan e"
    "expires (f e) = expires e + d" for e by (simp_all add: f_def)
  have keys: "set (ml_lrus ml) = fst ` set (ml_table ml)"
    using ok by (simp add: ml_ok_def lru_ok_def dom_map_of_conv_image_fst)
  have T: "map (\<lambda>(k, e). if k \<in> set (ml_lrus ml) then (k, e\<lparr>expires := expires e + d\<rparr>) else (k, e)) (ml_table ml)
      = map (\<lambda>(k, e). (k, f e)) (ml_table ml)"
    unfolding keys by (rule map_cong) (force simp: f_def image_iff)+
  let ?T = "map (\<lambda>(k, e). (k, f e)) (ml_table ml)"
  have eq: "mac_learning_set_idle_time ml t = ml\<lparr>ml_table := ?T, idle_time := normalize_idle_time t\<rparr>"
    using False T by (simp add: mac_learning_set_idle_time_def d_def [symmetric])
  have m: "map_of ?T = map_option f \<circ> map_of (ml_table ml)"
    by (simp add: map_of_map fun_eq_iff)
  have fst: "fst \<circ> (\<lambda>(k, e). (k, f e)) = fst" by auto
  have on: "on_port (map_of ?T) p = on_port (map_of (ml_table ml)) p" for p
    by (auto simp: on_port_def m f)
  have ex: "entry_expires (map_of ?T) a = entry_expires (map_of (ml_table ml)) a + d"
    if "a \<in> dom (map_of (ml_table ml))" for a using that by (auto simp: entry_expires_def m f)
  have dom: "dom (map_of ?T) = dom (map_of (ml_table ml))" by (auto simp: m)
  have id: "(entry_mac e, entry_vlan e) = k" if T: "map_of ?T k = Some e" for k e
  proof -
    obtain e0 where e0: "map_of (ml_table ml) k = Some e0" "e = f e0" using T by (auto simp: m)
    then have "(entry_mac e0, entry_vlan e0) = k" using ok unfolding ml_ok_def ml_links_def by blast
    then show ?thesis by (simp add: e0(2) f)
  qed
  have le: "\<And>a y. map_of (ml_table ml) a = Some y \<Longrightarrow>
      entry_expires (map_of (ml_table ml)) a - int (idle_time ml) \<le> now"
    using ok unfolding ml_ok_def lru_ok_def by (smt (verit) domI)
  have "lru_ok (ml\<lparr>ml_table := ?T, idle_time := normalize_idle_time t\<rparr>) now"
    using ok le unfolding ml_ok_def lru_ok_def
    by (auto simp: dom ex d_def intro: sorted_wrt_mono_rel [rotated])
  moreover have "ml_links (ml\<lparr>ml_table := ?T, idle_time := normalize_idle_time t\<rparr>)"
    using ok id unfolding ml_ok_def ml_links_def ports_ok_def by (simp add: on fst)
  moreover have "\<forall>k e. map_of ?T k = Some e \<longrightarrow> mlport e = None \<longrightarrow> k \<in> X"
    using ok by (auto simp: m f ml_ok_def)
  moreover have "15 \<le> normalize_idle_time t \<and> normalize_idle_time t \<le> 3600"
    by (simp add: normalize_idle_time_def)
  ultimately show ?thesis
    unfolding eq ml_ok_def using ok by (auto simp: ml_ok_def ml_config_ok_def order_ok_def on)
qed

lemma ml_ok_set_max_entries: "ml_ok X now ml \<Longrightarrow> ml_ok X now (mac_learning_set_max_entries ml n)"
  by (auto simp: ml_ok_def ml_links_def ml_config_ok_def lru_ok_def order_ok_def mac_learning_set_max_entries_def)

lemma ml_ok_set_flood_vlans: "ml_ok X now ml \<Longrightarrow> ml_ok X now (fst (mac_learning_set_flood_vlans ml b))"
  by (auto simp: ml_ok_def ml_links_def ml_config_ok_def lru_ok_def order_ok_def mac_learning_set_flood_vlans_def)

lemma ml_ok_clear_statistics: "ml_ok X now ml \<Longrightarrow> ml_ok X now (mac_learning_clear_statistics ml)"
  by (auto simp: ml_ok_def ml_links_def ml_config_ok_def lru_ok_def order_ok_def mac_learning_clear_statistics_def)

lemma mac_learning_create_ok: "ml_inv now (mac_learning_create t :: 'p mac_learning)"
proof -
  have "hq.counts (heap_init (\<lambda>_. 0) (\<lambda>_. 0) :: 'p heap) (\<lambda>_. 0)"
    by (simp add: hq.counts_def heap_init_inv heap_init_nodes)
  then show ?thesis
    by (simp add: ml_ok_def ml_links_def ml_config_ok_def lru_ok_def order_ok_def ports_ok_def plist_def
        on_port_def mac_learning_create_def mac_learning_clear_statistics_def MAC_DEFAULT_MAX_def
        normalize_idle_time_def)
qed

lemma mac_learning_update_ok:
  assumes ok: "ml_inv now0 ml" and now: "now0 \<le> now" "TIME_MIN \<le> now"
  shows "\<exists>ml' b. mac_learning_update ml src vlan g bo in_port now = Some (ml', b) \<and> ml_inv now ml' \<and> same_config ml ml'"
proof (cases "in_port")
  case None
  then show ?thesis
    using ml_ok_later [OF ok now(1)] by (auto simp: mac_learning_update_def same_config_def)
next
  case (Some p)
  from update_needed_total [OF ok] obtain b where
    b: "is_mac_learning_update_needed ml src vlan g bo in_port now = Some b" by blast
  show ?thesis
  proof (cases "b \<and> mac_learning_may_learn ml src vlan")
    case True
    with b Some update_learning_table_ok [OF ok now, of src vlan g bo p] show ?thesis
      by (auto simp: mac_learning_update_def)
  next
    case False
    with b Some ml_ok_later [OF ok now(1)] show ?thesis
      by (auto simp: mac_learning_update_def update_learning_table_def same_config_def)
  qed
qed

subsection \<open>Sequences of calls\<close>

datatype 'p ml_call =
    Update eth_addr u16 bool bool "'p option" int
  | Expire mac_key
  | Flush
  | Run int
  | SetFloodVlans "(nat \<Rightarrow> bool) option"
  | SetIdleTime nat
  | SetMaxEntries nat
  | ClearStatistics

text \<open>The state is the clock at the last call and the table, or \<open>None\<close> after an abort.\<close>

fun ml_step :: "(int \<times> 'p mac_learning) option \<Rightarrow> 'p ml_call \<Rightarrow> (int \<times> 'p mac_learning) option" where
  "ml_step None c = None"
| "ml_step (Some (t, ml)) (Update src vlan g bo in_port now) =
     map_option (\<lambda>(ml', b). (now, ml')) (mac_learning_update ml src vlan g bo in_port now)"
| "ml_step (Some (t, ml)) (Expire k) = map_option (Pair t) (mac_learning_expire ml k)"
| "ml_step (Some (t, ml)) Flush = map_option (Pair t) (mac_learning_flush ml)"
| "ml_step (Some (t, ml)) (Run now) = map_option (\<lambda>(ml', b). (now, ml')) (mac_learning_run ml now)"
| "ml_step (Some (t, ml)) (SetFloodVlans b) = Some (t, fst (mac_learning_set_flood_vlans ml b))"
| "ml_step (Some (t, ml)) (SetIdleTime n) = Some (t, mac_learning_set_idle_time ml n)"
| "ml_step (Some (t, ml)) (SetMaxEntries n) = Some (t, mac_learning_set_max_entries ml n)"
| "ml_step (Some (t, ml)) ClearStatistics = Some (t, mac_learning_clear_statistics ml)"

text \<open>The clock does not run backwards, and only entries of the table are expired.\<close>

fun ml_legal :: "(int \<times> 'p mac_learning) option \<Rightarrow> 'p ml_call \<Rightarrow> bool" where
  "ml_legal (Some (t, ml)) (Update src vlan g bo in_port now) = (t \<le> now)"
| "ml_legal (Some (t, ml)) (Run now) = (t \<le> now)"
| "ml_legal (Some (t, ml)) (Expire k) = (map_of (ml_table ml) k \<noteq> None)"
| "ml_legal s c = True"

definition ml_state_ok :: "(int \<times> 'p mac_learning) option \<Rightarrow> bool" where
  "ml_state_ok s = (case s of None \<Rightarrow> False | Some (t, ml) \<Rightarrow> TIME_MIN \<le> t \<and> ml_inv t ml)"

lemma mac_learning_run_ok:
  assumes "ml_inv now0 ml" "now0 \<le> now"
  shows "\<exists>ml' b. mac_learning_run ml now = Some (ml', b) \<and> ml_inv now ml' \<and> \<not> need_revalidate ml' \<and>
    length (ml_table ml') \<le> max_entries ml \<and> dom (map_of (ml_table ml')) \<subseteq> unexpired ml now \<and>
    map_of (ml_table ml') \<subseteq>\<^sub>m map_of (ml_table ml) \<and>
    (length (ml_table ml) \<le> max_entries ml \<longrightarrow> unexpired ml now \<subseteq> dom (map_of (ml_table ml')))"
  using mac_learning_run_loop_ok [OF assms(1), of now] assms(2)
  by (auto simp: mac_learning_run_def intro: ml_ok_later)

interpretation mlcalls: call_system ml_step ml_legal ml_state_ok
proof (unfold_locales, goal_cases)
  case (1 s c)
  then obtain t ml where s: "s = Some (t, ml)" "TIME_MIN \<le> t" "ml_inv t ml"
    by (auto simp: ml_state_ok_def split: option.splits)
  show ?case
  proof (cases c)
    case (Update src vlan g bo p now)
    with 1 s mac_learning_update_ok [of t ml now src vlan g bo p] show ?thesis by (auto simp: ml_state_ok_def)
  next
    case (Expire k)
    with 1 s mac_learning_expire_inv [of "{}" t ml k] show ?thesis by (auto simp: ml_state_ok_def)
  next
    case (Run now)
    with 1 s mac_learning_run_ok [of t ml now] show ?thesis by (auto simp: ml_state_ok_def)
  next
    case Flush
    with s mac_learning_flush_ok [of "{}" t ml] show ?thesis by (auto simp: ml_state_ok_def)
  qed (use s in \<open>auto simp: ml_state_ok_def ml_ok_set_idle_time ml_ok_set_max_entries
        ml_ok_set_flood_vlans ml_ok_clear_statistics\<close>)
qed

text \<open>C9: no sequence of calls of \<open>mac_learning_update\<close>, \<open>mac_learning_expire\<close>,
  \<open>mac_learning_flush\<close>, \<open>mac_learning_run\<close> and the setters makes an assertion fail or
  follows a null pointer: from a new table, calls with a clock that does not run backwards always
  reach a table, in which the hash table, the LRU list, the per-port lists and the usage heap
  agree, every entry has a port, and there are at most a million entries. (Callers that insert
  an entry or move one to another port on their own, without \<open>mac_learning_update\<close>, are not
  among these calls.)\<close>

theorem mac_learning_never_aborts:
  assumes "TIME_MIN \<le> t0" and "legal_calls ml_step ml_legal (Some (t0, mac_learning_create idle)) cs"
  shows "\<exists>now ml. run_calls ml_step (Some (t0, mac_learning_create idle)) cs = Some (now, ml) \<and>
    ml_inv now ml \<and> length (ml_table ml) \<le> 1000000"
proof -
  have "ml_state_ok (Some (t0, mac_learning_create idle))"
    using assms(1) by (simp add: ml_state_ok_def mac_learning_create_ok)
  from mlcalls.run_inv [OF this assms(2)] show ?thesis
    using ml_ok_table(3) by (fastforce simp: ml_state_ok_def split: option.splits)
qed

text \<open>The equations that evaluate the operations on concrete tables.\<close>

lemmas ml_eval = mac_learning_create_def mac_learning_clear_statistics_def normalize_idle_time_def
  MAC_DEFAULT_MAX_def mac_learning_update_def is_mac_learning_update_needed_def mac_learning_may_learn_def
  is_learning_vlan_def eth_addr_is_multicast_def mac_learning_lookup_def mac_entry_lookup_def
  update_learning_table_def mac_learning_insert_def find_or_add_entry_def put_entry_def new_mac_entry_def
  mark_recently_used_def mac_entry_get_port_def mac_entry_set_port_def leave_port_def join_port_def
  mac_learning_port_lookup_def mac_entry_set_grat_arp_lock_def mac_entry_is_grat_arp_locked_def
  mac_entry_age_def MAC_GRAT_ARP_LOCK_TIME_def TIME_MIN_def mac_learning_expire_def
  evict_mac_entry_fairly_def mac_learning_run_def mac_learning_run_loop.simps mac_learning_flush.simps
  get_lru_def mac_learning_set_idle_time_def mac_learning_set_max_entries_def
  mac_learning_set_flood_vlans_def Let_def heap_eval

definition ml_example :: "nat ml_call list" where
  "ml_example = [Update 2 1 False False (Some 7) 100, Update 4 1 False False (Some 7) 101,
     Update 2 1 False False (Some 8) 102, SetIdleTime 20, Run 121, SetMaxEntries 3,
     Update 6 2 True False (Some 8) 123, Expire (2, 1), Flush]"

theorem mac_learning_never_aborts_witness:
  "legal_calls ml_step ml_legal (Some (100, mac_learning_create 300)) ml_example \<and>
   (\<exists>now ml. run_calls ml_step (Some (100, mac_learning_create 300)) ml_example = Some (now, ml) \<and> ml_inv now ml)"
proof -
  have legal: "legal_calls ml_step ml_legal (Some (100, mac_learning_create 300)) ml_example"
    by (simp add: ml_example_def ml_eval)
  have "TIME_MIN \<le> 100" by (simp add: TIME_MIN_def)
  from mac_learning_never_aborts [OF this legal] obtain now ml where
    "run_calls ml_step (Some (100, mac_learning_create 300)) ml_example = Some (now, ml)" "ml_inv now ml" by blast
  with legal show ?thesis by simp
qed

subsection \<open>Properties\<close>

text \<open>What a call of \<open>mac_learning_update\<close> does to the table, on both of its paths.\<close>

lemma mac_learning_update_effect:
  assumes ok: "ml_inv now0 ml" and now: "now0 \<le> now" "TIME_MIN \<le> now"
    and may: "mac_learning_may_learn ml src vlan"
  shows "\<exists>ml' b V. mac_learning_update ml src vlan g bo (Some p) now = Some (ml', b) \<and> ml_inv now ml' \<and>
    same_config ml ml' \<and>
    map_of (ml_table ml') = (map_of (ml_table ml) |` (- V))((src, vlan) \<mapsto> learned_entry ml (src, vlan) g bo p now) \<and>
    (if map_of (ml_table ml) (src, vlan) = None \<and> length (ml_table ml) \<ge> max_entries ml
     then \<exists>v. fair_victim ml v \<and> V = {v} else V = {})"
proof -
  from update_needed_total [OF ok] obtain b where
    b: "is_mac_learning_update_needed ml src vlan g bo (Some p) now = Some b" by blast
  show ?thesis
  proof (cases b)
    case True
    with b have "mac_learning_update ml src vlan g bo (Some p) now =
        update_learning_table ml src vlan g bo (Some p) now"
      by (simp add: mac_learning_update_def)
    moreover from update_learning_table_ok [OF ok now may, of g bo p] obtain ml' b' V where
      "update_learning_table ml src vlan g bo (Some p) now = Some (ml', b')" "ml_inv now ml'" "same_config ml ml'"
      "map_of (ml_table ml') = (map_of (ml_table ml) |` (- V))((src, vlan) \<mapsto> learned_entry ml (src, vlan) g bo p now)"
      "if map_of (ml_table ml) (src, vlan) = None \<and> length (ml_table ml) \<ge> max_entries ml
       then \<exists>v. fair_victim ml v \<and> V = {v} else V = {}" by blast
    ultimately show ?thesis
      by (intro exI [of _ ml'] exI [of _ b'] exI [of _ V]) (simp only: simp_thms)
  next
    case False
    with b update_not_needed [OF ok, of src vlan g bo p now] may
    have e: "map_of (ml_table ml) (src, vlan) = Some (learned_entry ml (src, vlan) g bo p now)" by simp
    then have "map_of (ml_table ml) = (map_of (ml_table ml) |` (- {}))((src, vlan) \<mapsto> learned_entry ml (src, vlan) g bo p now)"
      by (auto simp: fun_eq_iff restrict_map_def)
    moreover have "mac_learning_update ml src vlan g bo (Some p) now = Some (ml, False)"
      using b False by (simp add: mac_learning_update_def)
    ultimately show ?thesis
      using e ml_ok_later [OF ok now(1)]
      by (intro exI [of _ ml] exI [of _ False] exI [of _ "{}"]) (simp add: same_config_def)
  qed
qed

lemma may_learn_config: "same_config ml ml' \<Longrightarrow> mac_learning_may_learn ml' src vlan = mac_learning_may_learn ml src vlan"
  by (simp add: mac_learning_may_learn_def is_learning_vlan_def same_config_def)

text \<open>The learned entry: always fresh, and on the new port unless it is locked.\<close>

lemma learned_expires: "expires (learned_entry ml k g bo p now) = now + int (idle_time ml)"
  by (auto simp: learned_entry_def Let_def mac_entry_set_grat_arp_lock_def)

lemma learned_port:
  assumes "TIME_MIN \<le> now"
  shows "mac_entry_get_port (learned_entry ml (src, vlan) g bo p now) = (case map_of (ml_table ml) (src, vlan) of
        Some old \<Rightarrow> if g \<and> bo \<and> mac_entry_is_grat_arp_locked old now then mac_entry_get_port old else Some p
      | None \<Rightarrow> Some p)"
  using assms by (auto simp: learned_entry_def Let_def mac_entry_get_port_def mac_entry_is_grat_arp_locked_def new_mac_entry_def
      split: option.split)

text \<open>C10: after a packet from a learnable address is seen on port \<open>p\<close>, looking that
  address up finds \<open>p\<close> with a fresh expiry time; only if the packet is a gratuitous ARP on a
  bond and the address has an entry that is locked against these, the entry keeps its port and
  just gets the fresh expiry time. Every other address keeps its entry, except that a new
  address coming into a full table pushes out exactly one entry, the least recently used of a
  port with the most entries.\<close>

theorem mac_learning_update_learns:
  assumes "ml_inv now0 ml" "now0 \<le> now" "TIME_MIN \<le> now" "mac_learning_may_learn ml src vlan"
  shows "\<exists>ml' b e V. mac_learning_update ml src vlan g bo (Some p) now = Some (ml', b) \<and> ml_inv now ml' \<and>
    mac_learning_lookup ml' src vlan = Some (Some e) \<and> mac_entry_age ml' e now = 0 \<and>
    mac_entry_get_port e = (case mac_entry_lookup ml src vlan of
        Some old \<Rightarrow> if g \<and> bo \<and> mac_entry_is_grat_arp_locked old now then mac_entry_get_port old else Some p
      | None \<Rightarrow> Some p) \<and>
    (\<forall>dst v. (dst, v) \<noteq> (src, vlan) \<longrightarrow> mac_learning_lookup ml' dst v =
       (if (dst, v) \<in> V then Some None else mac_learning_lookup ml dst v)) \<and>
    (if mac_entry_lookup ml src vlan = None \<and> length (ml_table ml) \<ge> max_entries ml
     then \<exists>victim. fair_victim ml victim \<and> V = {victim} else V = {})"
proof -
  let ?e = "learned_entry ml (src, vlan) g bo p now"
  from mac_learning_update_effect [OF assms, of g bo p] obtain ml' b V where
    u: "mac_learning_update ml src vlan g bo (Some p) now = Some (ml', b)" "ml_inv now ml'" "same_config ml ml'"
      "map_of (ml_table ml') = (map_of (ml_table ml) |` (- V))((src, vlan) \<mapsto> ?e)"
      "if map_of (ml_table ml) (src, vlan) = None \<and> length (ml_table ml) \<ge> max_entries ml
       then \<exists>v. fair_victim ml v \<and> V = {v} else V = {}" by blast
  note look = mac_learning_lookup_ok [OF u(2)] mac_learning_lookup_ok [OF assms(1)] may_learn_config [OF u(3)]
  have "mac_learning_lookup ml' src vlan = Some (Some ?e)" using assms(4) by (simp add: look u(4))
  moreover have "mac_learning_lookup ml' dst v = (if (dst, v) \<in> V then Some None else mac_learning_lookup ml dst v)"
    if "(dst, v) \<noteq> (src, vlan)" for dst v using that by (auto simp: look u(4) restrict_map_def)
  moreover have "mac_entry_age ml' ?e now = 0"
    using u(3) by (simp add: mac_entry_age_def learned_expires same_config_def)
  ultimately show ?thesis
    using u(1,2,5) learned_port [OF assms(3), of ml src vlan g bo p] unfolding mac_entry_lookup_def
    by (intro exI [of _ ml'] exI [of _ b] exI [of _ ?e] exI [of _ V]) simp
qed

definition ml_one :: "nat mac_learning" where
  "ml_one = fst (the (mac_learning_update (mac_learning_create 300) 2 1 False False (Some 7) 100))"

lemma ml_one_inv: "ml_inv 100 ml_one"
proof -
  have "TIME_MIN \<le> 100" by (simp add: TIME_MIN_def)
  from mac_learning_update_ok [OF mac_learning_create_ok order_refl this, of 300 2 1 False False "Some (7::nat)"]
  show ?thesis by (auto simp: ml_one_def)
qed

text \<open>A table whose entry is locked by a gratuitous ARP.\<close>

definition ml_locked :: "nat mac_learning" where
  "ml_locked = fst (the (mac_learning_update ml_one 2 1 True False (Some 7) 101))"

lemma ml_locked_inv: "ml_inv 101 ml_locked"
proof -
  have "TIME_MIN \<le> 101" by (simp add: TIME_MIN_def)
  from mac_learning_update_ok [OF ml_one_inv _ this, of 2 1 True False "Some 7"] show ?thesis
    by (auto simp: ml_locked_def)
qed

theorem mac_learning_update_learns_witness:
  "(\<exists>ml' b e. mac_learning_update ml_locked 4 1 True True (Some 9) 104 = Some (ml', b) \<and>
      mac_learning_lookup ml' 4 1 = Some (Some e) \<and> mac_entry_get_port e = Some 9) \<and>
   (\<exists>ml' b e. mac_learning_update ml_locked 2 1 True True (Some 9) 104 = Some (ml', b) \<and>
      mac_learning_lookup ml' 2 1 = Some (Some e) \<and> mac_entry_get_port e = Some 7)"
proof -
  have may: "mac_learning_may_learn ml_locked 4 1" "mac_learning_may_learn ml_locked 2 1"
    by (simp_all add: ml_locked_def ml_one_def ml_eval)
  have old: "mac_entry_lookup ml_locked 4 1 = None"
    "\<exists>e. mac_entry_lookup ml_locked 2 1 = Some e \<and> mac_entry_is_grat_arp_locked e 104 \<and> mac_entry_get_port e = Some 7"
    by (simp_all add: ml_locked_def ml_one_def ml_eval)
  have t: "TIME_MIN \<le> 104" by (simp add: TIME_MIN_def)
  show ?thesis
    using mac_learning_update_learns [OF ml_locked_inv _ t may(1), of True True 9]
      mac_learning_update_learns [OF ml_locked_inv _ t may(2), of True True 9] old by auto
qed

text \<open>C11: a port that floods the table with addresses cannot push out the entries of a quieter
  port: while some port has more entries than \<open>q\<close>, learning any address anywhere keeps
  every entry of \<open>q\<close>, except that the learned address itself may move.\<close>

theorem quiet_port_keeps_entries:
  assumes "ml_inv now0 ml" "now0 \<le> now" "TIME_MIN \<le> now" "mac_learning_may_learn ml src vlan"
    "card (on_port (map_of (ml_table ml)) q) < card (on_port (map_of (ml_table ml)) r)"
  shows "\<exists>ml' b. mac_learning_update ml src vlan g bo (Some p) now = Some (ml', b) \<and>
    on_port (map_of (ml_table ml)) q - {(src, vlan)} \<subseteq> on_port (map_of (ml_table ml')) q"
proof -
  let ?m = "map_of (ml_table ml)"
  from mac_learning_update_effect [OF assms(1-4), of g bo p] obtain ml' b V where
    u: "mac_learning_update ml src vlan g bo (Some p) now = Some (ml', b)"
      "map_of (ml_table ml') = (?m |` (- V))((src, vlan) \<mapsto> learned_entry ml (src, vlan) g bo p now)"
      "if ?m (src, vlan) = None \<and> length (ml_table ml) \<ge> max_entries ml
       then \<exists>v. fair_victim ml v \<and> V = {v} else V = {}" by blast
  have "v \<notin> on_port ?m q" if "fair_victim ml v" for v
  proof
    assume v: "v \<in> on_port ?m q"
    from that obtain q' ks where q': "\<forall>p. card (on_port ?m p) \<le> card (on_port ?m q')"
        "filter (\<lambda>k. k \<in> on_port ?m q') (ml_lrus ml) = v # ks" by (auto simp: fair_victim_def)
    then have "v \<in> set (filter (\<lambda>k. k \<in> on_port ?m q') (ml_lrus ml))" by simp
    then have "q' = q" using v by (auto simp: on_port_def)
    with q'(1) assms(5) show False by (simp add: leD)
  qed
  with u(3) have "on_port ?m q \<inter> V = {}" by (auto split: if_splits)
  then have "on_port ?m q - {(src, vlan)} \<subseteq> on_port (map_of (ml_table ml')) q"
    by (auto simp: u(2) on_port_def restrict_map_def)
  with u(1) show ?thesis by blast
qed

definition ml_two :: "nat mac_learning" where
  "ml_two = fst (the (mac_learning_update (fst (the (mac_learning_update ml_one 4 1 False False (Some 7) 101)))
     6 1 False False (Some 8) 102))"

lemma ml_two_inv: "ml_inv 102 ml_two"
proof -
  have t: "TIME_MIN \<le> 101" "TIME_MIN \<le> 102" by (simp_all add: TIME_MIN_def)
  have "ml_inv 101 (fst (the (mac_learning_update ml_one 4 1 False False (Some 7) 101)))"
    using mac_learning_update_ok [OF ml_one_inv _ t(1), of 4 1 False False "Some 7"] by auto
  from mac_learning_update_ok [OF this _ t(2), of 6 1 False False "Some 8"] show ?thesis
    by (auto simp: ml_two_def)
qed

theorem quiet_port_keeps_entries_witness:
  "card (on_port (map_of (ml_table ml_two)) 8) < card (on_port (map_of (ml_table ml_two)) 7) \<and>
   (\<exists>ml' b. mac_learning_update ml_two 10 1 False False (Some 7) 103 = Some (ml', b) \<and>
      on_port (map_of (ml_table ml_two)) 8 - {(10, 1)} \<subseteq> on_port (map_of (ml_table ml')) 8)"
proof -
  have len: "length (plist (ports_by_ptr ml_two) 8) = 1" "length (plist (ports_by_ptr ml_two) 7) = 2"
    by (simp_all add: ml_two_def ml_one_def ml_eval plist_def)
  then have c: "card (on_port (map_of (ml_table ml_two)) 8) < card (on_port (map_of (ml_table ml_two)) 7)"
    unfolding plist_card [OF ml_two_inv, symmetric] by simp
  have may: "mac_learning_may_learn ml_two 10 1" by (simp add: ml_two_def ml_one_def ml_eval)
  have "TIME_MIN \<le> 103" by (simp add: TIME_MIN_def)
  with c quiet_port_keeps_entries [OF ml_two_inv _ _ may c, of 103 False False 7] show ?thesis by simp
qed

text \<open>C12: the check made under the read lock is in step with the update made under the write
  lock: when the check says that no update is needed, the update would report no change, and
  every entry would be what it is already.\<close>

theorem update_check_in_step:
  assumes "ml_inv now0 ml" "now0 \<le> now" "TIME_MIN \<le> now"
    "is_mac_learning_update_needed ml src vlan g bo (Some p) now = Some False"
  shows "\<exists>ml'. update_learning_table ml src vlan g bo (Some p) now = Some (ml', False) \<and>
    map_of (ml_table ml') = map_of (ml_table ml) \<and> same_config ml ml'"
proof (cases "mac_learning_may_learn ml src vlan")
  case True
  with update_not_needed [OF assms(1,4)]
  have e: "map_of (ml_table ml) (src, vlan) = Some (learned_entry ml (src, vlan) g bo p now)" by simp
  define f where "f = learned_entry ml (src, vlan) g bo p now"
  note e = e [folded f_def]
  from update_learning_table_ok [OF assms(1-3) True, of g bo p, folded f_def] obtain ml' b V where
    u: "update_learning_table ml src vlan g bo (Some p) now = Some (ml', b)" "same_config ml ml'"
      "map_of (ml_table ml') = (map_of (ml_table ml) |` (- V))((src, vlan) \<mapsto> f)"
      "if map_of (ml_table ml) (src, vlan) = None \<and> length (ml_table ml) \<ge> max_entries ml
       then \<exists>v. fair_victim ml v \<and> V = {v} else V = {}"
      "b = (\<not> (g \<and> bo \<and> mac_entry_is_grat_arp_locked f now) \<and> mlport f \<noteq> Some p)"
    unfolding e option.case by blast
  have V: "V = {}" using u(4) e by simp
  have "\<not> b"
    using assms(4) True e u(5)
    by (auto simp: is_mac_learning_update_needed_def mac_learning_lookup_ok [OF assms(1)]
        mac_entry_get_port_def split: if_splits)
  moreover have "map_of (ml_table ml') = map_of (ml_table ml)"
    using e by (auto simp: u(3) V restrict_map_def fun_eq_iff)
  ultimately show ?thesis using u(1,2) by auto
qed (simp add: update_learning_table_def same_config_def)

theorem update_check_in_step_witness:
  "is_mac_learning_update_needed ml_one 2 1 False False (Some 7) 100 = Some False \<and>
   (\<exists>ml'. update_learning_table ml_one 2 1 False False (Some 7) 100 = Some (ml', False) \<and>
      map_of (ml_table ml') = map_of (ml_table ml_one))"
proof -
  have n: "is_mac_learning_update_needed ml_one 2 1 False False (Some 7) 100 = Some False"
    by (simp add: ml_one_def ml_eval)
  have "TIME_MIN \<le> 100" by (simp add: TIME_MIN_def)
  with n update_check_in_step [OF ml_one_inv order_refl _ n] show ?thesis by auto
qed

text \<open>C13: \<open>mac_learning_run\<close> ends, drops every entry whose time has come and enough others to
  respect the configured limit, changes no entry that stays, and keeps every unexpired entry
  when the table was within its limit.\<close>

theorem mac_learning_run_ages:
  assumes "ml_inv now0 ml" "now0 \<le> now"
  shows "\<exists>ml' b. mac_learning_run ml now = Some (ml', b) \<and> ml_inv now ml' \<and>
    length (ml_table ml') \<le> max_entries ml' \<and>
    (\<forall>k e. map_of (ml_table ml') k = Some e \<longrightarrow> now < expires e \<and> map_of (ml_table ml) k = Some e) \<and>
    (length (ml_table ml) \<le> max_entries ml \<longrightarrow>
       (\<forall>k e. map_of (ml_table ml) k = Some e \<longrightarrow> now < expires e \<longrightarrow> map_of (ml_table ml') k = Some e))"
proof -
  from mac_learning_run_loop_ok [OF assms(1), of now] obtain ml' where
    r: "mac_learning_run_loop ml now = Some ml'" "ml_inv now0 ml'" "same_config ml ml'"
      "length (ml_table ml') \<le> max_entries ml" "dom (map_of (ml_table ml')) \<subseteq> unexpired ml now"
      "map_of (ml_table ml') \<subseteq>\<^sub>m map_of (ml_table ml)"
      "length (ml_table ml) \<le> max_entries ml \<longrightarrow> unexpired ml now \<subseteq> dom (map_of (ml_table ml'))" by blast
  have sub: "map_of (ml_table ml) k = Some e" if "map_of (ml_table ml') k = Some e" for k e
  proof -
    have "k \<in> dom (map_of (ml_table ml'))" using that by blast
    with r(6) that show ?thesis by (auto simp: map_le_def)
  qed
  have stay: "map_of (ml_table ml') k = Some e"
    if k: "map_of (ml_table ml) k = Some e" "now < expires e" "length (ml_table ml) \<le> max_entries ml" for k e
  proof -
    have "k \<in> unexpired ml now" using k by (simp add: unexpired_def)
    then obtain e' where e': "map_of (ml_table ml') k = Some e'" using k(3) r(7) by blast
    with sub [OF e'] k(1) show ?thesis by simp
  qed
  have live: "now < expires e" if "map_of (ml_table ml') k = Some e" for k e
  proof -
    have "k \<in> unexpired ml now" using r(5) that by blast
    with sub [OF that] show ?thesis by (simp add: unexpired_def)
  qed
  define ml'' where "ml'' = ml'\<lparr>need_revalidate := False\<rparr>"
  have run: "mac_learning_run ml now = Some (ml'', need_revalidate ml')"
    using r(1) by (simp add: mac_learning_run_def ml''_def)
  have inv: "ml_inv now ml''" using ml_ok_later [OF r(2) assms(2)] by (simp add: ml''_def)
  have len: "length (ml_table ml'') \<le> max_entries ml''" using r(3,4) by (simp add: same_config_def ml''_def)
  have tbl: "ml_table ml'' = ml_table ml'" by (simp add: ml''_def)
  show ?thesis
    using run inv len unfolding tbl
    by (intro exI [of _ ml''] exI [of _ "need_revalidate ml'"] conjI allI impI)
      (assumption | rule live sub stay | unfold tbl)+
qed

theorem mac_learning_run_ages_witness:
  "\<exists>ml' b. mac_learning_run ml_two 401 = Some (ml', b) \<and> length (ml_table ml') = 1 \<and> ml_inv 401 ml'"
proof -
  have "length (ml_table (fst (the (mac_learning_run ml_two 401)))) = 1"
    by (simp add: ml_two_def ml_one_def ml_eval)
  with mac_learning_run_ages [OF ml_two_inv, of 401] show ?thesis by auto
qed

end
