(* ===== verification/TokenBucket.thy ===== *)
theory TokenBucket
  imports Prelude
begin

text \<open>
  Rate limiting: the saturating arithmetic of \<open>lib/sat-math.h\<close> and the token bucket of
  \<open>lib/token-bucket.c\<close>. The clock (\<open>time_msec\<close>, in milliseconds) is an argument.

  Shown: the saturating operations clamp the exact result, and the portable versions agree
  with the ones built on the compiler's overflow checks; the bucket never holds more than its
  burst; what a bucket grants in any period is bounded by twice its burst and its rate times
  the length of the period, and the factor two is reached; the wake-up time it computes is
  late enough.
\<close>

subsection \<open>Saturating arithmetic\<close>

definition UINT_MAX :: u32 where "UINT_MAX = 4294967295"
definition LLONG_MAX :: int where "LLONG_MAX = 9223372036854775807"
definition LLONG_MIN :: int where "LLONG_MIN = - 9223372036854775808"

definition sat_add :: "u32 \<Rightarrow> u32 \<Rightarrow> u32" where
  "sat_add x y = (if x + y \<ge> x then x + y else UINT_MAX)"

definition sat_sub :: "u32 \<Rightarrow> u32 \<Rightarrow> u32" where
  "sat_sub x y = (if x \<ge> y then x - y else 0)"

definition sat_mul :: "u32 \<Rightarrow> u32 \<Rightarrow> u32" where
  "sat_mul x y = (if y = 0 then 0 else if x \<le> UINT_MAX div y then x * y else UINT_MAX)"

text \<open>The portable versions, with the machine's \<open>long long\<close> arithmetic (none of the
  operations they perform overflows, so \<open>int\<close> arithmetic is that of the machine).\<close>

definition llsat_add_portable :: "int \<Rightarrow> int \<Rightarrow> int" where
  "llsat_add_portable x y =
     (if x \<ge> 0 \<and> y \<ge> 0 \<and> x > LLONG_MAX - y then LLONG_MAX
      else if x < 0 \<and> y < 0 \<and> x < LLONG_MIN - y then LLONG_MIN
      else x + y)"

definition llsat_sub_portable :: "int \<Rightarrow> int \<Rightarrow> int" where
  "llsat_sub_portable x y =
     (if x \<ge> 0 \<and> y < 0 \<and> x > LLONG_MAX + y then LLONG_MAX
      else if x < 0 \<and> y \<ge> 0 \<and> x < LLONG_MIN + y then LLONG_MIN
      else x - y)"

definition llsat_mul_portable :: "int \<Rightarrow> int \<Rightarrow> int" where
  "llsat_mul_portable x y =
     (if x > 0 \<and> y > 0 \<and> x > c_div LLONG_MAX y then LLONG_MAX
      else if x < 0 \<and> y > 0 \<and> x < c_div LLONG_MIN y then LLONG_MIN
      else if x > 0 \<and> y < 0 \<and> y < c_div LLONG_MIN x then LLONG_MIN
      else if x = LLONG_MIN \<and> y = - 1 then LLONG_MAX
      else if x < 0 \<and> y < 0 \<and> x < c_div LLONG_MAX y then LLONG_MAX
      else x * y)"

text \<open>The versions on the compiler's checked operations, which report whether the exact result
  is representable.\<close>

definition is_llong :: "int \<Rightarrow> bool" where
  "is_llong x \<longleftrightarrow> LLONG_MIN \<le> x \<and> x \<le> LLONG_MAX"

definition llsat_add :: "int \<Rightarrow> int \<Rightarrow> int" where
  "llsat_add x y = (if is_llong (x + y) then x + y else if x > 0 then LLONG_MAX else LLONG_MIN)"

definition llsat_sub :: "int \<Rightarrow> int \<Rightarrow> int" where
  "llsat_sub x y = (if is_llong (x - y) then x - y else if x \<ge> 0 then LLONG_MAX else LLONG_MIN)"

definition llsat_mul :: "int \<Rightarrow> int \<Rightarrow> int" where
  "llsat_mul x y =
     (if is_llong (x * y) then x * y
      else if (x > 0) = (y > 0) then LLONG_MAX else LLONG_MIN)"

subsection \<open>The token bucket\<close>

record token_bucket =
  tb_rate :: u32
  tb_burst :: u32
  tb_tokens :: u32
  tb_last_fill :: int

definition token_bucket_init :: "u32 \<Rightarrow> u32 \<Rightarrow> token_bucket" where
  "token_bucket_init rate burst =
     \<lparr>tb_rate = rate, tb_burst = burst, tb_tokens = 0, tb_last_fill = LLONG_MIN\<rparr>"

definition token_bucket_set :: "token_bucket \<Rightarrow> u32 \<Rightarrow> u32 \<Rightarrow> token_bucket" where
  "token_bucket_set tb rate burst =
     tb\<lparr>tb_rate := rate, tb_burst := burst,
        tb_tokens := (if burst < tb_tokens tb then burst else tb_tokens tb)\<rparr>"

definition elapsed_since :: "int \<Rightarrow> int \<Rightarrow> u32" where
  "elapsed_since last_fill now =
     (let elapsed_ull = (word_of_int (now - last_fill) :: u64)
      in if elapsed_ull > 4294967295 then UINT_MAX else ucast elapsed_ull)"

definition token_bucket_fill :: "token_bucket \<Rightarrow> int \<Rightarrow> token_bucket" where
  "token_bucket_fill tb now =
     (if now > tb_last_fill tb
      then let elapsed = elapsed_since (tb_last_fill tb) now;
               add = sat_mul (tb_rate tb) elapsed;
               tokens = sat_add (tb_tokens tb) add
           in tb\<lparr>tb_tokens := min tokens (tb_burst tb), tb_last_fill := now\<rparr>
      else tb)"

definition token_bucket_withdraw :: "token_bucket \<Rightarrow> u32 \<Rightarrow> int \<Rightarrow> token_bucket \<times> bool" where
  "token_bucket_withdraw tb n now =
     (let tb1 = (if tb_tokens tb < n then token_bucket_fill tb now else tb)
      in if tb_tokens tb1 < n then (tb1, False)
         else (tb1\<lparr>tb_tokens := tb_tokens tb1 - n\<rparr>, True))"

text \<open>When the poll loop should wake up. Division by a zero rate traps, which is
  \<open>None\<close>; \<open>Some None\<close> is an immediate wake-up.\<close>

definition token_bucket_wait_at :: "token_bucket \<Rightarrow> u32 \<Rightarrow> int option option" where
  "token_bucket_wait_at tb n =
     (if tb_tokens tb \<ge> n then Some None
      else if tb_rate tb = 0 then None
      else Some (Some (tb_last_fill tb + uint ((n - tb_tokens tb) div tb_rate tb) + 1)))"

subsection \<open>Saturation is clamping\<close>

lemma u32_less: "unat (x :: u32) < 4294967296"
  by (rule order_less_le_trans [OF unsigned_less]) simp

lemma unat_sat_add: "unat (sat_add x y) = min 4294967295 (unat x + unat y)"
proof (cases "unat x + unat y < 4294967296")
  case True
  then have "unat (x + y) = unat x + unat y" by (simp add: unat_word_ariths)
  then show ?thesis using True by (simp add: sat_add_def word_le_nat_alt)
next
  case False
  have "unat (x + y) = (unat x + unat y) mod 4294967296" by (simp add: unat_word_ariths)
  also have "\<dots> = unat x + unat y - 4294967296"
    using False u32_less [of x] u32_less [of y] by (simp add: mod_if)
  finally have "unat (x + y) < unat x" using u32_less [of y] False by linarith
  then show ?thesis using False by (simp add: sat_add_def word_le_nat_alt UINT_MAX_def)
qed

lemma unat_sat_sub: "unat (sat_sub x y) = unat x - unat y"
  by (auto simp: sat_sub_def word_le_nat_alt unat_sub)

lemma unat_sat_mul: "unat (sat_mul x y) = min 4294967295 (unat x * unat y)"
proof (cases "y = 0")
  case False
  then have y: "0 < unat y" by (simp add: unat_gt_0)
  have le: "x \<le> UINT_MAX div y \<longleftrightarrow> unat x * unat y \<le> 4294967295"
    using y by (simp add: word_le_nat_alt unat_div UINT_MAX_def less_eq_div_iff_mult_less_eq)
  show ?thesis
  proof (cases "unat x * unat y \<le> 4294967295")
    case True
    then have "unat (x * y) = unat x * unat y" by (simp add: unat_word_ariths)
    with True False le show ?thesis by (simp add: sat_mul_def)
  qed (use False le in \<open>simp add: sat_mul_def UINT_MAX_def\<close>)
qed (simp add: sat_mul_def)

definition llong_clamp :: "int \<Rightarrow> int" where
  "llong_clamp z = max LLONG_MIN (min LLONG_MAX z)"

lemmas llong_defs = llong_clamp_def is_llong_def LLONG_MAX_def LLONG_MIN_def

lemma int_div_less: "0 < y \<Longrightarrow> a div y < x \<longleftrightarrow> a < x * y" for a x y :: int
proof
  assume y: "0 < y" and "a div y < x"
  then have "y * (a div y + 1) \<le> y * x" by simp
  moreover have "a < y * (a div y + 1)"
    unfolding distrib_left mult_1_right using mult_div_mod_eq [of y a] pos_mod_bound [OF y, of a] by linarith
  ultimately show "a < x * y" by (simp add: mult.commute)
next
  assume y: "0 < y" and "a < x * y"
  moreover have "y * (a div y) \<le> a" using y mult_div_mod_eq [of y a] pos_mod_sign [of y a] by linarith
  ultimately have "y * (a div y) < y * x" unfolding mult.commute [of x y] by linarith
  then show "a div y < x" using y by simp
qed

lemma c_div_bounds:
  "0 < y \<Longrightarrow> 0 \<le> a \<Longrightarrow> x > c_div a y \<longleftrightarrow> a < x * y"
  "0 < y \<Longrightarrow> a < 0 \<Longrightarrow> x < c_div a y \<longleftrightarrow> x * y < a"
  "y < 0 \<Longrightarrow> 0 \<le> a \<Longrightarrow> x < c_div a y \<longleftrightarrow> a < x * y"
proof -
  assume "0 < y" "0 \<le> a"
  then show "x > c_div a y \<longleftrightarrow> a < x * y" by (simp add: c_div_def int_div_less)
next
  assume y: "0 < y" "a < 0"
  then have "x < c_div a y \<longleftrightarrow> (- a) div y < - x" by (auto simp: c_div_def)
  also have "\<dots> \<longleftrightarrow> - a < (- x) * y" using y(1) by (simp add: int_div_less)
  finally show "x < c_div a y \<longleftrightarrow> x * y < a" by simp
next
  assume y: "y < 0" "0 \<le> a"
  then have "x < c_div a y \<longleftrightarrow> a div (- y) < - x" by (auto simp: c_div_def)
  also have "\<dots> \<longleftrightarrow> a < (- x) * (- y)" using y(1) by (subst int_div_less) auto
  finally show "x < c_div a y \<longleftrightarrow> a < x * y" by simp
qed

lemma llsat_add_clamp: "is_llong x \<Longrightarrow> is_llong y \<Longrightarrow> llsat_add x y = llong_clamp (x + y)"
  by (auto simp: llsat_add_def llong_defs)

lemma llsat_sub_clamp: "is_llong x \<Longrightarrow> is_llong y \<Longrightarrow> llsat_sub x y = llong_clamp (x - y)"
  by (auto simp: llsat_sub_def llong_defs)

lemma mult_signs:
  fixes x y :: int
  obtains "x > 0" "y > 0" "x * y > 0" | "x < 0" "y > 0" "x * y < 0" | "x > 0" "y < 0" "x * y < 0"
    | "x < 0" "y < 0" "x * y > 0" | "x = 0 \<or> y = 0"
proof (cases "x = 0 \<or> y = 0")
  case True
  then show thesis by (rule that(5))
next
  case False
  show thesis
  proof (cases "x > 0"; cases "y > 0")
    assume "x > 0" "y > 0" then show thesis by (intro that(1)) auto
  next
    assume "x > 0" "\<not> y > 0" then show thesis using False by (intro that(3)) (auto simp: mult_pos_neg)
  next
    assume "\<not> x > 0" "y > 0" then show thesis using False by (intro that(2)) (auto simp: mult_neg_pos)
  next
    assume "\<not> x > 0" "\<not> y > 0" then show thesis using False by (intro that(4)) (auto simp: mult_neg_neg)
  qed
qed

lemma llong_signs: "0 < LLONG_MAX" "LLONG_MIN < 0" "0 \<le> LLONG_MAX"
  by (simp_all add: LLONG_MAX_def LLONG_MIN_def)

lemma llong_clamp_pos: "0 < p \<Longrightarrow> llong_clamp p = (if LLONG_MAX < p then LLONG_MAX else p)"
  using llong_signs by (auto simp: llong_clamp_def)

lemma llong_clamp_neg: "p < 0 \<Longrightarrow> llong_clamp p = (if p < LLONG_MIN then LLONG_MIN else p)"
  using llong_signs by (auto simp: llong_clamp_def)

lemma is_llong_pos: "0 < p \<Longrightarrow> is_llong p \<longleftrightarrow> \<not> LLONG_MAX < p"
  using llong_signs by (auto simp: is_llong_def)

lemma is_llong_neg: "p < 0 \<Longrightarrow> is_llong p \<longleftrightarrow> \<not> p < LLONG_MIN"
  using llong_signs by (auto simp: is_llong_def)

lemma llsat_mul_clamp: "llsat_mul x y = llong_clamp (x * y)"
proof (cases rule: mult_signs [of x y])
  case 1
  then show ?thesis by (simp only: llsat_mul_def llong_clamp_pos [OF 1(3)] is_llong_pos [OF 1(3)]) simp
next
  case 2
  then show ?thesis by (simp only: llsat_mul_def llong_clamp_neg [OF 2(3)] is_llong_neg [OF 2(3)]) simp
next
  case 3
  then show ?thesis by (simp only: llsat_mul_def llong_clamp_neg [OF 3(3)] is_llong_neg [OF 3(3)]) simp
next
  case 4
  then show ?thesis by (simp only: llsat_mul_def llong_clamp_pos [OF 4(3)] is_llong_pos [OF 4(3)]) simp
qed (auto simp: llsat_mul_def llong_defs)

lemma llsat_mul_portable_clamp: "llsat_mul_portable x y = llong_clamp (x * y)"
proof (cases rule: mult_signs [of x y])
  case 1
  then show ?thesis
    unfolding llong_clamp_pos [OF 1(3)] llsat_mul_portable_def c_div_bounds(1) [OF 1(2) llong_signs(3)] by simp
next
  case 2
  then show ?thesis
    unfolding llong_clamp_neg [OF 2(3)] llsat_mul_portable_def c_div_bounds(2) [OF 2(2) llong_signs(2)] by simp
next
  case 3
  then show ?thesis
    unfolding llong_clamp_neg [OF 3(3)] llsat_mul_portable_def c_div_bounds(2) [OF 3(1) llong_signs(2)]
    by (simp add: mult.commute)
next
  case 4
  have "x * y = LLONG_MAX + 1" if "x = LLONG_MIN" "y = - 1" using that by (simp add: LLONG_MAX_def LLONG_MIN_def)
  with 4 show ?thesis
    unfolding llong_clamp_pos [OF 4(3)] llsat_mul_portable_def c_div_bounds(3) [OF 4(2) llong_signs(3)] by simp
next
  case 5
  moreover have "llong_clamp 0 = 0" using llong_signs by (simp add: llong_clamp_def)
  ultimately show ?thesis using llong_signs by (elim disjE) (simp_all add: llsat_mul_portable_def)
qed

text \<open>C16: the saturating operations return the exact sum, difference or product clamped into
  the range of their type, and the portable versions for \<open>long long\<close> compute the same
  as the ones on the compiler's overflow checks.\<close>

theorem saturating_arithmetic_clamps:
  assumes "is_llong a" "is_llong b"
  shows "unat (sat_add x y) = min 4294967295 (unat x + unat y) \<and> unat (sat_sub x y) = unat x - unat y \<and>
    unat (sat_mul x y) = min 4294967295 (unat x * unat y) \<and>
    llsat_add a b = llong_clamp (a + b) \<and> llsat_add_portable a b = llsat_add a b \<and>
    llsat_sub a b = llong_clamp (a - b) \<and> llsat_sub_portable a b = llsat_sub a b \<and>
    llsat_mul a b = llong_clamp (a * b) \<and> llsat_mul_portable a b = llsat_mul a b"
proof -
  have "llsat_add_portable a b = llsat_add a b"
    using assms by (auto simp: llsat_add_portable_def llsat_add_def llong_defs)
  moreover have "llsat_sub_portable a b = llsat_sub a b"
    using assms by (auto simp: llsat_sub_portable_def llsat_sub_def llong_defs)
  ultimately show ?thesis
    using assms by (simp add: unat_sat_add unat_sat_sub unat_sat_mul llsat_add_clamp llsat_sub_clamp
        llsat_mul_clamp llsat_mul_portable_clamp)
qed

theorem saturating_arithmetic_clamps_witness:
  "llsat_mul_portable LLONG_MIN (- 1) = LLONG_MAX \<and> llsat_add (- 3) LLONG_MIN = LLONG_MIN \<and>
   unat (sat_mul 70000 70000) = 4294967295"
  using saturating_arithmetic_clamps [of LLONG_MIN "- 1" 70000 70000]
    saturating_arithmetic_clamps [of "- 3" LLONG_MIN 0 0]
  by (simp add: llong_defs)

subsection \<open>What a bucket grants\<close>

lemma token_bucket_fill_simps [simp]:
  "tb_rate (token_bucket_fill tb now) = tb_rate tb" "tb_burst (token_bucket_fill tb now) = tb_burst tb"
  by (simp_all add: token_bucket_fill_def Let_def)

lemma unat_elapsed:
  assumes "is_llong now" "is_llong t0" "t0 < now"
  shows "unat (elapsed_since t0 now) = min 4294967295 (nat (now - t0))"
proof -
  have "now - t0 < 2 ^ 64" using assms by (simp add: is_llong_def LLONG_MIN_def LLONG_MAX_def)
  then have u: "unat (word_of_int (now - t0) :: u64) = nat (now - t0)"
    using assms(3) by (simp add: unsigned_of_int take_bit_int_eq_self nat_eq_iff2 del: of_int_diff)
  have c: "unat (ucast w :: u32) = unat w" if "unat w \<le> 4294967295" for w :: u64
    using that by (simp add: unsigned_ucast_eq take_bit_nat_eq_self)
  show ?thesis
  proof (cases "nat (now - t0) \<le> 4294967295")
    case True
    then show ?thesis using u c [of "word_of_int (now - t0)"]
      by (simp add: elapsed_since_def Let_def word_less_nat_alt del: of_int_diff)
  next
    case False
    then show ?thesis using u
      by (simp add: elapsed_since_def Let_def word_less_nat_alt UINT_MAX_def del: of_int_diff)
  qed
qed

lemma token_bucket_fill_tokens:
  assumes "is_llong now" "is_llong (tb_last_fill tb)" "tb_last_fill tb < now"
  shows "unat (tb_tokens (token_bucket_fill tb now)) =
    min (unat (tb_burst tb)) (min 4294967295 (unat (tb_tokens tb) +
      min 4294967295 (unat (tb_rate tb) * min 4294967295 (nat (now - tb_last_fill tb)))))"
proof -
  have "unat (min a b) = min (unat b) (unat a)" for a b :: u32
    by (simp add: min_def word_le_nat_alt)
  then show ?thesis
    using assms(3) by (simp add: token_bucket_fill_def Let_def unat_sat_add unat_sat_mul unat_elapsed [OF assms])
qed

text \<open>A sequence of withdrawals \<open>(n, now)\<close>: the bucket after it and the number of tokens
  granted.\<close>

fun withdrawals :: "token_bucket \<Rightarrow> (u32 \<times> int) list \<Rightarrow> token_bucket \<times> nat" where
  "withdrawals tb [] = (tb, 0)"
| "withdrawals tb ((n, now) # rs) =
     (let (tb1, ok) = token_bucket_withdraw tb n now;
          (tb2, granted) = withdrawals tb1 rs
      in (tb2, (if ok then unat n else 0) + granted))"

definition tb_ok :: "token_bucket \<Rightarrow> bool" where
  "tb_ok tb \<longleftrightarrow> tb_tokens tb \<le> tb_burst tb \<and> is_llong (tb_last_fill tb)"

lemma token_bucket_withdraw_frame:
  "token_bucket_withdraw tb n now = (tb', ok) \<Longrightarrow> tb_rate tb' = tb_rate tb \<and> tb_burst tb' = tb_burst tb"
  by (auto simp: token_bucket_withdraw_def Let_def split: if_splits)

lemma token_bucket_fill_ok:
  assumes "tb_ok tb" "is_llong now" shows "tb_ok (token_bucket_fill tb now)"
  using assms by (auto simp: tb_ok_def token_bucket_fill_def Let_def)

lemma token_bucket_withdraw_ok:
  assumes "tb_ok tb" "is_llong now" "token_bucket_withdraw tb n now = (tb', ok)"
  shows "tb_ok tb'"
proof -
  define tb1 where "tb1 = (if tb_tokens tb < n then token_bucket_fill tb now else tb)"
  have ok1: "tb_ok tb1" using assms(1,2) token_bucket_fill_ok by (simp add: tb1_def)
  have "tb_tokens tb1 - n \<le> tb_burst tb1" if "\<not> tb_tokens tb1 < n"
    using ok1 that by (auto simp: tb_ok_def word_le_nat_alt word_less_nat_alt unat_sub intro: le_trans [OF diff_le_self])
  then show ?thesis
    using assms(3) ok1
    by (auto simp: token_bucket_withdraw_def Let_def tb_ok_def simp flip: tb1_def split: if_splits)
qed

text \<open>What the bucket could grant at time \<open>t\<close>: its tokens, and the tokens that have accrued
  since the last fill but cannot exceed the burst.\<close>

definition tb_credit :: "token_bucket \<Rightarrow> int \<Rightarrow> nat" where
  "tb_credit tb t = unat (tb_tokens tb) +
     min (unat (tb_burst tb)) (unat (tb_rate tb) * nat (t - tb_last_fill tb))"

lemma credit_arith: "x \<le> a \<Longrightarrow> min b (min c (t + x)) \<le> t + min b a" for a b c t x :: nat
  by (simp add: min_def)

lemma tb_credit_fill:
  assumes "tb_ok tb" "is_llong now"
  shows "tb_credit (token_bucket_fill tb now) now \<le> tb_credit tb now"
proof (cases "tb_last_fill tb < now")
  case True
  have "unat (tb_rate tb) * min 4294967295 (nat (now - tb_last_fill tb))
      \<le> unat (tb_rate tb) * nat (now - tb_last_fill tb)"
    by (rule mult_le_mono2) simp
  then have "min 4294967295 (unat (tb_rate tb) * min 4294967295 (nat (now - tb_last_fill tb)))
      \<le> unat (tb_rate tb) * nat (now - tb_last_fill tb)"
    by (rule min.coboundedI2)
  then have "unat (tb_tokens (token_bucket_fill tb now)) \<le> tb_credit tb now"
    using token_bucket_fill_tokens [of now tb] assms True credit_arith
    unfolding tb_ok_def tb_credit_def by presburger
  moreover have "tb_last_fill (token_bucket_fill tb now) = now"
    using True by (simp add: token_bucket_fill_def Let_def)
  ultimately show ?thesis by (simp add: tb_credit_def)
qed (simp add: token_bucket_fill_def)

lemma tb_credit_withdraw:
  assumes "tb_ok tb" "is_llong now" "token_bucket_withdraw tb n now = (tb', ok)"
  shows "(if ok then unat n else 0) + tb_credit tb' now \<le> tb_credit tb now"
proof -
  define tb1 where "tb1 = (if tb_tokens tb < n then token_bucket_fill tb now else tb)"
  have le: "tb_credit tb1 now \<le> tb_credit tb now"
    using tb_credit_fill [OF assms(1,2)] by (simp add: tb1_def)
  show ?thesis
  proof (cases "tb_tokens tb1 < n")
    case True
    with assms(3) le show ?thesis
      by (auto simp: token_bucket_withdraw_def Let_def simp flip: tb1_def)
  next
    case False
    then have "unat n \<le> unat (tb_tokens tb1)" by (simp add: word_less_nat_alt)
    moreover have "tb' = tb1\<lparr>tb_tokens := tb_tokens tb1 - n\<rparr>" "ok"
      using assms(3) False by (auto simp: token_bucket_withdraw_def Let_def simp flip: tb1_def)
    ultimately have "unat n + tb_credit tb' now = tb_credit tb1 now"
      by (simp add: tb_credit_def unat_sub word_le_nat_alt)
    with le \<open>ok\<close> show ?thesis by simp
  qed
qed

lemma tb_credit_later:
  assumes "t \<le> t'"
  shows "tb_credit tb t' \<le> tb_credit tb t + unat (tb_rate tb) * nat (t' - t)"
proof -
  have "nat (t' - tb_last_fill tb) \<le> nat (t - tb_last_fill tb) + nat (t' - t)" using assms by linarith
  then have "unat (tb_rate tb) * nat (t' - tb_last_fill tb)
      \<le> unat (tb_rate tb) * nat (t - tb_last_fill tb) + unat (tb_rate tb) * nat (t' - t)"
    unfolding add_mult_distrib2 [symmetric] by (rule mult_le_mono2)
  then show ?thesis by (simp add: tb_credit_def)
qed

lemma withdrawals_bound:
  assumes "tb_ok tb" "\<forall>(n, now) \<in> set rs. is_llong now" "sorted (a # map snd rs @ [b])"
  shows "snd (withdrawals tb rs) \<le> tb_credit tb a + unat (tb_rate tb) * nat (b - a)"
  using assms
proof (induction rs arbitrary: tb a)
  case (Cons r rs)
  obtain n now where r: "r = (n, now)" by (cases r)
  obtain tb1 ok where w: "token_bucket_withdraw tb n now = (tb1, ok)" by (cases "token_bucket_withdraw tb n now")
  have now: "is_llong now" "a \<le> now" "now \<le> b" "sorted (now # map snd rs @ [b])"
    using Cons.prems by (auto simp: r)
  have "snd (withdrawals tb1 rs) \<le> tb_credit tb1 now + unat (tb_rate tb1) * nat (b - now)"
    using Cons.prems(2) now(4) token_bucket_withdraw_ok [OF Cons.prems(1) now(1) w]
    by (intro Cons.IH) auto
  moreover have "(if ok then unat n else 0) + tb_credit tb1 now \<le> tb_credit tb now"
    by (rule tb_credit_withdraw [OF Cons.prems(1) now(1) w])
  moreover have "tb_rate tb1 = tb_rate tb" using token_bucket_withdraw_frame [OF w] by simp
  moreover have "tb_credit tb now \<le> tb_credit tb a + unat (tb_rate tb) * nat (now - a)"
    by (rule tb_credit_later [OF now(2)])
  moreover have "nat (b - a) = nat (now - a) + nat (b - now)" using now by linarith
  ultimately show ?case by (simp add: r w case_prod_beta add_mult_distrib2)
qed simp

lemma withdrawals_ok:
  assumes "tb_ok tb" "\<forall>(n, now) \<in> set rs. is_llong now"
  shows "tb_ok (fst (withdrawals tb rs))"
  using assms
proof (induction rs arbitrary: tb)
  case (Cons r rs)
  obtain n now where r: "r = (n, now)" by (cases r)
  obtain tb1 ok where w: "token_bucket_withdraw tb n now = (tb1, ok)" by (cases "token_bucket_withdraw tb n now")
  have "tb_ok tb1" using Cons.prems token_bucket_withdraw_ok [OF Cons.prems(1) _ w] by (auto simp: r)
  with Cons.IH [of tb1] Cons.prems(2) show ?case by (simp add: r w case_prod_beta)
qed simp

text \<open>C14: whatever is asked of a bucket between the times \<open>a\<close> and \<open>b\<close>, the
  tokens granted are at most twice the burst plus the rate times \<open>b - a\<close>, and the bucket
  never holds more than its burst. The second burst is there because a withdrawal that the
  held tokens cover leaves the fill time alone, so that the time before \<open>a\<close> still pays
  for one fill.\<close>

theorem token_bucket_rate_limit:
  assumes "tb_ok tb" "\<forall>(n, now) \<in> set rs. is_llong now" "sorted (a # map snd rs @ [b])"
  shows "snd (withdrawals tb rs) \<le> 2 * unat (tb_burst tb) + unat (tb_rate tb) * nat (b - a) \<and>
    tb_ok (fst (withdrawals tb rs))"
proof -
  have "unat (tb_tokens tb) \<le> unat (tb_burst tb)" using assms(1) by (simp add: tb_ok_def word_le_nat_alt)
  then have "tb_credit tb a \<le> 2 * unat (tb_burst tb)" by (simp add: tb_credit_def)
  with withdrawals_bound [OF assms] have
    "snd (withdrawals tb rs) \<le> 2 * unat (tb_burst tb) + unat (tb_rate tb) * nat (b - a)" by linarith
  with withdrawals_ok [OF assms(1,2)] show ?thesis by simp
qed

definition full_bucket :: token_bucket where
  "full_bucket = \<lparr>tb_rate = 1, tb_burst = 10, tb_tokens = 10, tb_last_fill = 0\<rparr>"

lemmas tb_eval = token_bucket_withdraw_def token_bucket_fill_def elapsed_since_def sat_add_def sat_mul_def
  UINT_MAX_def Let_def

text \<open>The bound is reached: a bucket of ten tokens that was last filled long ago grants twenty
  tokens within one millisecond.\<close>

theorem token_bucket_rate_limit_witness:
  "tb_ok full_bucket \<and> snd (withdrawals full_bucket [(10, 5000), (10, 5000)]) = 20 \<and>
   snd (withdrawals full_bucket [(10, 5000), (10, 5000)]) \<le> 2 * 10 + 1 * 0"
proof -
  have ok: "tb_ok full_bucket" by (simp add: tb_ok_def full_bucket_def is_llong_def LLONG_MIN_def LLONG_MAX_def)
  have times: "\<forall>(n, now) \<in> set [(10 :: u32, 5000 :: int), (10, 5000)]. is_llong now"
    by (simp add: is_llong_def LLONG_MIN_def LLONG_MAX_def)
  have "snd (withdrawals full_bucket [(10, 5000), (10, 5000)]) = 20"
    by (simp add: full_bucket_def tb_eval)
  with ok token_bucket_rate_limit [OF ok times, of 5000 5000] show ?thesis
    by (simp add: full_bucket_def)
qed

lemma fill_arith:
  "n \<le> b \<Longrightarrow> n \<le> c \<Longrightarrow> n - t \<le> x \<Longrightarrow> n \<le> min b (min c (t + min c x))" for b c n t x :: nat
  by auto

text \<open>C15: the wake-up time is late enough: a caller that waits until the time
  \<open>token_bucket_wait\<close> names gets its tokens, if it asks for no more than the burst.\<close>

theorem token_bucket_wait_suffices:
  assumes "tb_ok tb" "is_llong now" "n \<le> tb_burst tb" "token_bucket_wait_at tb n = Some w"
    "case w of None \<Rightarrow> True | Some t \<Rightarrow> t \<le> now"
  shows "snd (token_bucket_withdraw tb n now)"
proof (cases "tb_tokens tb < n")
  case False
  then show ?thesis by (simp add: token_bucket_withdraw_def)
next
  case True
  let ?need = "unat n - unat (tb_tokens tb)" and ?r = "unat (tb_rate tb)"
  have r: "0 < ?r" and w: "w = Some (tb_last_fill tb + uint ((n - tb_tokens tb) div tb_rate tb) + 1)"
    using assms(4) True by (auto simp: token_bucket_wait_at_def unat_gt_0 split: if_splits)
  have q: "uint ((n - tb_tokens tb) div tb_rate tb) = int (?need div ?r)"
    using True by (simp add: uint_nat unat_div unat_sub order_less_imp_le)
  have t: "tb_last_fill tb + int (?need div ?r) + 1 \<le> now" using assms(5) w q by simp
  then have d: "?need div ?r < nat (now - tb_last_fill tb)" "tb_last_fill tb < now" by linarith+
  have n: "unat n \<le> 4294967295" "unat n \<le> unat (tb_burst tb)"
    using u32_less [of n] assms(3) by (simp_all add: word_le_nat_alt)
  have "?need \<le> ?r * min 4294967295 (nat (now - tb_last_fill tb))"
  proof (cases "nat (now - tb_last_fill tb) \<le> 4294967295")
    case True
    have "?need < ?r * nat (now - tb_last_fill tb)"
      using d(1) r by (simp add: div_less_iff_less_mult mult.commute)
    with True show ?thesis by simp
  next
    case False
    have "?need \<le> 1 * 4294967295" using n(1) by simp
    also have "\<dots> \<le> ?r * 4294967295" using r by (intro mult_le_mono1) simp
    finally show ?thesis using False by simp
  qed
  then have "unat n \<le> unat (tb_tokens (token_bucket_fill tb now))"
    using fill_arith [OF n(2,1)] assms(1)
    unfolding token_bucket_fill_tokens [OF assms(2) assms(1) [unfolded tb_ok_def, THEN conjunct2] d(2)] by simp
  then show ?thesis using True by (simp add: token_bucket_withdraw_def Let_def word_less_nat_alt)
qed

theorem token_bucket_wait_suffices_witness:
  "token_bucket_wait_at (full_bucket\<lparr>tb_tokens := 2\<rparr>) 9 = Some (Some 8) \<and>
   snd (token_bucket_withdraw (full_bucket\<lparr>tb_tokens := 2\<rparr>) 9 8)"
proof -
  have w: "token_bucket_wait_at (full_bucket\<lparr>tb_tokens := 2\<rparr>) 9 = Some (Some 8)"
    by (simp add: token_bucket_wait_at_def full_bucket_def)
  have "tb_ok (full_bucket\<lparr>tb_tokens := 2\<rparr>)" "is_llong 8" "9 \<le> tb_burst (full_bucket\<lparr>tb_tokens := 2\<rparr>)"
    by (simp_all add: tb_ok_def full_bucket_def is_llong_def LLONG_MIN_def LLONG_MAX_def)
  from token_bucket_wait_suffices [OF this w] w show ?thesis by simp
qed

end
