(* ===== verification/Csum.thy ===== *)
theory Csum
  imports Prelude
begin

text \<open>
  The Internet checksum of \<open>lib/csum.c\<close> and \<open>lib/csum.h\<close>. Data are lists of bytes; a
  16-bit load is in the byte order of the host, which is an argument (\<open>True\<close> when
  \<open>WORDS_BIGENDIAN\<close> is defined), so that an \<open>ovs_be16\<close> is here, as in the code, the
  value the host sees.

  Shown: the fold of \<open>csum_finish\<close> ends and is the ones' complement of the sum modulo
  65535; the checksum has the same bytes on both kinds of host; data with their checksum in
  place check to zero; the incremental updates \<open>recalc_csum16\<close>, \<open>recalc_csum32\<close>,
  \<open>recalc_csum48\<close> and \<open>recalc_csum128\<close> give what checksumming the changed data anew would.
\<close>

subsection \<open>Definitions\<close>

definition csum_add16 :: "u32 \<Rightarrow> u16 \<Rightarrow> u32" where
  "csum_add16 partial new = partial + ucast new"

definition csum_add32 :: "u32 \<Rightarrow> u32 \<Rightarrow> u32" where
  "csum_add32 partial new = partial + drop_bit 16 new + (new AND 0xffff)"

definition load16 :: "bool \<Rightarrow> u8 \<Rightarrow> u8 \<Rightarrow> u16" where
  "load16 be a b = (if be then ucast a * 256 + ucast b else ucast b * 256 + ucast a)"

definition store16 :: "bool \<Rightarrow> u16 \<Rightarrow> u8 list" where
  "store16 be x = (if be then [ucast (drop_bit 8 x), ucast x] else [ucast x, ucast (drop_bit 8 x)])"

fun csum_continue :: "bool \<Rightarrow> u32 \<Rightarrow> u8 list \<Rightarrow> u32" where
  "csum_continue be partial [] = partial"
| "csum_continue be partial [a] = (if be then partial + ucast a * 256 else partial + ucast a)"
| "csum_continue be partial (a # b # rest) = csum_continue be (csum_add16 partial (load16 be a b)) rest"

lemma nat_low16: "n AND 65535 = n mod 65536" for n :: nat
proof -
  have "n AND 65535 = take_bit 16 n" by (simp add: take_bit_eq_mask mask_eq_exp_minus_1)
  then show ?thesis by (simp add: take_bit_eq_mod)
qed

lemma u32_bound: "unat (p :: u32) < 4294967296"
  by (rule order_less_le_trans [OF unsigned_less]) simp

lemma u16_bound: "unat (p :: u16) < 65536"
  by (rule order_less_le_trans [OF unsigned_less]) simp

lemma unat_low16: "unat (p AND 0xffff) = unat p mod 65536" for p :: u32
  by (simp add: unsigned_and_eq nat_low16)

lemma unat_high16: "unat (drop_bit 16 p) = unat p div 65536" for p :: u32
  by (simp add: drop_bit_eq_div unat_div)

lemma u32_fold: "unat ((p AND 0xffff) + drop_bit 16 p) = unat p mod 65536 + unat p div 65536" for p :: u32
proof -
  have "unat p div 65536 < 65536" using u32_bound [of p] by (simp add: less_mult_imp_div_less)
  moreover have "unat p mod 65536 < 65536" by simp
  ultimately have "unat p mod 65536 + unat p div 65536 < 4294967296" by linarith
  then show ?thesis by (simp add: unat_word_ariths unat_low16 unat_high16)
qed

function csum_fold :: "u32 \<Rightarrow> u32" where
  "csum_fold partial =
     (if drop_bit 16 partial \<noteq> 0 then csum_fold ((partial AND 0xffff) + drop_bit 16 partial) else partial)"
  by pat_completeness auto
termination
proof (relation "measure unat", goal_cases)
  case (2 p)
  then have "0 < unat p div 65536" by (simp flip: unat_high16 add: unat_gt_0)
  then have "unat p mod 65536 + unat p div 65536 < unat p mod 65536 + unat p div 65536 * 65536" by linarith
  then show ?case by (simp add: u32_fold)
qed simp

declare csum_fold.simps [simp del]

definition csum_finish :: "u32 \<Rightarrow> u16" where
  "csum_finish partial = NOT (ucast (csum_fold partial))"

definition csum :: "bool \<Rightarrow> u8 list \<Rightarrow> u16" where
  "csum be data = csum_finish (csum_continue be 0 data)"

definition recalc_csum16 :: "u16 \<Rightarrow> u16 \<Rightarrow> u16 \<Rightarrow> u16" where
  "recalc_csum16 old_csum old_u16 new_u16 =
     (let hc_complement = NOT old_csum; m_complement = NOT old_u16; m_prime = new_u16;
          sum = (ucast hc_complement + ucast m_complement + ucast m_prime :: u32)
      in csum_finish sum)"

definition recalc_csum32 :: "u16 \<Rightarrow> u32 \<Rightarrow> u32 \<Rightarrow> u16" where
  "recalc_csum32 old_csum old_u32 new_u32 =
     recalc_csum16 (recalc_csum16 old_csum (ucast old_u32) (ucast new_u32))
       (ucast (drop_bit 16 old_u32)) (ucast (drop_bit 16 new_u32))"

definition recalc_csum48 :: "u16 \<Rightarrow> u16 list \<Rightarrow> u16 list \<Rightarrow> u16" where
  "recalc_csum48 old_csum old_mac new_mac =
     fold (\<lambda>i new_csum. recalc_csum16 new_csum (old_mac ! i) (new_mac ! i)) [0..<3] old_csum"

definition recalc_csum128 :: "u16 \<Rightarrow> u32 list \<Rightarrow> u32 list \<Rightarrow> u16" where
  "recalc_csum128 old_csum old_u32 new_u32 =
     fold (\<lambda>i new_csum. recalc_csum32 new_csum (old_u32 ! i) (new_u32 ! i)) [0..<4] old_csum"

subsection \<open>Folding is reduction modulo 65535\<close>

text \<open>The representative of \<open>n\<close> modulo 65535 that the fold gives: zero only for zero.\<close>

definition fold16 :: "nat \<Rightarrow> nat" where
  "fold16 n = (if n = 0 then 0 else (n - 1) mod 65535 + 1)"

lemma fold16_small: "n < 65536 \<Longrightarrow> fold16 n = n"
  by (simp add: fold16_def)

lemma fold16_add: "0 < n \<Longrightarrow> fold16 (n + 65535 * d) = fold16 n"
proof -
  assume n: "0 < n"
  then have "n + 65535 * d - 1 = n - 1 + 65535 * d" by simp
  then have "(n + 65535 * d - 1) mod 65535 = (n - 1) mod 65535" by (metis mod_mult_self2)
  with n show ?thesis by (simp add: fold16_def)
qed

lemma fold16_bounds: "fold16 n \<le> 65535" "0 < n \<Longrightarrow> 0 < fold16 n"
proof -
  have "(n - 1) mod 65535 < 65535" by simp
  then show "fold16 n \<le> 65535" unfolding fold16_def by (cases "n = 0") simp_all
  show "0 < n \<Longrightarrow> 0 < fold16 n" by (simp add: fold16_def)
qed

lemma fold16_cong: "fold16 n mod 65535 = n mod 65535"
  by (simp add: fold16_def mod_Suc_eq)

lemma fold16_unique:
  assumes "0 < f" "f \<le> 65535" "f mod 65535 = n mod 65535" "0 < n"
  shows "f = fold16 n"
proof -
  have "fold16 n mod 65535 = f mod 65535" using assms(3) fold16_cong by simp
  moreover have "0 < fold16 n" "fold16 n \<le> 65535" using fold16_bounds assms(4) by auto
  ultimately show ?thesis using assms(1,2) by (cases "f = 65535"; cases "fold16 n = 65535") auto
qed

lemma unat_csum_fold: "unat (csum_fold p) = fold16 (unat p)"
proof (induction p rule: csum_fold.induct)
  case (1 p)
  have split: "unat p = unat p mod 65536 + unat p div 65536 + 65535 * (unat p div 65536)"
    using mod_mult_div_eq [of "unat p" 65536] by linarith
  show ?case
  proof (cases "drop_bit 16 p = 0")
    case True
    then have "unat p div 65536 = 0" by (simp flip: unat_high16)
    then have "unat p < 65536" by (simp add: div_eq_0_iff)
    with True show ?thesis by (simp add: csum_fold.simps [of p] fold16_small)
  next
    case False
    then have "0 < unat p mod 65536 + unat p div 65536" by (simp flip: unat_high16 add: unat_gt_0)
    then have "fold16 (unat p) = fold16 (unat p mod 65536 + unat p div 65536)"
      by (subst split) (rule fold16_add)
    with False 1 show ?thesis by (simp add: csum_fold.simps [of p] u32_fold)
  qed
qed

lemma unat_not16: "unat (NOT x) = 65535 - unat x" for x :: u16
proof -
  have "NOT x = - 1 - x" by (simp add: not_eq_complement)
  then show ?thesis by (simp add: unat_sub unsigned_minus_1_eq_mask mask_eq_exp_minus_1)
qed

lemma unat_ucast_u16: "unat (ucast p :: u16) = unat p mod 65536" for p :: u32
  by (simp add: unsigned_ucast_eq take_bit_eq_mod)

lemma unat_csum_finish: "unat (csum_finish p) = 65535 - fold16 (unat p)"
proof -
  have "fold16 (unat p) mod 65536 = fold16 (unat p)"
    using fold16_bounds(1) [of "unat p"] by (intro mod_less) linarith
  then show ?thesis by (simp add: csum_finish_def unat_not16 unat_ucast_u16 unat_csum_fold)
qed

subsection \<open>The sum of the data\<close>

fun sum16 :: "bool \<Rightarrow> u8 list \<Rightarrow> nat" where
  "sum16 be [] = 0"
| "sum16 be [a] = (if be then unat a * 256 else unat a)"
| "sum16 be (a # b # rest) = unat (load16 be a b) + sum16 be rest"

lemma unat_ucast_up: "unat (ucast (x :: u16) :: u32) = unat x" "unat (ucast (b :: u8) :: u32) = unat b"
  "unat (ucast (b :: u8) :: u16) = unat b"
  by (simp_all add: unsigned_ucast_eq take_bit_nat_eq_self order_less_le_trans [OF unsigned_less])

lemma unat_load16: "unat (load16 be a b) = (if be then unat a * 256 + unat b else unat b * 256 + unat a)"
proof -
  have "unat (ucast x * 256 + ucast y :: u16) = unat x * 256 + unat y" for x y :: u8
    using unat_u8 [of x] unat_u8 [of y] by (simp add: unat_word_ariths unat_ucast_up)
  then show ?thesis by (simp add: load16_def)
qed

lemma sum16_bound: "sum16 be bs \<le> 65535 * ((length bs + 1) div 2)"
proof (induction be bs rule: sum16.induct)
  case (2 be a)
  then show ?case using unat_u8 [of a] by simp
next
  case (3 be a b rest)
  then show ?case using u16_bound [of "load16 be a b"] by simp
qed simp

lemma sum16_append: "even (length xs) \<Longrightarrow> sum16 be (xs @ ys) = sum16 be xs + sum16 be ys"
  by (induction be xs rule: sum16.induct) auto

lemma unat_csum_continue:
  "unat p + sum16 be bs < 4294967296 \<Longrightarrow> unat (csum_continue be p bs) = unat p + sum16 be bs"
proof (induction be p bs rule: csum_continue.induct)
  case (2 be p a)
  then show ?case using unat_u8 [of a] by (auto simp: unat_word_ariths unat_ucast_up)
next
  case (3 be p a b rest)
  have "unat (csum_add16 p (load16 be a b)) = unat p + unat (load16 be a b)"
    using 3 by (simp add: csum_add16_def unat_word_ariths unat_ucast_up)
  with 3 show ?case by simp
qed simp

lemma sum16_small: "length bs \<le> 131072 \<Longrightarrow> sum16 be bs < 4294967296"
proof -
  assume "length bs \<le> 131072"
  then have "(length bs + 1) div 2 \<le> 65536" by simp
  then have "65535 * ((length bs + 1) div 2) \<le> 65535 * 65536" by (rule mult_le_mono2)
  with sum16_bound [of be bs] show ?thesis by linarith
qed

lemma unat_csum: "length bs \<le> 131072 \<Longrightarrow> unat (csum be bs) = 65535 - fold16 (sum16 be bs)"
  using unat_csum_continue [of 0 be bs] sum16_small [of bs be] by (simp add: csum_def unat_csum_finish)

lemma sum16_zero: "sum16 be bs = 0 \<longleftrightarrow> set bs \<subseteq> {0}"
  by (induction be bs rule: sum16.induct) (auto simp: unat_load16 unat_eq_0)

lemma u16_bytes: "unat (drop_bit 8 x) = unat x div 256" "unat (ucast x :: u8) = unat x mod 256"
  "unat x div 256 mod 256 = unat x div 256" for x :: u16
  using u16_bound [of x]
  by (simp_all add: unsigned_ucast_eq take_bit_eq_mod drop_bit_eq_div unat_div less_mult_imp_div_less)

lemma store16_bytes:
  obtains a b where "store16 be x = [a, b]" "load16 be a b = x"
proof -
  have "unat (load16 True (ucast (drop_bit 8 x)) (ucast x)) = unat x"
    "unat (load16 False (ucast x) (ucast (drop_bit 8 x))) = unat x"
    by (simp_all add: unat_load16 u16_bytes)
  then have "load16 True (ucast (drop_bit 8 x)) (ucast x) = x" "load16 False (ucast x) (ucast (drop_bit 8 x)) = x"
    by (simp_all add: word_unat_eq_iff)
  then show thesis using that by (cases be) (auto simp: store16_def)
qed

lemma sum16_store16 [simp]: "sum16 be (store16 be x @ ys) = unat x + sum16 be ys" "length (store16 be x) = 2"
  by (rule store16_bytes [of be x]; simp)+

subsection \<open>Byte order and verification\<close>

lemma sum16_swap: "sum16 False bs mod 65535 = 256 * sum16 True bs mod 65535"
proof (induction bs rule: induct_list012)
  case (2 a)
  have "256 * (unat a * 256) = unat a + 65535 * unat a" by simp
  then show ?case by (simp only: sum16.simps if_True if_False mod_mult_self2)
next
  case (3 a b rest)
  have w: "unat (load16 False a b) mod 65535 = 256 * unat (load16 True a b) mod 65535"
  proof -
    have "256 * (unat a * 256 + unat b) = unat b * 256 + unat a + 65535 * unat a" by simp
    then show ?thesis by (simp only: unat_load16 if_True if_False mod_mult_self2)
  qed
  have "sum16 False (a # b # rest) mod 65535 =
      (256 * unat (load16 True a b) + 256 * sum16 True rest) mod 65535"
    using w 3(1) by (simp only: sum16.simps) (rule mod_add_cong)
  then show ?case by (simp only: sum16.simps distrib_left)
qed simp

definition swap16 :: "nat \<Rightarrow> nat" where
  "swap16 f = f mod 256 * 256 + f div 256"

lemma swap16_pair: "r < 256 \<Longrightarrow> swap16 (q * 256 + r) = r * 256 + q"
  by (simp add: swap16_def)

lemma swap16_fold16: "fold16 (sum16 False bs) = swap16 (fold16 (sum16 True bs))"
proof (cases "sum16 True bs = 0")
  case True
  then have "sum16 False bs = 0" by (simp add: sum16_zero)
  with True show ?thesis by (simp add: fold16_def swap16_def)
next
  case False
  define f where "f = fold16 (sum16 True bs)"
  have f: "0 < f" "f \<le> 65535" using False fold16_bounds by (auto simp: f_def)
  have "0 < swap16 f" using f(1) by (cases "f mod 256 = 0") (auto simp: swap16_def div_greater_zero_iff)
  moreover have "swap16 f \<le> 65535"
  proof -
    have "f mod 256 < 256" "f div 256 < 256" using f(2) by auto
    then show ?thesis unfolding swap16_def by linarith
  qed
  moreover have "swap16 f mod 65535 = sum16 False bs mod 65535"
  proof -
    have "256 * f = swap16 f + 65535 * (f div 256)"
      using mod_mult_div_eq [of f 256] unfolding swap16_def by linarith
    then have "swap16 f mod 65535 = 256 * f mod 65535" by (simp only: mod_mult_self2)
    also have "\<dots> = 256 * (f mod 65535) mod 65535" by (simp only: mod_mult_right_eq)
    also have "\<dots> = 256 * sum16 True bs mod 65535" unfolding f_def fold16_cong by (simp only: mod_mult_right_eq)
    finally show ?thesis by (simp add: sum16_swap)
  qed
  moreover have "0 < sum16 False bs" using False by (simp add: sum16_zero flip: neq0_conv)
  ultimately show ?thesis using fold16_unique [of "swap16 f" "sum16 False bs"] by (simp add: f_def)
qed

text \<open>The checksum of the same bytes, stored back to memory, is the same two bytes on a
  big-endian and on a little-endian host, as the comment on \<open>csum\<close> promises.\<close>

lemma csum_byte_order_independent:
  assumes "length data \<le> 131072"
  shows "store16 True (csum True data) = store16 False (csum False data)"
proof -
  define f where "f = fold16 (sum16 True data)"
  have f: "f \<le> 65535" using fold16_bounds by (simp add: f_def)
  have t: "unat (csum True data) = 65535 - f" using unat_csum [OF assms] by (simp add: f_def)
  have u: "unat (csum False data) = 65535 - swap16 f"
    using unat_csum [OF assms] by (simp add: f_def swap16_fold16)
  have "65535 - swap16 f = swap16 (65535 - f)"
  proof -
    define q r where "q = f div 256" and "r = f mod 256"
    then have qr: "f = q * 256 + r" "r < 256" "q < 256" using f by (simp_all add: less_mult_imp_div_less)
    have "65535 - f = (255 - q) * 256 + (255 - r)" using qr by simp
    then have "swap16 (65535 - f) = (255 - r) * 256 + (255 - q)" using swap16_pair [of "255 - r" "255 - q"] by simp
    moreover have "swap16 f = r * 256 + q" unfolding qr(1) by (rule swap16_pair [OF qr(2)])
    ultimately show ?thesis using qr by simp
  qed
  then have "unat (csum False data) = swap16 (unat (csum True data))" using t u by simp
  moreover have "unat (csum True data) div 256 < 256" using u16_bound [of "csum True data"] by simp
  ultimately have "unat (csum False data) mod 256 = unat (csum True data) div 256"
    "unat (csum False data) div 256 = unat (csum True data) mod 256"
    by (simp_all add: swap16_def)
  then show ?thesis by (simp add: store16_def word_unat_eq_iff u16_bytes)
qed

text \<open>C19: a packet that carries its own checksum (computed with the field cleared, at an even
  offset) checks to zero, which is how every receiver validates it.\<close>

theorem csum_verifies:
  assumes "even (length xs)" "length xs + length ys + 2 \<le> 131072"
    "c = csum be (xs @ store16 be 0 @ ys)"
  shows "csum be (xs @ store16 be c @ ys) = 0"
proof -
  define n where "n = sum16 be (xs @ ys)"
  have s: "sum16 be (xs @ store16 be x @ ys) = unat x + n" for x
    using assms(1) by (simp add: sum16_append n_def)
  have c: "unat c = 65535 - fold16 n" using assms s [of 0] by (simp add: unat_csum)
  have f: "fold16 n \<le> 65535" by (rule fold16_bounds)
  have "(unat c + n) mod 65535 = 0"
  proof -
    have "(65535 - fold16 n + n) mod 65535 = (65535 - fold16 n + fold16 n) mod 65535"
      by (rule mod_add_cong) (simp_all add: fold16_cong)
    then show ?thesis using c f by simp
  qed
  moreover have "0 < unat c + n"
    using c f by (cases "n = 0") (auto simp: fold16_def)
  ultimately have "fold16 (unat c + n) = 65535" using fold16_unique [of 65535 "unat c + n"] by simp
  then show ?thesis using assms(2) by (simp add: word_unat_eq_iff unat_csum s)
qed

theorem csum_verifies_witness:
  "csum False ([1, 2, 3, 4] @ store16 False (csum False ([1, 2, 3, 4] @ store16 False 0 @ [5])) @ [5]) = 0"
  using csum_verifies [of "[1, 2, 3, 4]" "[5]" "csum False ([1, 2, 3, 4] @ store16 False 0 @ [5])" False] by simp

subsection \<open>Incremental update\<close>

text \<open>\<open>csum_rep c n\<close>: the checksum \<open>c\<close> stands for data of sum \<open>n\<close>, in one of the two
  representations of a sum that is zero.\<close>

definition csum_rep :: "u16 \<Rightarrow> nat \<Rightarrow> bool" where
  "csum_rep c n \<longleftrightarrow> (65535 - unat c) mod 65535 = n mod 65535 \<and> (0 < n \<longrightarrow> 0 < 65535 - unat c)"

lemma csum_rep_csum: "length bs \<le> 131072 \<Longrightarrow> csum_rep (csum be bs) (sum16 be bs)"
  using fold16_bounds [of "sum16 be bs"] by (simp add: csum_rep_def unat_csum fold16_cong)

lemma csum_rep_eq:
  assumes "csum_rep c (sum16 be bs)" "0 < sum16 be bs" "length bs \<le> 131072"
  shows "c = csum be bs"
proof -
  have "65535 - unat c = fold16 (sum16 be bs)"
    using assms by (intro fold16_unique) (auto simp: csum_rep_def)
  moreover have "unat c \<le> 65535" using u16_bound [of c] by simp
  ultimately show ?thesis using assms(3) by (simp add: word_unat_eq_iff unat_csum)
qed

lemma recalc_csum16_rep:
  assumes "csum_rep c (unat m + n)"
  shows "csum_rep (recalc_csum16 c m m') (unat m' + n)"
proof -
  define f where "f = 65535 - unat c"
  have b: "unat c \<le> 65535" "unat m \<le> 65535" "unat m' \<le> 65535"
    using u16_bound [of c] u16_bound [of m] u16_bound [of m'] by auto
  define t where "t = f + (65535 - unat m) + unat m'"
  have "unat (ucast (NOT c) + ucast (NOT m) + ucast m' :: u32) = t"
    using b by (simp add: unat_word_ariths unat_ucast_up unat_not16 t_def f_def)
  then have r: "unat (recalc_csum16 c m m') = 65535 - fold16 t"
    by (simp add: recalc_csum16_def unat_csum_finish Let_def)
  have f: "f mod 65535 = (unat m + n) mod 65535" "0 < unat m + n \<longrightarrow> 0 < f"
    using assms by (auto simp: csum_rep_def f_def)
  have "0 < t" using f(2) b(2) by (cases "unat m = 65535") (auto simp: t_def)
  then have pos: "0 < fold16 t" by (rule fold16_bounds)
  have "t mod 65535 = (unat m' + n) mod 65535"
  proof -
    have "t mod 65535 = (f + (65535 - unat m + unat m')) mod 65535" by (simp add: t_def add.assoc)
    also have "\<dots> = (unat m + n + (65535 - unat m + unat m')) mod 65535"
      by (rule mod_add_cong) (simp_all add: f(1))
    also have "unat m + n + (65535 - unat m + unat m') = unat m' + n + 65535 * 1" using b(2) by simp
    finally show ?thesis by (simp only: mod_mult_self2)
  qed
  then show ?thesis
    using pos fold16_bounds(1) [of t] by (simp add: csum_rep_def r fold16_cong)
qed

lemma recalc_csum16_fold:
  "csum_rep c (sum_list (map (\<lambda>(old, new). unat old) ws) + n) \<Longrightarrow>
   csum_rep (fold (\<lambda>(old, new) c. recalc_csum16 c old new) ws c) (sum_list (map (\<lambda>(old, new). unat new) ws) + n)"
proof (induction ws arbitrary: c n)
  case (Cons w ws)
  obtain o1 n1 where w: "w = (o1, n1)" by (cases w)
  have "csum_rep c (unat o1 + (sum_list (map (\<lambda>(old, new). unat old) ws) + n))"
    using Cons.prems by (simp add: w add.assoc)
  from recalc_csum16_rep [OF this, of n1]
  have "csum_rep (recalc_csum16 c o1 n1) (sum_list (map (\<lambda>(old, new). unat old) ws) + (unat n1 + n))"
    by (simp add: add.left_commute)
  from Cons.IH [OF this] show ?case by (simp add: w add.left_commute add.assoc)
qed simp

definition words16 :: "bool \<Rightarrow> u16 list \<Rightarrow> u8 list" where
  "words16 be ws = concat (map (store16 be) ws)"

lemma words16_simps: "words16 be [] = []" "words16 be (w # ws) = store16 be w @ words16 be ws"
  by (simp_all add: words16_def)

lemma length_words16 [simp]: "length (words16 be ws) = 2 * length ws"
  by (induction ws) (simp_all add: words16_simps)

lemma sum16_words16: "sum16 be (words16 be ws @ ys) = sum_list (map unat ws) + sum16 be ys"
  by (induction ws) (simp_all add: words16_simps)

lemma sum16_words: "even (length xs) \<Longrightarrow> sum16 be (xs @ words16 be ws @ ys) = sum_list (map unat ws) + sum16 be (xs @ ys)"
  by (simp add: sum16_append sum16_words16)

text \<open>Updating the checksum word by word, in any order, gives the checksum of the new data,
  unless these are all zero.\<close>

lemma recalc_data:
  assumes "sum16 be old = sum_list (map (\<lambda>(a, b). unat a) ws) + n"
    "sum16 be new = sum_list (map (\<lambda>(a, b). unat b) ws) + n"
    "length old \<le> 131072" "length new \<le> 131072" "\<not> set new \<subseteq> {0}"
  shows "fold (\<lambda>(a, b) c. recalc_csum16 c a b) ws (csum be old) = csum be new"
proof -
  have "csum_rep (csum be old) (sum_list (map (\<lambda>(a, b). unat a) ws) + n)"
    using csum_rep_csum [OF assms(3), of be] unfolding assms(1) .
  from recalc_csum16_fold [OF this]
  have "csum_rep (fold (\<lambda>(a, b) c. recalc_csum16 c a b) ws (csum be old)) (sum16 be new)"
    unfolding assms(2) .
  moreover have "0 < sum16 be new" using assms(5) sum16_zero [of be new] by simp
  ultimately show ?thesis using assms(4) by (rule csum_rep_eq)
qed

definition store32 :: "bool \<Rightarrow> u32 \<Rightarrow> u8 list" where
  "store32 be x = words16 be (if be then [ucast (drop_bit 16 x), ucast x] else [ucast x, ucast (drop_bit 16 x)])"

lemma length_store32 [simp]: "length (store32 be x) = 4"
  by (simp add: store32_def)

lemma sum16_store32: "sum16 be (store32 be x @ ys) =
    unat (ucast x :: u16) + unat (ucast (drop_bit 16 x) :: u16) + sum16 be ys"
  by (simp add: store32_def sum16_words16)

definition halves :: "u32 \<Rightarrow> u32 \<Rightarrow> (u16 \<times> u16) list" where
  "halves old new = [(ucast old, ucast new), (ucast (drop_bit 16 old), ucast (drop_bit 16 new))]"

lemma recalc_csum32_fold: "recalc_csum32 c old new = fold (\<lambda>(a, b) c. recalc_csum16 c a b) (halves old new) c"
  by (simp add: recalc_csum32_def halves_def)

text \<open>C17: changing a 16-bit or a 32-bit field at an even offset and updating the checksum with
  \<open>recalc_csum16\<close> or \<open>recalc_csum32\<close> gives the checksum that summing the new data from
  scratch gives, whenever the rest of the data is not all zero (a zero sum has two
  representations).\<close>

theorem recalc_csum_is_recomputation:
  assumes "even (length xs)" "length xs + length ys + 4 \<le> 131072" "\<not> set (xs @ ys) \<subseteq> {0}"
  shows "recalc_csum16 (csum be (xs @ store16 be old @ ys)) old new = csum be (xs @ store16 be new @ ys) \<and>
    recalc_csum32 (csum be (xs @ store32 be old32 @ ys)) old32 new32 = csum be (xs @ store32 be new32 @ ys)"
proof
  have "fold (\<lambda>(a, b) c. recalc_csum16 c a b) [(old, new)] (csum be (xs @ store16 be old @ ys))
      = csum be (xs @ store16 be new @ ys)"
    using assms by (intro recalc_data [where n = "sum16 be (xs @ ys)"]) (auto simp: sum16_append)
  then show "recalc_csum16 (csum be (xs @ store16 be old @ ys)) old new = csum be (xs @ store16 be new @ ys)"
    by simp
  show "recalc_csum32 (csum be (xs @ store32 be old32 @ ys)) old32 new32 = csum be (xs @ store32 be new32 @ ys)"
    unfolding recalc_csum32_fold using assms
    by (intro recalc_data [where n = "sum16 be (xs @ ys)"]) (auto simp: sum16_append sum16_store32 halves_def)
qed

theorem recalc_csum_is_recomputation_witness:
  "recalc_csum32 (csum False ([69, 0] @ store32 False 7 @ [9])) 7 0xffffffff
     = csum False ([69, 0] @ store32 False 0xffffffff @ [9])"
  using recalc_csum_is_recomputation [of "[69, 0]" "[9]" False 0 0 7 "0xffffffff"] by simp

text \<open>The sequence of fields a MAC address and an IPv6 address consist of.\<close>

definition words32 :: "bool \<Rightarrow> u32 list \<Rightarrow> u8 list" where
  "words32 be ws = concat (map (store32 be) ws)"

lemma words32_simps: "words32 be [] = []" "words32 be (w # ws) = store32 be w @ words32 be ws"
  by (simp_all add: words32_def)

lemma length_words32 [simp]: "length (words32 be ws) = 4 * length ws"
  by (induction ws) (simp_all add: words32_simps)

lemma length_3: "length xs = 3 \<Longrightarrow> \<exists>a b c. xs = [a, b, c]"
  by (auto simp: numeral_3_eq_3 length_Suc_conv)

lemma length_4: "length xs = 4 \<Longrightarrow> \<exists>a b c d. xs = [a, b, c, d]"
  by (auto simp: eval_nat_numeral length_Suc_conv)

text \<open>C18: the same for the three words of a MAC address (\<open>recalc_csum48\<close>) and the four
  32-bit words of an IPv6 address (\<open>recalc_csum128\<close>).\<close>

theorem recalc_csum_address_is_recomputation:
  assumes "even (length xs)" "length xs + length ys + 16 \<le> 131072" "\<not> set (xs @ ys) \<subseteq> {0}"
    "length old_mac = 3" "length new_mac = 3" "length old6 = 4" "length new6 = 4"
  shows "recalc_csum48 (csum be (xs @ words16 be old_mac @ ys)) old_mac new_mac
      = csum be (xs @ words16 be new_mac @ ys) \<and>
    recalc_csum128 (csum be (xs @ words32 be old6 @ ys)) old6 new6 = csum be (xs @ words32 be new6 @ ys)"
proof
  obtain a b c a' b' c' where m: "old_mac = [a, b, c]" "new_mac = [a', b', c']"
    using length_3 [OF assms(4)] length_3 [OF assms(5)] by blast
  have "fold (\<lambda>(a, b) c. recalc_csum16 c a b) [(a, a'), (b, b'), (c, c')] (csum be (xs @ words16 be old_mac @ ys))
      = csum be (xs @ words16 be new_mac @ ys)"
    using assms by (intro recalc_data [where n = "sum16 be (xs @ ys)"]) (auto simp: sum16_words m)
  then show "recalc_csum48 (csum be (xs @ words16 be old_mac @ ys)) old_mac new_mac
      = csum be (xs @ words16 be new_mac @ ys)"
    by (simp add: recalc_csum48_def m numeral_3_eq_3)
  obtain p q r s p' q' r' s' where w: "old6 = [p, q, r, s]" "new6 = [p', q', r', s']"
    using length_4 [OF assms(6)] length_4 [OF assms(7)] by blast
  have "fold (\<lambda>(a, b) c. recalc_csum16 c a b) (halves p p' @ halves q q' @ halves r r' @ halves s s')
      (csum be (xs @ words32 be old6 @ ys)) = csum be (xs @ words32 be new6 @ ys)"
    using assms
    by (intro recalc_data [where n = "sum16 be (xs @ ys)"])
      (auto simp: sum16_append words32_simps sum16_store32 w halves_def)
  then show "recalc_csum128 (csum be (xs @ words32 be old6 @ ys)) old6 new6 = csum be (xs @ words32 be new6 @ ys)"
    by (simp add: recalc_csum128_def w recalc_csum32_fold upt_rec)
qed

theorem recalc_csum_address_is_recomputation_witness:
  "recalc_csum48 (csum False ([1, 2] @ words16 False [1, 2, 3] @ [])) [1, 2, 3] [7, 8, 9]
     = csum False ([1, 2] @ words16 False [7, 8, 9] @ [])"
  using recalc_csum_address_is_recomputation [of "[1, 2]" "[]" "[1, 2, 3]" "[7, 8, 9]" "[1, 2, 3, 4]" "[5, 6, 7, 8]" False]
  by simp

end
