(* ===== verification/Reconnect.thy ===== *)
theory Reconnect
  imports TokenBucket "HOL-Library.Monad_Syntax"
begin

text \<open>
  The connection manager of \<open>lib/reconnect.c\<close> and \<open>lib/reconnect.h\<close>: a finite-state
  machine that tells a client when to connect, probe and disconnect. Times are milliseconds,
  \<open>LLONG_MAX\<close> standing for never; \<open>unsigned int\<close> counters are 32-bit words. Log
  messages are left out. \<open>None\<close> is the abort of the assertion in
  \<open>reconnect_deadline__\<close>.

  Shown: the sequence number tells in every reachable state whether the machine is connected
  and how many connections there were; the back-off grows from the minimum to the maximum and
  stays there while attempts fail; the timeout the machine computes is exact; the inactivity
  probe works as documented.
\<close>

subsection \<open>Data\<close>

datatype rc_state = S_VOID | S_BACKOFF | S_CONNECTING | S_ACTIVE | S_IDLE | S_RECONNECT | S_LISTENING

datatype reconnect_action = RECONNECT_CONNECT | RECONNECT_DISCONNECT | RECONNECT_PROBE

record reconnect =
  rc_name :: string
  min_backoff :: int
  max_backoff :: int
  probe_interval :: int
  rc_passive :: bool
  rc_quiet :: bool
  rc_state :: rc_state
  state_entered :: int
  backoff :: int
  last_activity :: int
  last_connected :: int
  last_disconnected :: int
  last_receive_attempt :: int
  max_tries :: u32
  backoff_free_tries :: u32
  creation_time :: int
  n_attempted_connections :: u32
  n_successful_connections :: u32
  total_connected_duration :: u32
  rc_seqno :: u32

record reconnect_stats =
  st_creation_time :: int
  st_last_activity :: int
  st_last_connected :: int
  st_last_disconnected :: int
  st_backoff :: int
  st_seqno :: u32
  st_is_connected :: bool
  st_msec_since_connect :: u32
  st_msec_since_disconnect :: u32
  st_total_connected_duration :: u32
  st_n_attempted_connections :: u32
  st_n_successful_connections :: u32
  st_state :: string
  st_state_elapsed :: u32

definition RECONNECT_DEFAULT_MIN_BACKOFF :: int where "RECONNECT_DEFAULT_MIN_BACKOFF = 1000"
definition RECONNECT_DEFAULT_MAX_BACKOFF :: int where "RECONNECT_DEFAULT_MAX_BACKOFF = 8000"
definition RECONNECT_DEFAULT_PROBE_INTERVAL :: int where "RECONNECT_DEFAULT_PROBE_INTERVAL = 5000"

subsection \<open>Operations\<close>

definition is_connected_state :: "rc_state \<Rightarrow> bool" where
  "is_connected_state s \<longleftrightarrow> s \<in> {S_ACTIVE, S_IDLE}"

fun reconnect_state_name :: "rc_state \<Rightarrow> string" where
  "reconnect_state_name S_VOID = ''VOID''"
| "reconnect_state_name S_BACKOFF = ''BACKOFF''"
| "reconnect_state_name S_CONNECTING = ''CONNECTING''"
| "reconnect_state_name S_ACTIVE = ''ACTIVE''"
| "reconnect_state_name S_IDLE = ''IDLE''"
| "reconnect_state_name S_RECONNECT = ''RECONNECT''"
| "reconnect_state_name S_LISTENING = ''LISTENING''"

definition reconnect_create :: "int \<Rightarrow> reconnect" where
  "reconnect_create now =
     \<lparr>rc_name = ''void'', min_backoff = RECONNECT_DEFAULT_MIN_BACKOFF,
      max_backoff = RECONNECT_DEFAULT_MAX_BACKOFF, probe_interval = RECONNECT_DEFAULT_PROBE_INTERVAL,
      rc_passive = False, rc_quiet = False, rc_state = S_VOID, state_entered = now, backoff = 0,
      last_activity = now, last_connected = LLONG_MAX, last_disconnected = LLONG_MAX,
      last_receive_attempt = now, max_tries = UINT_MAX, backoff_free_tries = 0, creation_time = now,
      n_attempted_connections = 0, n_successful_connections = 0, total_connected_duration = 0, rc_seqno = 0\<rparr>"

definition reconnect_set_quiet :: "reconnect \<Rightarrow> bool \<Rightarrow> reconnect" where
  "reconnect_set_quiet fsm quiet = fsm\<lparr>rc_quiet := quiet\<rparr>"

definition reconnect_set_name :: "reconnect \<Rightarrow> string option \<Rightarrow> reconnect" where
  "reconnect_set_name fsm name = fsm\<lparr>rc_name := (case name of None \<Rightarrow> ''void'' | Some n \<Rightarrow> n)\<rparr>"

definition reconnect_set_max_tries :: "reconnect \<Rightarrow> u32 \<Rightarrow> reconnect" where
  "reconnect_set_max_tries fsm n = fsm\<lparr>max_tries := n\<rparr>"

definition reconnect_set_backoff_free_tries :: "reconnect \<Rightarrow> u32 \<Rightarrow> reconnect" where
  "reconnect_set_backoff_free_tries fsm n = fsm\<lparr>backoff_free_tries := n\<rparr>"

definition reconnect_set_backoff :: "reconnect \<Rightarrow> int \<Rightarrow> int \<Rightarrow> reconnect" where
  "reconnect_set_backoff fsm min_b max_b =
     (let new_min = max min_b 1000;
          new_max = (if max_b \<noteq> 0 then max max_b 1000 else RECONNECT_DEFAULT_MAX_BACKOFF);
          fsm1 = fsm\<lparr>min_backoff := new_min, max_backoff := (if new_min > new_max then new_min else new_max)\<rparr>
      in if rc_state fsm1 = S_BACKOFF \<and> backoff fsm1 > max_b then fsm1\<lparr>backoff := max_b\<rparr> else fsm1)"

definition reconnect_set_probe_interval :: "reconnect \<Rightarrow> int \<Rightarrow> reconnect" where
  "reconnect_set_probe_interval fsm p = fsm\<lparr>probe_interval := (if p \<noteq> 0 then max 1000 p else 0)\<rparr>"

definition reconnect_transition :: "reconnect \<Rightarrow> int \<Rightarrow> rc_state \<Rightarrow> reconnect" where
  "reconnect_transition fsm now s =
     (let fsm1 = (if rc_state fsm = S_CONNECTING
                  then fsm\<lparr>n_attempted_connections := n_attempted_connections fsm + 1,
                           n_successful_connections := n_successful_connections fsm + (if s = S_ACTIVE then 1 else 0)\<rparr>
                  else fsm);
          fsm2 = (if is_connected_state (rc_state fsm1) \<noteq> is_connected_state s
                  then fsm1\<lparr>total_connected_duration := total_connected_duration fsm1 +
                              (if is_connected_state (rc_state fsm1)
                               then word_of_int (now - last_connected fsm1) else 0),
                            rc_seqno := rc_seqno fsm1 + 1\<rparr>
                  else fsm1)
      in fsm2\<lparr>rc_state := s, state_entered := now\<rparr>)"

definition reconnect_may_retry :: "reconnect \<Rightarrow> reconnect \<times> bool" where
  "reconnect_may_retry fsm =
     (let may_retry = max_tries fsm > 0
      in (if may_retry \<and> max_tries fsm \<noteq> UINT_MAX then fsm\<lparr>max_tries := max_tries fsm - 1\<rparr> else fsm, may_retry))"

definition reconnect_set_passive :: "reconnect \<Rightarrow> bool \<Rightarrow> int \<Rightarrow> reconnect" where
  "reconnect_set_passive fsm passive now =
     (if rc_passive fsm \<noteq> passive
      then let fsm1 = fsm\<lparr>rc_passive := passive\<rparr>;
               (fsm2, go) = (if passive then (fsm1, rc_state fsm1 \<in> {S_CONNECTING, S_RECONNECT})
                             else if rc_state fsm1 = S_LISTENING then reconnect_may_retry fsm1
                             else (fsm1, False))
           in if go then (reconnect_transition fsm2 now S_BACKOFF)\<lparr>backoff := 0\<rparr> else fsm2
      else fsm)"

definition reconnect_is_enabled :: "reconnect \<Rightarrow> bool" where
  "reconnect_is_enabled fsm \<longleftrightarrow> rc_state fsm \<noteq> S_VOID"

definition reconnect_enable :: "reconnect \<Rightarrow> int \<Rightarrow> reconnect" where
  "reconnect_enable fsm now =
     (if rc_state fsm = S_VOID
      then let (fsm1, may_retry) = reconnect_may_retry fsm
           in if may_retry then (reconnect_transition fsm1 now S_BACKOFF)\<lparr>backoff := 0\<rparr> else fsm1
      else fsm)"

definition reconnect_disable :: "reconnect \<Rightarrow> int \<Rightarrow> reconnect" where
  "reconnect_disable fsm now = (if rc_state fsm \<noteq> S_VOID then reconnect_transition fsm now S_VOID else fsm)"

definition reconnect_force_reconnect :: "reconnect \<Rightarrow> int \<Rightarrow> reconnect" where
  "reconnect_force_reconnect fsm now =
     (if rc_state fsm \<in> {S_CONNECTING, S_ACTIVE, S_IDLE} then reconnect_transition fsm now S_RECONNECT else fsm)"

text \<open>The choice of the next back-off in \<open>reconnect_disconnected\<close>.\<close>

definition reconnect_back_off :: "reconnect \<Rightarrow> reconnect" where
  "reconnect_back_off fsm =
     (if backoff_free_tries fsm > 1
      then fsm\<lparr>backoff_free_tries := backoff_free_tries fsm - 1, backoff := 0\<rparr>
      else if is_connected_state (rc_state fsm) \<and>
              (last_activity fsm - last_connected fsm \<ge> backoff fsm \<or> rc_passive fsm)
      then fsm\<lparr>backoff := (if rc_passive fsm then 0 else min_backoff fsm)\<rparr>
      else if backoff fsm < min_backoff fsm then fsm\<lparr>backoff := min_backoff fsm\<rparr>
      else if backoff fsm < c_div (max_backoff fsm) 2 then fsm\<lparr>backoff := backoff fsm * 2\<rparr>
      else fsm\<lparr>backoff := max_backoff fsm\<rparr>)"

definition reconnect_disconnected :: "reconnect \<Rightarrow> int \<Rightarrow> int \<Rightarrow> reconnect" where
  "reconnect_disconnected fsm now err =
     (if rc_state fsm \<notin> {S_BACKOFF, S_VOID}
      then let fsm1 = (if is_connected_state (rc_state fsm) then fsm\<lparr>last_disconnected := now\<rparr> else fsm);
               (fsm2, may_retry) = reconnect_may_retry fsm1
           in if \<not> may_retry then reconnect_transition fsm2 now S_VOID
              else reconnect_transition (reconnect_back_off fsm2) now S_BACKOFF
      else fsm)"

definition reconnect_connecting :: "reconnect \<Rightarrow> int \<Rightarrow> reconnect" where
  "reconnect_connecting fsm now =
     (if rc_state fsm \<noteq> S_CONNECTING then reconnect_transition fsm now S_CONNECTING else fsm)"

definition reconnect_listening :: "reconnect \<Rightarrow> int \<Rightarrow> reconnect" where
  "reconnect_listening fsm now =
     (if rc_state fsm \<noteq> S_LISTENING then reconnect_transition fsm now S_LISTENING else fsm)"

definition reconnect_listen_error :: "reconnect \<Rightarrow> int \<Rightarrow> int \<Rightarrow> reconnect" where
  "reconnect_listen_error fsm now err =
     (if rc_state fsm = S_LISTENING then reconnect_disconnected fsm now err else fsm)"

definition reconnect_connected :: "reconnect \<Rightarrow> int \<Rightarrow> reconnect" where
  "reconnect_connected fsm now =
     (if \<not> is_connected_state (rc_state fsm)
      then (reconnect_transition (reconnect_connecting fsm now) now S_ACTIVE)\<lparr>last_connected := now\<rparr>
      else fsm)"

definition reconnect_connect_failed :: "reconnect \<Rightarrow> int \<Rightarrow> int \<Rightarrow> reconnect" where
  "reconnect_connect_failed fsm now err = reconnect_disconnected (reconnect_connecting fsm now) now err"

definition reconnect_activity :: "reconnect \<Rightarrow> int \<Rightarrow> reconnect" where
  "reconnect_activity fsm now =
     (if rc_state fsm = S_IDLE then reconnect_transition fsm now S_ACTIVE else fsm)\<lparr>last_activity := now\<rparr>"

definition reconnect_receive_attempted :: "reconnect \<Rightarrow> int \<Rightarrow> reconnect" where
  "reconnect_receive_attempted fsm now = fsm\<lparr>last_receive_attempt := now\<rparr>"

definition reconnect_deadline :: "reconnect \<Rightarrow> int option" where
  "reconnect_deadline fsm =
     (if state_entered fsm = LLONG_MIN then None
      else Some (case rc_state fsm of
          S_VOID \<Rightarrow> LLONG_MAX
        | S_LISTENING \<Rightarrow> LLONG_MAX
        | S_BACKOFF \<Rightarrow> state_entered fsm + backoff fsm
        | S_CONNECTING \<Rightarrow> state_entered fsm + max 1000 (backoff fsm)
        | S_ACTIVE \<Rightarrow>
            (if probe_interval fsm \<noteq> 0
             then let base = max (last_activity fsm) (state_entered fsm);
                      expiration = base + probe_interval fsm
                  in if last_receive_attempt fsm \<ge> expiration then expiration else LLONG_MAX
             else LLONG_MAX)
        | S_IDLE \<Rightarrow>
            (if probe_interval fsm \<noteq> 0
             then let expiration = state_entered fsm + probe_interval fsm
                  in if last_receive_attempt fsm \<ge> expiration then expiration else LLONG_MAX
             else LLONG_MAX)
        | S_RECONNECT \<Rightarrow> state_entered fsm))"

definition reconnect_run :: "reconnect \<Rightarrow> int \<Rightarrow> (reconnect \<times> reconnect_action option) option" where
  "reconnect_run fsm now = do {
     deadline \<leftarrow> reconnect_deadline fsm;
     Some (if now \<ge> deadline
           then case rc_state fsm of
               S_VOID \<Rightarrow> (fsm, None)
             | S_BACKOFF \<Rightarrow> (fsm, Some RECONNECT_CONNECT)
             | S_CONNECTING \<Rightarrow> (fsm, Some RECONNECT_DISCONNECT)
             | S_ACTIVE \<Rightarrow> (reconnect_transition fsm now S_IDLE, Some RECONNECT_PROBE)
             | S_IDLE \<Rightarrow> (fsm, Some RECONNECT_DISCONNECT)
             | S_RECONNECT \<Rightarrow> (fsm, Some RECONNECT_DISCONNECT)
             | S_LISTENING \<Rightarrow> (fsm, None)
           else (fsm, None))
   }"

definition INT_MAX :: int where "INT_MAX = 2147483647"

definition reconnect_timeout :: "reconnect \<Rightarrow> int \<Rightarrow> int option" where
  "reconnect_timeout fsm now = do {
     deadline \<leftarrow> reconnect_deadline fsm;
     Some (if deadline \<noteq> LLONG_MAX
           then let remaining = deadline - now in max 0 (min INT_MAX remaining)
           else - 1)
   }"

text \<open>The time \<open>reconnect_wait\<close> asks the poll loop to sleep at most, if it asks at all.\<close>

definition reconnect_wait :: "reconnect \<Rightarrow> int \<Rightarrow> int option option" where
  "reconnect_wait fsm now = do {
     timeout \<leftarrow> reconnect_timeout fsm now;
     Some (if timeout \<ge> 0 then Some timeout else None)
   }"

definition reconnect_is_connected :: "reconnect \<Rightarrow> bool" where
  "reconnect_is_connected fsm \<longleftrightarrow> is_connected_state (rc_state fsm)"

definition reconnect_get_last_connect_elapsed :: "reconnect \<Rightarrow> int \<Rightarrow> u32" where
  "reconnect_get_last_connect_elapsed fsm now =
     (if last_connected fsm = LLONG_MAX then UINT_MAX else word_of_int (now - last_connected fsm))"

definition reconnect_get_last_disconnect_elapsed :: "reconnect \<Rightarrow> int \<Rightarrow> u32" where
  "reconnect_get_last_disconnect_elapsed fsm now =
     (if last_disconnected fsm = LLONG_MAX then UINT_MAX else word_of_int (now - last_disconnected fsm))"

definition reconnect_get_stats :: "reconnect \<Rightarrow> int \<Rightarrow> reconnect_stats" where
  "reconnect_get_stats fsm now =
     \<lparr>st_creation_time = creation_time fsm, st_last_activity = last_activity fsm,
      st_last_connected = last_connected fsm, st_last_disconnected = last_disconnected fsm,
      st_backoff = backoff fsm, st_seqno = rc_seqno fsm, st_is_connected = reconnect_is_connected fsm,
      st_msec_since_connect = reconnect_get_last_connect_elapsed fsm now,
      st_msec_since_disconnect = reconnect_get_last_disconnect_elapsed fsm now,
      st_total_connected_duration = total_connected_duration fsm +
        (if is_connected_state (rc_state fsm) then reconnect_get_last_connect_elapsed fsm now else 0),
      st_n_attempted_connections = n_attempted_connections fsm,
      st_n_successful_connections = n_successful_connections fsm,
      st_state = reconnect_state_name (rc_state fsm),
      st_state_elapsed = word_of_int (now - state_entered fsm)\<rparr>"

subsection \<open>Sequences of calls\<close>

datatype rc_call =
    SetQuiet bool | SetName "string option" | SetMaxTries u32 | SetBackoffFreeTries u32
  | SetBackoff int int | SetProbeInterval int | SetPassive bool int | Enable int | Disable int
  | ForceReconnect int | Disconnected int int | Connecting int | Listening int | ListenError int int
  | Connected int | ConnectFailed int int | Activity int | ReceiveAttempted int | RunAt int

fun rc_call_step :: "reconnect \<Rightarrow> rc_call \<Rightarrow> reconnect option" where
  "rc_call_step fsm (SetQuiet q) = Some (reconnect_set_quiet fsm q)"
| "rc_call_step fsm (SetName n) = Some (reconnect_set_name fsm n)"
| "rc_call_step fsm (SetMaxTries n) = Some (reconnect_set_max_tries fsm n)"
| "rc_call_step fsm (SetBackoffFreeTries n) = Some (reconnect_set_backoff_free_tries fsm n)"
| "rc_call_step fsm (SetBackoff a b) = Some (reconnect_set_backoff fsm a b)"
| "rc_call_step fsm (SetProbeInterval n) = Some (reconnect_set_probe_interval fsm n)"
| "rc_call_step fsm (SetPassive p now) = Some (reconnect_set_passive fsm p now)"
| "rc_call_step fsm (Enable now) = Some (reconnect_enable fsm now)"
| "rc_call_step fsm (Disable now) = Some (reconnect_disable fsm now)"
| "rc_call_step fsm (ForceReconnect now) = Some (reconnect_force_reconnect fsm now)"
| "rc_call_step fsm (Disconnected now err) = Some (reconnect_disconnected fsm now err)"
| "rc_call_step fsm (Connecting now) = Some (reconnect_connecting fsm now)"
| "rc_call_step fsm (Listening now) = Some (reconnect_listening fsm now)"
| "rc_call_step fsm (ListenError now err) = Some (reconnect_listen_error fsm now err)"
| "rc_call_step fsm (Connected now) = Some (reconnect_connected fsm now)"
| "rc_call_step fsm (ConnectFailed now err) = Some (reconnect_connect_failed fsm now err)"
| "rc_call_step fsm (Activity now) = Some (reconnect_activity fsm now)"
| "rc_call_step fsm (ReceiveAttempted now) = Some (reconnect_receive_attempted fsm now)"
| "rc_call_step fsm (RunAt now) = map_option fst (reconnect_run fsm now)"

fun call_time :: "rc_call \<Rightarrow> int" where
  "call_time (SetPassive p now) = now"
| "call_time (Enable now) = now"
| "call_time (Disable now) = now"
| "call_time (ForceReconnect now) = now"
| "call_time (Disconnected now err) = now"
| "call_time (Connecting now) = now"
| "call_time (Listening now) = now"
| "call_time (ListenError now err) = now"
| "call_time (Connected now) = now"
| "call_time (ConnectFailed now err) = now"
| "call_time (Activity now) = now"
| "call_time (RunAt now) = now"
| "call_time c = 0"

fun int_args :: "rc_call \<Rightarrow> bool" where
  "int_args (SetBackoff a b) = (a \<le> INT_MAX \<and> b \<le> INT_MAX)"
| "int_args c = True"

definition rc_step :: "reconnect option \<Rightarrow> rc_call \<Rightarrow> reconnect option" where
  "rc_step s c = Option.bind s (\<lambda>fsm. rc_call_step fsm c)"

definition rc_legal :: "reconnect option \<Rightarrow> rc_call \<Rightarrow> bool" where
  "rc_legal s c \<longleftrightarrow> call_time c \<noteq> LLONG_MIN \<and> int_args c"

definition rc_count_ok :: "reconnect \<Rightarrow> bool" where
  "rc_count_ok fsm \<longleftrightarrow> rc_seqno fsm = 2 * n_successful_connections fsm - of_bool (is_connected_state (rc_state fsm))"

definition rc_config_ok :: "reconnect \<Rightarrow> bool" where
  "rc_config_ok fsm \<longleftrightarrow> 1000 \<le> min_backoff fsm \<and> min_backoff fsm \<le> max_backoff fsm \<and> max_backoff fsm \<le> INT_MAX \<and>
     (probe_interval fsm = 0 \<or> 1000 \<le> probe_interval fsm)"

definition rc_inv :: "reconnect \<Rightarrow> bool" where
  "rc_inv fsm \<longleftrightarrow> rc_count_ok fsm \<and> rc_config_ok fsm \<and> state_entered fsm \<noteq> LLONG_MIN"

text \<open>A transition keeps the invariant unless it becomes active without having been connecting.\<close>

lemma transition_count:
  assumes "rc_count_ok fsm" "s = S_ACTIVE \<longrightarrow> rc_state fsm \<in> {S_CONNECTING, S_ACTIVE, S_IDLE}"
    "s = S_IDLE \<longrightarrow> is_connected_state (rc_state fsm)"
  shows "rc_count_ok (reconnect_transition fsm now s)"
  using assms
  by (cases s; cases "rc_state fsm")
    (auto simp: rc_count_ok_def reconnect_transition_def is_connected_state_def Let_def algebra_simps)

lemma transition_frame [simp]:
  "min_backoff (reconnect_transition fsm now s) = min_backoff fsm"
  "max_backoff (reconnect_transition fsm now s) = max_backoff fsm"
  "probe_interval (reconnect_transition fsm now s) = probe_interval fsm"
  "rc_state (reconnect_transition fsm now s) = s"
  "state_entered (reconnect_transition fsm now s) = now"
  "backoff (reconnect_transition fsm now s) = backoff fsm"
  "rc_passive (reconnect_transition fsm now s) = rc_passive fsm"
  "last_activity (reconnect_transition fsm now s) = last_activity fsm"
  "last_receive_attempt (reconnect_transition fsm now s) = last_receive_attempt fsm"
  "backoff_free_tries (reconnect_transition fsm now s) = backoff_free_tries fsm"
  "max_tries (reconnect_transition fsm now s) = max_tries fsm"
  by (simp_all add: reconnect_transition_def Let_def)

lemma transition_inv:
  "rc_inv fsm \<Longrightarrow> now \<noteq> LLONG_MIN \<Longrightarrow> s = S_ACTIVE \<longrightarrow> rc_state fsm \<in> {S_CONNECTING, S_ACTIVE, S_IDLE} \<Longrightarrow>
   s = S_IDLE \<longrightarrow> is_connected_state (rc_state fsm) \<Longrightarrow> rc_inv (reconnect_transition fsm now s)"
  by (simp add: rc_inv_def transition_count rc_config_ok_def)

lemma rc_inv_updates [simp]:
  "rc_inv (fsm\<lparr>backoff := b\<rparr>) = rc_inv fsm"
  "rc_inv (fsm\<lparr>rc_passive := p\<rparr>) = rc_inv fsm"
  "rc_inv (fsm\<lparr>last_disconnected := t\<rparr>) = rc_inv fsm"
  "rc_inv (fsm\<lparr>last_connected := t\<rparr>) = rc_inv fsm"
  "rc_inv (fsm\<lparr>last_activity := t\<rparr>) = rc_inv fsm"
  "rc_inv (fsm\<lparr>last_receive_attempt := t\<rparr>) = rc_inv fsm"
  "rc_inv (fsm\<lparr>max_tries := n\<rparr>) = rc_inv fsm"
  "rc_inv (fsm\<lparr>backoff_free_tries := n\<rparr>) = rc_inv fsm"
  "rc_inv (fsm\<lparr>backoff_free_tries := n, backoff := b\<rparr>) = rc_inv fsm"
  "rc_inv (fsm\<lparr>rc_quiet := q\<rparr>) = rc_inv fsm"
  "rc_inv (fsm\<lparr>rc_name := nm\<rparr>) = rc_inv fsm"
  by (simp_all add: rc_inv_def rc_count_ok_def rc_config_ok_def)

lemma may_retry_inv [simp]:
  "rc_inv (fst (reconnect_may_retry fsm)) = rc_inv fsm"
  "rc_state (fst (reconnect_may_retry fsm)) = rc_state fsm"
  by (simp_all add: reconnect_may_retry_def Let_def)

lemma back_off_inv: "rc_inv fsm \<Longrightarrow> rc_inv (reconnect_back_off fsm)"
  "rc_state (reconnect_back_off fsm) = rc_state fsm"
  by (simp_all add: reconnect_back_off_def)

lemma set_backoff_inv:
  "rc_inv fsm \<Longrightarrow> a \<le> INT_MAX \<Longrightarrow> b \<le> INT_MAX \<Longrightarrow> rc_inv (reconnect_set_backoff fsm a b)"
  by (auto simp: reconnect_set_backoff_def rc_inv_def rc_count_ok_def rc_config_ok_def Let_def INT_MAX_def
      RECONNECT_DEFAULT_MAX_BACKOFF_def)

lemma disconnected_inv: "rc_inv fsm \<Longrightarrow> now \<noteq> LLONG_MIN \<Longrightarrow> rc_inv (reconnect_disconnected fsm now err)"
  by (auto simp: reconnect_disconnected_def Let_def case_prod_beta
      intro!: transition_inv back_off_inv)

lemma connecting_inv: "rc_inv fsm \<Longrightarrow> now \<noteq> LLONG_MIN \<Longrightarrow> rc_inv (reconnect_connecting fsm now)"
  "rc_state (reconnect_connecting fsm now) = S_CONNECTING"
  by (auto simp: reconnect_connecting_def intro!: transition_inv)

lemma rc_call_inv:
  assumes "rc_inv fsm" "call_time c \<noteq> LLONG_MIN" "int_args c"
  shows "\<exists>fsm'. rc_call_step fsm c = Some fsm' \<and> rc_inv fsm'"
proof (cases c)
  case (SetPassive p now)
  with assms show ?thesis
    by (auto simp: reconnect_set_passive_def Let_def case_prod_beta intro!: transition_inv)
next
  case (Enable now)
  with assms show ?thesis
    by (auto simp: reconnect_enable_def Let_def case_prod_beta intro!: transition_inv)
next
  case (RunAt now)
  moreover obtain d where "reconnect_deadline fsm = Some d"
    using assms(1) by (simp add: reconnect_deadline_def rc_inv_def)
  ultimately show ?thesis
    using assms by (auto simp: reconnect_run_def is_connected_state_def intro!: transition_inv split: rc_state.splits)
next
  case (SetBackoff a b)
  with assms show ?thesis by (simp add: set_backoff_inv)
next
  case (SetProbeInterval n)
  with assms show ?thesis by (simp add: reconnect_set_probe_interval_def rc_inv_def rc_count_ok_def rc_config_ok_def)
next
  case (Connected now)
  with assms connecting_inv [of fsm now] show ?thesis
    by (auto simp: reconnect_connected_def intro!: transition_inv)
qed (use assms in \<open>auto simp: reconnect_set_quiet_def reconnect_set_name_def reconnect_set_max_tries_def
      reconnect_set_backoff_free_tries_def reconnect_disable_def reconnect_force_reconnect_def
      reconnect_listening_def reconnect_listen_error_def reconnect_connect_failed_def reconnect_activity_def
      reconnect_receive_attempted_def disconnected_inv connecting_inv is_connected_state_def
      intro!: transition_inv\<close>)

interpretation rccalls: call_system rc_step rc_legal "\<lambda>s. \<exists>fsm. s = Some fsm \<and> rc_inv fsm"
proof (unfold_locales, goal_cases)
  case (1 s c)
  then obtain fsm where "s = Some fsm" "rc_inv fsm" by blast
  with 1(2) rc_call_inv [of fsm c] show ?case by (auto simp: rc_step_def rc_legal_def)
qed

lemma reconnect_create_inv: "now \<noteq> LLONG_MIN \<Longrightarrow> rc_inv (reconnect_create now)"
  by (simp add: reconnect_create_def rc_inv_def rc_count_ok_def rc_config_ok_def is_connected_state_def INT_MAX_def
      RECONNECT_DEFAULT_MIN_BACKOFF_def RECONNECT_DEFAULT_MAX_BACKOFF_def RECONNECT_DEFAULT_PROBE_INTERVAL_def)

lemma seqno_odd:
  assumes "rc_count_ok fsm"
  shows "odd (rc_seqno fsm) \<longleftrightarrow> is_connected_state (rc_state fsm)"
  using assms by (cases "is_connected_state (rc_state fsm)") (simp_all add: rc_count_ok_def)

text \<open>C20: after any sequence of calls the machine has not aborted, its sequence number is odd
  exactly when it is connected, and equals the number of successful connections plus the
  number of times a connection ended (modulo the width of the counter), as
  \<open>struct reconnect_stats\<close> documents; the configured back-off limits stay in order.\<close>

theorem reconnect_seqno_counts:
  assumes "t0 \<noteq> LLONG_MIN" "legal_calls rc_step rc_legal (Some (reconnect_create t0)) cs"
  shows "\<exists>fsm. run_calls rc_step (Some (reconnect_create t0)) cs = Some fsm \<and>
    (odd (rc_seqno fsm) \<longleftrightarrow> reconnect_is_connected fsm) \<and>
    rc_seqno fsm = n_successful_connections fsm +
      (n_successful_connections fsm - of_bool (reconnect_is_connected fsm)) \<and>
    1000 \<le> min_backoff fsm \<and> min_backoff fsm \<le> max_backoff fsm"
proof -
  from rccalls.run_inv [OF _ assms(2)] reconnect_create_inv [OF assms(1)] obtain fsm where
    fsm: "run_calls rc_step (Some (reconnect_create t0)) cs = Some fsm" "rc_inv fsm" by blast
  then have "rc_count_ok fsm" "rc_config_ok fsm" by (simp_all add: rc_inv_def)
  with fsm(1) seqno_odd [of fsm] show ?thesis
    by (simp add: reconnect_is_connected_def rc_count_ok_def rc_config_ok_def)
qed

lemmas rc_eval = reconnect_create_def RECONNECT_DEFAULT_MIN_BACKOFF_def RECONNECT_DEFAULT_MAX_BACKOFF_def
  RECONNECT_DEFAULT_PROBE_INTERVAL_def rc_step_def rc_legal_def reconnect_enable_def reconnect_may_retry_def
  reconnect_connecting_def reconnect_connected_def reconnect_activity_def reconnect_receive_attempted_def
  reconnect_run_def reconnect_deadline_def reconnect_disconnected_def reconnect_connect_failed_def
  reconnect_back_off_def reconnect_transition_def reconnect_set_backoff_def is_connected_state_def c_div_def
  Let_def UINT_MAX_def LLONG_MAX_def LLONG_MIN_def INT_MAX_def

definition rc_example :: "rc_call list" where
  "rc_example = [Enable 0, RunAt 0, Connecting 1, Connected 2, ReceiveAttempted 9000, RunAt 9000, Activity 9001,
     Disconnected 9500 0, SetBackoff 2000 16000]"

theorem reconnect_seqno_counts_witness:
  "legal_calls rc_step rc_legal (Some (reconnect_create 0)) rc_example \<and>
   (\<exists>fsm. run_calls rc_step (Some (reconnect_create 0)) rc_example = Some fsm \<and>
      (odd (rc_seqno fsm) \<longleftrightarrow> reconnect_is_connected fsm))"
proof -
  have legal: "legal_calls rc_step rc_legal (Some (reconnect_create 0)) rc_example"
    by (simp add: rc_example_def rc_legal_def LLONG_MIN_def INT_MAX_def)
  have "(0::int) \<noteq> LLONG_MIN" by (simp add: LLONG_MIN_def)
  from reconnect_seqno_counts [OF this legal] legal show ?thesis by blast
qed

subsection \<open>Backing off\<close>

text \<open>The back-off after one more failed attempt.\<close>

definition next_backoff :: "int \<Rightarrow> int \<Rightarrow> int \<Rightarrow> int" where
  "next_backoff lo hi b = (if b < lo then lo else if b < c_div hi 2 then b * 2 else hi)"

text \<open>The delay after \<open>d\<close> failed attempts that count, from a delay \<open>b\<close>: first the minimum,
  then twice as long after each attempt as long as that is below the maximum, then the maximum.\<close>

definition delay_after :: "int \<Rightarrow> int \<Rightarrow> int \<Rightarrow> nat \<Rightarrow> int" where
  "delay_after lo hi b d =
     (let (x, k) = (if b < lo then (lo, d - 1) else (b, d))
      in if k = 0 \<or> x * 2 ^ k < 2 * (hi div 2) then x * 2 ^ k else hi)"

lemma delay_after_once: "1000 \<le> lo \<Longrightarrow> lo \<le> hi \<Longrightarrow> next_backoff lo hi b = delay_after lo hi b 1"
  by (auto simp: next_backoff_def delay_after_def c_div_nonneg)

lemma double_backoff:
  assumes "1000 \<le> lo" "lo \<le> hi" "lo \<le> x" "b = (if k = 0 \<or> x * 2 ^ k < 2 * (hi div 2) then x * 2 ^ k else hi)"
  shows "next_backoff lo hi b = (if x * 2 ^ Suc k < 2 * (hi div 2) then x * 2 ^ Suc k else hi)"
proof -
  define y where "y = x * 2 ^ k"
  have "1 * x \<le> 2 ^ k * x" using assms by (intro mult_right_mono) auto
  then have "lo \<le> y" using assms(3) by (simp add: y_def mult.commute)
  moreover have "x * 2 ^ Suc k = 2 * y" by (simp add: y_def)
  ultimately show ?thesis
    using assms(1,2) unfolding assms(4) y_def [symmetric] by (auto simp: next_backoff_def c_div_nonneg)
qed

lemma delay_after_Suc:
  assumes "1000 \<le> lo" "lo \<le> hi" "0 < d"
  shows "next_backoff lo hi (delay_after lo hi b d) = delay_after lo hi b (Suc d)"
proof (cases "b < lo")
  case True
  obtain k where "d = Suc k" using assms(3) by (cases d) auto
  with True double_backoff [OF assms(1,2) order_refl refl, of k] show ?thesis by (simp add: delay_after_def)
next
  case False
  with double_backoff [OF assms(1,2) _ refl, of b d] assms(3) show ?thesis by (simp add: delay_after_def)
qed

lemma delay_after_bounds:
  assumes "1000 \<le> lo" "lo \<le> hi" "0 < d"
  shows "lo \<le> delay_after lo hi b d \<and> delay_after lo hi b d \<le> hi"
proof -
  define x k where "x = (if b < lo then lo else b)" and "k = (if b < lo then d - 1 else d)"
  have "1 * x \<le> 2 ^ k * x" using assms by (intro mult_right_mono) (auto simp: x_def)
  then have "lo \<le> x * 2 ^ k" by (auto simp: x_def mult.commute split: if_splits)
  moreover have "k = 0 \<Longrightarrow> x = lo" using assms(3) by (auto simp: x_def k_def split: if_splits)
  moreover have "delay_after lo hi b d = (if k = 0 \<or> x * 2 ^ k < 2 * (hi div 2) then x * 2 ^ k else hi)"
    by (simp add: delay_after_def x_def k_def)
  ultimately show ?thesis using assms(2) by auto
qed

lemma delay_after_limit:
  assumes "1000 \<le> lo" "lo \<le> hi" "hi \<le> 2147483647" "23 \<le> d"
  shows "delay_after lo hi b d = hi"
proof -
  define x k where "x = (if b < lo then lo else b)" and "k = (if b < lo then d - 1 else d)"
  have "(2 :: int) ^ 22 \<le> 2 ^ k" using assms(4) by (intro power_increasing) (auto simp: k_def)
  then have "1000 * 2 ^ 22 \<le> x * 2 ^ k" using assms(1) by (intro mult_mono) (auto simp: x_def)
  moreover have "0 < k" using assms(4) by (auto simp: k_def)
  moreover have "delay_after lo hi b d = (if k = 0 \<or> x * 2 ^ k < 2 * (hi div 2) then x * 2 ^ k else hi)"
    by (simp add: delay_after_def x_def k_def)
  ultimately show ?thesis using assms(3) by simp
qed

text \<open>One failed attempt: it needs a try, and either uses up a free try or backs off.\<close>

lemma connect_failed_once:
  fixes fsm :: reconnect and now err :: int
  assumes "\<not> is_connected_state (rc_state fsm)"
  defines "fsm' \<equiv> reconnect_connect_failed fsm now err"
  shows "rc_state fsm' = (if 0 < max_tries fsm then S_BACKOFF else S_VOID)"
    "min_backoff fsm' = min_backoff fsm" "max_backoff fsm' = max_backoff fsm"
    "max_tries fsm' = (if max_tries fsm \<in> {0, UINT_MAX} then max_tries fsm else max_tries fsm - 1)"
    "0 < max_tries fsm \<Longrightarrow> backoff fsm' = (if backoff_free_tries fsm > 1 then 0
       else next_backoff (min_backoff fsm) (max_backoff fsm) (backoff fsm))"
    "0 < max_tries fsm \<Longrightarrow> backoff_free_tries fsm' =
       (if backoff_free_tries fsm > 1 then backoff_free_tries fsm - 1 else backoff_free_tries fsm)"
proof -
  define f where "f = reconnect_connecting fsm now"
  have f: "rc_state f = S_CONNECTING" "max_tries f = max_tries fsm" "backoff_free_tries f = backoff_free_tries fsm"
    "min_backoff f = min_backoff fsm" "max_backoff f = max_backoff fsm" "backoff f = backoff fsm"
    by (simp_all add: f_def reconnect_connecting_def)
  have eq: "fsm' = (if 0 < max_tries f then reconnect_transition (reconnect_back_off (fst (reconnect_may_retry f))) now S_BACKOFF
      else reconnect_transition f now S_VOID)"
    using f(1) by (simp add: fsm'_def reconnect_connect_failed_def reconnect_disconnected_def reconnect_may_retry_def
        is_connected_state_def Let_def flip: f_def)
  show "rc_state fsm' = (if 0 < max_tries fsm then S_BACKOFF else S_VOID)"
    "min_backoff fsm' = min_backoff fsm" "max_backoff fsm' = max_backoff fsm"
    "max_tries fsm' = (if max_tries fsm \<in> {0, UINT_MAX} then max_tries fsm else max_tries fsm - 1)"
    "0 < max_tries fsm \<Longrightarrow> backoff fsm' = (if backoff_free_tries fsm > 1 then 0
       else next_backoff (min_backoff fsm) (max_backoff fsm) (backoff fsm))"
    "0 < max_tries fsm \<Longrightarrow> backoff_free_tries fsm' =
       (if backoff_free_tries fsm > 1 then backoff_free_tries fsm - 1 else backoff_free_tries fsm)"
    unfolding eq by (auto simp: f reconnect_back_off_def reconnect_may_retry_def next_backoff_def is_connected_state_def Let_def
        word_neq_0_conv [symmetric] UINT_MAX_def)
qed

text \<open>The state after \<open>n\<close> failed attempts, as long as there are tries.\<close>

definition tries_left :: "u32 \<Rightarrow> nat \<Rightarrow> bool" where
  "tries_left tries n \<longleftrightarrow> tries = UINT_MAX \<or> n \<le> unat tries"

lemma fewer_tries: "tries \<noteq> UINT_MAX \<Longrightarrow> unat g \<le> unat tries \<Longrightarrow> g \<noteq> UINT_MAX"
proof
  assume "tries \<noteq> UINT_MAX" "unat g \<le> unat tries" "g = UINT_MAX"
  moreover have "unat tries < 4294967296" using unsigned_less [of tries, where ?'a = nat] by simp
  ultimately have "unat tries = unat UINT_MAX" by (simp add: UINT_MAX_def)
  with \<open>tries \<noteq> UINT_MAX\<close> show False by (simp add: word_unat_eq_iff)
qed

lemma backoff_after_failures:
  fixes fsm :: reconnect
  assumes "1000 \<le> min_backoff fsm" "min_backoff fsm \<le> max_backoff fsm" "\<not> is_connected_state (rc_state fsm)"
    "tries_left (max_tries fsm) (length fails)"
  defines "free \<equiv> unat (backoff_free_tries fsm) - 1"
  defines "after fs \<equiv> foldl (\<lambda>f (t, err). reconnect_connect_failed f t err) fsm fs"
  shows "(if fails = [] then after fails = fsm else rc_state (after fails) = S_BACKOFF) \<and>
    min_backoff (after fails) = min_backoff fsm \<and> max_backoff (after fails) = max_backoff fsm \<and>
    (if max_tries fsm = UINT_MAX then max_tries (after fails) = UINT_MAX
     else unat (max_tries (after fails)) = unat (max_tries fsm) - length fails) \<and>
    unat (backoff_free_tries (after fails)) = unat (backoff_free_tries fsm) - min (length fails) free \<and>
    (fails \<noteq> [] \<longrightarrow> backoff (after fails) = (if length fails \<le> free then 0
       else delay_after (min_backoff fsm) (max_backoff fsm) (if free = 0 then backoff fsm else 0) (length fails - free)))"
  using assms(4)
proof (induction fails rule: rev_induct)
  case Nil
  then show ?case by (simp add: after_def)
next
  case (snoc x xs)
  let ?g = "after xs" and ?h = "after (xs @ [x])" and ?lo = "min_backoff fsm" and ?hi = "max_backoff fsm"
  obtain t err where x: "x = (t, err)" by fastforce
  have h: "?h = reconnect_connect_failed ?g t err" by (simp add: after_def x)
  have tl: "tries_left (max_tries fsm) (length xs)" using snoc.prems by (auto simp: tries_left_def)
  note IH = snoc.IH [OF tl]
  have "\<not> is_connected_state (rc_state ?g)" using IH assms(3) by (cases "xs = []") (auto simp: is_connected_state_def)
  note once = connect_failed_once [OF this, of t err, folded h]
  have "0 < max_tries ?g"
    using IH snoc.prems by (auto simp: tries_left_def UINT_MAX_def word_less_nat_alt split: if_splits)
  note once' = once(1-4) once(5,6) [OF this]
  have free: "backoff_free_tries ?g > 1 \<longleftrightarrow> length xs < free" using IH by (auto simp: word_less_nat_alt free_def)
  have tries: "if max_tries fsm = UINT_MAX then max_tries ?h = UINT_MAX
     else unat (max_tries ?h) = unat (max_tries fsm) - length (xs @ [x])"
  proof (cases "max_tries fsm = UINT_MAX")
    case False
    then have g: "unat (max_tries ?g) = unat (max_tries fsm) - length xs" using IH by simp
    then have "max_tries ?g \<noteq> UINT_MAX" using fewer_tries [OF False, of "max_tries ?g"] by simp
    with False g once'(4) \<open>0 < max_tries ?g\<close> show ?thesis by (auto simp: unat_minus_one)
  qed (use IH once'(4) in simp)
  have left: "unat (backoff_free_tries ?h) = unat (backoff_free_tries fsm) - min (length (xs @ [x])) free"
  proof (cases "length xs < free")
    case True
    then have "backoff_free_tries ?g > 1" using free by simp
    then have "backoff_free_tries ?g \<noteq> 0" by auto
    with True free IH once'(6) show ?thesis by (simp add: unat_minus_one)
  qed (use IH once'(6) free in simp)
  have "backoff ?h = (if length (xs @ [x]) \<le> free then 0
       else delay_after ?lo ?hi (if free = 0 then backoff fsm else 0) (length (xs @ [x]) - free))"
  proof (cases "length xs < free")
    case False
    then have nb: "backoff ?h = next_backoff ?lo ?hi (backoff ?g)" using once'(5) free IH by simp
    show ?thesis
    proof (cases "length xs = free")
      case True
      then have "backoff ?g = (if free = 0 then backoff fsm else 0)" using IH by (cases "xs = []") auto
      with nb True delay_after_once [OF assms(1,2)] show ?thesis by simp
    next
      case False
      with \<open>\<not> length xs < free\<close> have "free < length xs" by simp
      with IH nb delay_after_Suc [OF assms(1,2), of "length xs - free"] show ?thesis by (auto simp: Suc_diff_le)
    qed
  qed (use once'(5) free in simp)
  with once'(1-3) \<open>0 < max_tries ?g\<close> tries left IH show ?case by simp
qed

lemma void_after_tries: "rc_state (foldl (\<lambda>f (t, err). reconnect_connect_failed f t err) fsm fails) = S_VOID"
  if "max_tries fsm = 0" "\<not> is_connected_state (rc_state fsm)" "fails \<noteq> []"
  using that
proof (induction fails arbitrary: fsm)
  case (Cons x xs)
  obtain t err where x: "x = (t, err)" by fastforce
  note once = connect_failed_once [OF Cons.prems(2), of t err]
  then have "max_tries (reconnect_connect_failed fsm t err) = 0" "rc_state (reconnect_connect_failed fsm t err) = S_VOID"
    using Cons.prems(1) by simp_all
  with Cons.IH [of "reconnect_connect_failed fsm t err"] show ?case
    by (cases "xs = []") (simp_all add: x is_connected_state_def)
qed simp

text \<open>C21: the delay before the next attempt, while attempts keep failing, is known exactly. The
  first attempts, as many as \<open>backoff_free_tries\<close> less one, are followed by no delay. After
  them the delay is the configured minimum (or twice the delay that was already in force), it
  doubles with every attempt as long as the result is below the maximum, and then is the
  maximum, which takes at most 23 attempts; so it is always between the limits. All of this as
  long as there are tries left; once they are used up the machine is disabled.\<close>

theorem reconnect_backoff_grows:
  fixes fsm :: reconnect and fails :: "(int \<times> int) list"
  assumes "rc_inv fsm" "\<not> reconnect_is_connected fsm" "fails \<noteq> []"
  defines "fsm' \<equiv> foldl (\<lambda>f (t, err). reconnect_connect_failed f t err) fsm fails"
    and "n \<equiv> length fails" and "free \<equiv> unat (backoff_free_tries fsm) - 1"
  shows "if tries_left (max_tries fsm) n
    then rc_state fsm' = S_BACKOFF \<and>
      (n \<le> free \<longrightarrow> backoff fsm' = 0) \<and>
      (free < n \<longrightarrow> backoff fsm' =
          delay_after (min_backoff fsm) (max_backoff fsm) (if free = 0 then backoff fsm else 0) (n - free)
        \<and> min_backoff fsm \<le> backoff fsm' \<and> backoff fsm' \<le> max_backoff fsm) \<and>
      (free + 23 \<le> n \<longrightarrow> backoff fsm' = max_backoff fsm)
    else rc_state fsm' = S_VOID"
proof -
  have c: "1000 \<le> min_backoff fsm" "min_backoff fsm \<le> max_backoff fsm" "max_backoff fsm \<le> 2147483647"
    using assms(1) by (simp_all add: rc_inv_def rc_config_ok_def INT_MAX_def)
  have nc: "\<not> is_connected_state (rc_state fsm)" using assms(2) by (simp add: reconnect_is_connected_def)
  show ?thesis
  proof (cases "tries_left (max_tries fsm) n")
    case True
    have "rc_state fsm' = S_BACKOFF" "n \<le> free \<Longrightarrow> backoff fsm' = 0"
      "free < n \<Longrightarrow> backoff fsm' =
        delay_after (min_backoff fsm) (max_backoff fsm) (if free = 0 then backoff fsm else 0) (n - free)"
      using backoff_after_failures [OF c(1,2) nc True [unfolded n_def]] assms(3)
      by (simp_all add: fsm'_def n_def free_def)
    moreover note delay_after_bounds [OF c(1,2), of "n - free"] delay_after_limit [OF c, of "n - free"]
    ultimately show ?thesis using True by auto
  next
    case False
    define k where "k = unat (max_tries fsm)"
    have k: "k < n" "max_tries fsm \<noteq> UINT_MAX" using False by (auto simp: tries_left_def k_def)
    define g where "g = foldl (\<lambda>f (t, err). reconnect_connect_failed f t err) fsm (take k fails)"
    have "tries_left (max_tries fsm) (length (take k fails))" using k by (simp add: tries_left_def k_def n_def)
    from backoff_after_failures [OF c(1,2) nc this, folded g_def] k
    have "max_tries g = 0" "\<not> is_connected_state (rc_state g)"
      using nc by (auto simp: n_def k_def unat_eq_zero is_connected_state_def split: if_splits)
    then have "rc_state (foldl (\<lambda>f (t, err). reconnect_connect_failed f t err) g (drop k fails)) = S_VOID"
      using k(1) by (intro void_after_tries) (simp_all add: n_def)
    also have "foldl (\<lambda>f (t, err). reconnect_connect_failed f t err) g (drop k fails) = fsm'"
      unfolding g_def fsm'_def foldl_append [symmetric] append_take_drop_id ..
    finally show ?thesis using False by simp
  qed
qed

text \<open>A machine with two free tries and limits of 1 and 8 seconds: no delay after the first
  failure, then 1, 2, 4 and 8 seconds; with three tries it gives up at the fourth failure.\<close>

definition rc_free :: "u32 \<Rightarrow> reconnect" where
  "rc_free tries = (reconnect_create 0)\<lparr>backoff_free_tries := 2, max_tries := tries\<rparr>"

theorem reconnect_backoff_grows_witness:
  "map (\<lambda>fails. backoff (foldl (\<lambda>f (t, err). reconnect_connect_failed f t err) (rc_free UINT_MAX) fails))
     [[(1, 0)], [(1, 0), (2, 0)], [(1, 0), (2, 0), (3, 0), (4, 0)]] = [0, 1000, 4000]
   \<and> rc_state (foldl (\<lambda>f (t, err). reconnect_connect_failed f t err) (rc_free 3) [(1, 0), (2, 0), (3, 0), (4, 0)]) = S_VOID"
proof -
  have "rc_inv (reconnect_create 0)" by (rule reconnect_create_inv) (simp add: LLONG_MIN_def)
  then have inv: "rc_inv (rc_free tries)" "\<not> reconnect_is_connected (rc_free tries)" for tries
    by (simp_all add: rc_free_def rc_inv_def rc_count_ok_def rc_config_ok_def reconnect_is_connected_def
        reconnect_create_def is_connected_state_def)
  note grows = reconnect_backoff_grows [OF inv]
  show ?thesis
    using grows [of "[(1, 0)]" UINT_MAX] grows [of "[(1, 0), (2, 0)]" UINT_MAX]
      grows [of "[(1, 0), (2, 0), (3, 0), (4, 0)]" UINT_MAX] grows [of "[(1, 0), (2, 0), (3, 0), (4, 0)]" 3]
    by (simp add: rc_free_def tries_left_def delay_after_def reconnect_create_def RECONNECT_DEFAULT_MIN_BACKOFF_def
        RECONNECT_DEFAULT_MAX_BACKOFF_def UINT_MAX_def)
qed


subsection \<open>Timing\<close>

lemma run_before_deadline:
  "reconnect_deadline fsm = Some d \<Longrightarrow> now < d \<Longrightarrow> reconnect_run fsm now = Some (fsm, None)"
  by (simp add: reconnect_run_def)

lemma run_at_deadline:
  "reconnect_deadline fsm = Some d \<Longrightarrow> d \<noteq> LLONG_MAX \<Longrightarrow> d \<le> now \<Longrightarrow>
   \<exists>fsm' a. reconnect_run fsm now = Some (fsm', Some a)"
  by (auto simp: reconnect_run_def reconnect_deadline_def split: rc_state.splits if_splits)

text \<open>C22: the number of milliseconds \<open>reconnect_timeout\<close> gives is exact: a call of
  \<open>reconnect_run\<close> before that time asks for nothing and changes nothing, a call at that
  time asks for an action (unless the wait was cut to the largest \<open>int\<close>), and a negative
  result means that no call ever does.\<close>

theorem reconnect_timeout_exact:
  assumes "state_entered fsm \<noteq> LLONG_MIN"
  shows "\<exists>t. reconnect_timeout fsm now = Some t \<and>
    (t < 0 \<longrightarrow> (\<forall>now' < LLONG_MAX. reconnect_run fsm now' = Some (fsm, None))) \<and>
    (\<forall>now'. now \<le> now' \<and> now' < now + t \<longrightarrow> reconnect_run fsm now' = Some (fsm, None)) \<and>
    (0 \<le> t \<and> t < INT_MAX \<longrightarrow> (\<exists>fsm' a. reconnect_run fsm (now + t) = Some (fsm', Some a)))"
proof -
  obtain d where d: "reconnect_deadline fsm = Some d" using assms by (simp add: reconnect_deadline_def)
  show ?thesis
  proof (cases "d = LLONG_MAX")
    case True
    then have "reconnect_timeout fsm now = Some (- 1)" by (simp add: reconnect_timeout_def d)
    with True run_before_deadline [OF d] show ?thesis by (intro exI [of _ "- 1"]) simp
  next
    case False
    define t where "t = max 0 (min INT_MAX (d - now))"
    have t: "reconnect_timeout fsm now = Some t" using False by (simp add: reconnect_timeout_def d t_def)
    have "reconnect_run fsm now' = Some (fsm, None)" if "now \<le> now'" "now' < now + t" for now'
      using that by (intro run_before_deadline [OF d]) (simp add: t_def)
    moreover have "\<exists>fsm' a. reconnect_run fsm (now + t) = Some (fsm', Some a)" if "t < INT_MAX"
      using that unfolding t_def by (intro run_at_deadline [OF d False]) linarith
    moreover have "0 \<le> t" by (simp add: t_def)
    ultimately show ?thesis using t by (intro exI [of _ t]) simp
  qed
qed

theorem reconnect_timeout_exact_witness:
  "\<exists>t. reconnect_timeout (reconnect_enable (reconnect_create 0) 10) 4 = Some t \<and>
     (\<forall>now'. 4 \<le> now' \<and> now' < 4 + t \<longrightarrow>
        reconnect_run (reconnect_enable (reconnect_create 0) 10) now'
          = Some (reconnect_enable (reconnect_create 0) 10, None))"
proof -
  have "state_entered (reconnect_enable (reconnect_create 0) 10) \<noteq> LLONG_MIN" by (simp add: rc_eval)
  from reconnect_timeout_exact [OF this, of 4] show ?thesis by blast
qed

text \<open>C23: the inactivity probe: once the probe interval has passed without activity on an
  active connection (and receiving was attempted since), \<open>reconnect_run\<close> asks for a probe;
  if the interval passes once more, it asks to disconnect, and not earlier; any activity
  in between makes the connection active again.\<close>

theorem reconnect_probe_protocol:
  assumes "rc_state fsm = S_ACTIVE" "state_entered fsm \<noteq> LLONG_MIN" "0 < probe_interval fsm"
    "max (last_activity fsm) (state_entered fsm) + probe_interval fsm \<le> last_receive_attempt fsm"
    "max (last_activity fsm) (state_entered fsm) + probe_interval fsm \<le> t1" "t1 \<noteq> LLONG_MIN"
    "t1 + probe_interval fsm \<le> t2" "t2 < LLONG_MAX"
  shows "\<exists>idle. reconnect_run fsm t1 = Some (idle, Some RECONNECT_PROBE) \<and> rc_state idle = S_IDLE \<and>
    rc_state (reconnect_activity idle t2) = S_ACTIVE \<and>
    reconnect_run (reconnect_receive_attempted idle t2) t2
      = Some (reconnect_receive_attempted idle t2, Some RECONNECT_DISCONNECT) \<and>
    (\<forall>t < t1 + probe_interval fsm. reconnect_run (reconnect_receive_attempted idle t) t
      = Some (reconnect_receive_attempted idle t, None))"
proof -
  define idle where "idle = reconnect_transition fsm t1 S_IDLE"
  have "reconnect_run fsm t1 = Some (idle, Some RECONNECT_PROBE)"
    using assms(1-5) by (simp add: reconnect_run_def reconnect_deadline_def Let_def idle_def)
  moreover have "reconnect_deadline (reconnect_receive_attempted idle t) =
      Some (if t1 + probe_interval fsm \<le> t then t1 + probe_interval fsm else LLONG_MAX)" for t
    using assms(3,6) by (simp add: reconnect_deadline_def reconnect_receive_attempted_def idle_def Let_def)
  moreover have "rc_state (reconnect_receive_attempted idle t) = S_IDLE" for t
    by (simp add: idle_def reconnect_receive_attempted_def)
  moreover have "rc_state idle = S_IDLE" "rc_state (reconnect_activity idle t2) = S_ACTIVE"
    by (simp_all add: idle_def reconnect_activity_def)
  ultimately show ?thesis
    using assms(7,8) by (intro exI [of _ idle]) (auto simp: reconnect_run_def)
qed

definition rc_active :: reconnect where
  "rc_active = reconnect_receive_attempted (reconnect_connected (reconnect_create 0) 100) 6000"

theorem reconnect_probe_protocol_witness:
  "\<exists>idle. reconnect_run rc_active 5200 = Some (idle, Some RECONNECT_PROBE) \<and>
     reconnect_run (reconnect_receive_attempted idle 10200) 10200
       = Some (reconnect_receive_attempted idle 10200, Some RECONNECT_DISCONNECT)"
proof -
  have "rc_state rc_active = S_ACTIVE" "state_entered rc_active = 100" "probe_interval rc_active = 5000"
    "last_activity rc_active = 0" "last_receive_attempt rc_active = 6000"
    by (simp_all add: rc_active_def rc_eval)
  with reconnect_probe_protocol [of rc_active 5200 10200] show ?thesis
    by (auto simp: LLONG_MIN_def LLONG_MAX_def)
qed

end
