(* ===== verification/Stp.thy ===== *)
theory Stp
  imports Prelude
begin

text \<open>
  The 802.1D spanning tree of \<open>lib/stp.c\<close>: the bridge and port records, root and designated
  port selection, the port state machine, topology change, the timers, and the two BPDUs with
  their wire format.

  A \<open>struct stp_port *\<close> is the index of the port in \<open>stp->ports\<close>; the array has as many
  elements as the list \<open>st_ports\<close> (\<open>STP_MAX_PORTS\<close>, 255, in the C code; the functions take
  the length from the list). Frames given to the callback \<open>send_bpdu\<close> are appended to
  \<open>st_sent\<close> with their port number: the callback only queues them, it does not call back
  into the module. \<open>st_seq\<close> counts the \<open>seq_change (connectivity_seq_get ())\<close> calls, and
  \<open>st_aborted\<close> is set where an \<open>ovs_assert\<close> fails. Fields of type \<open>int\<close> are integers with
  the wrap-around of \<open>c_int\<close> where a computation can leave the range; the comparisons of an
  \<open>int\<close> with an unsigned field convert it to a 32-bit word first, as C does.
\<close>

subsection \<open>States, roles, timers\<close>

datatype stp_state = STP_ZERO | STP_DISABLED | STP_LISTENING | STP_LEARNING | STP_FORWARDING
  | STP_BLOCKING

datatype stp_role = STP_ROLE_ROOT | STP_ROLE_DESIGNATED | STP_ROLE_ALTERNATE | STP_ROLE_DISABLED

text \<open>The bit of each state; \<open>STP_ZERO\<close> is the content of freshly zeroed memory.\<close>

fun stp_state_bits :: "stp_state \<Rightarrow> u8" where
  "stp_state_bits STP_ZERO = 0"
| "stp_state_bits STP_DISABLED = 1"
| "stp_state_bits STP_LISTENING = 2"
| "stp_state_bits STP_LEARNING = 4"
| "stp_state_bits STP_FORWARDING = 8"
| "stp_state_bits STP_BLOCKING = 16"

text \<open>The test \<open>state & (A | B | ...)\<close>.\<close>

definition state_in :: "stp_state \<Rightarrow> stp_state list \<Rightarrow> bool" where
  "state_in s ms \<longleftrightarrow> stp_state_bits s AND foldr (\<lambda>m a. stp_state_bits m OR a) ms 0 \<noteq> 0"

definition stp_state_name :: "stp_state \<Rightarrow> string option" where
  "stp_state_name s = (case s of
     STP_DISABLED \<Rightarrow> Some ''disabled''
   | STP_LISTENING \<Rightarrow> Some ''listening''
   | STP_LEARNING \<Rightarrow> Some ''learning''
   | STP_FORWARDING \<Rightarrow> Some ''forwarding''
   | STP_BLOCKING \<Rightarrow> Some ''blocking''
   | STP_ZERO \<Rightarrow> None)"

definition stp_forward_in_state :: "stp_state \<Rightarrow> bool" where
  "stp_forward_in_state s \<longleftrightarrow> state_in s [STP_FORWARDING]"

definition stp_learn_in_state :: "stp_state \<Rightarrow> bool" where
  "stp_learn_in_state s \<longleftrightarrow> state_in s [STP_LEARNING, STP_FORWARDING]"

definition stp_should_forward_bpdu :: "stp_state \<Rightarrow> bool" where
  "stp_should_forward_bpdu s \<longleftrightarrow>
     state_in s [STP_DISABLED, STP_LISTENING, STP_LEARNING, STP_FORWARDING]"

fun stp_role_name :: "stp_role \<Rightarrow> string" where
  "stp_role_name STP_ROLE_ROOT = ''root''"
| "stp_role_name STP_ROLE_DESIGNATED = ''designated''"
| "stp_role_name STP_ROLE_ALTERNATE = ''alternate''"
| "stp_role_name STP_ROLE_DISABLED = ''disabled''"

record stp_timer =
  tm_active :: bool
  tm_value :: int

definition stp_start_timer :: "int \<Rightarrow> stp_timer \<Rightarrow> stp_timer" where
  "stp_start_timer v t = t\<lparr>tm_value := v, tm_active := True\<rparr>"

definition stp_stop_timer :: "stp_timer \<Rightarrow> stp_timer" where
  "stp_stop_timer t = t\<lparr>tm_active := False\<rparr>"

definition stp_timer_expired :: "stp_timer \<Rightarrow> int \<Rightarrow> int \<Rightarrow> stp_timer \<times> bool" where
  "stp_timer_expired t elapsed timeout =
     (if tm_active t then
        let t1 = t\<lparr>tm_value := c_int (tm_value t + elapsed)\<rparr> in
        if tm_value t1 \<ge> timeout then (t1\<lparr>tm_active := False\<rparr>, True) else (t1, False)
      else (t, False))"

definition ms_to_timer :: "int \<Rightarrow> int" where
  "ms_to_timer ms = c_div (c_int (ms * 0x100)) 1000"

definition timer_to_ms :: "int \<Rightarrow> int" where
  "timer_to_ms t = c_div (c_int (t * 1000)) 0x100"

definition clamp :: "int \<Rightarrow> int \<Rightarrow> int \<Rightarrow> int" where
  "clamp x mn mx = (if x < mn then mn else if x > mx then mx else x)"

subsection \<open>Ports and bridges\<close>

record stp_port =
  sp_port_name :: string
  sp_aux :: "nat option"
  sp_port_id :: int
  sp_state :: stp_state
  sp_path_cost :: int
  sp_designated_root :: u64
  sp_designated_cost :: int
  sp_designated_bridge :: u64
  sp_designated_port :: int
  sp_topology_change_ack :: bool
  sp_config_pending :: bool
  sp_change_detection_enabled :: bool
  sp_message_age_timer :: stp_timer
  sp_forward_delay_timer :: stp_timer
  sp_hold_timer :: stp_timer
  sp_tx_count :: int
  sp_rx_count :: int
  sp_error_count :: int
  sp_state_changed :: bool

record stp =
  st_name :: string
  st_bridge_id :: u64
  st_max_age :: int
  st_hello_time :: int
  st_forward_delay :: int
  st_bridge_max_age :: int
  st_bridge_hello_time :: int
  st_bridge_forward_delay :: int
  st_rq_max_age :: int
  st_rq_hello_time :: int
  st_rq_forward_delay :: int
  st_elapsed_remainder :: int
  st_designated_root :: u64
  st_root_path_cost :: u32
  st_root_port :: "nat option"
  st_topology_change_detected :: bool
  st_topology_change :: bool
  st_hello_timer :: stp_timer
  st_tcn_timer :: stp_timer
  st_topology_change_timer :: stp_timer
  st_ports :: "stp_port list"
  st_fdb_needs_flush :: bool
  st_first_changed_port :: nat
  st_ref_cnt :: nat
  st_sent :: "(nat \<times> u8 list) list"
  st_seq :: nat
  st_aborted :: bool

abbreviation port :: "stp \<Rightarrow> nat \<Rightarrow> stp_port" where
  "port s i \<equiv> st_ports s ! i"

definition upd_port :: "nat \<Rightarrow> (stp_port \<Rightarrow> stp_port) \<Rightarrow> stp \<Rightarrow> stp" where
  "upd_port i f s = s\<lparr>st_ports := (st_ports s)[i := f (port s i)]\<rparr>"

definition seq_change :: "stp \<Rightarrow> stp" where
  "seq_change s = s\<lparr>st_seq := st_seq s + 1\<rparr>"

text \<open>The loop \<open>FOR_EACH_ENABLED_PORT\<close>: each port in turn, if it is enabled when the loop
  reaches it.\<close>

definition for_each_enabled :: "(nat \<Rightarrow> stp \<Rightarrow> stp) \<Rightarrow> stp \<Rightarrow> stp" where
  "for_each_enabled f s =
     fold (\<lambda>i s. if sp_state (port s i) \<noteq> STP_DISABLED then f i s else s)
       [0..<length (st_ports s)] s"

subsection \<open>BPDUs on the wire\<close>

definition STP_PROTOCOL_ID :: u16 where "STP_PROTOCOL_ID = 0"
definition STP_PROTOCOL_VERSION :: u8 where "STP_PROTOCOL_VERSION = 0"
definition STP_TYPE_CONFIG :: u8 where "STP_TYPE_CONFIG = 0"
definition STP_TYPE_TCN :: u8 where "STP_TYPE_TCN = 0x80"
definition STP_CONFIG_TOPOLOGY_CHANGE_ACK :: u8 where "STP_CONFIG_TOPOLOGY_CHANGE_ACK = 0x80"
definition STP_CONFIG_TOPOLOGY_CHANGE :: u8 where "STP_CONFIG_TOPOLOGY_CHANGE = 1"

record stp_bpdu_header =
  bh_protocol_id :: u16
  bh_protocol_version :: u8
  bh_bpdu_type :: u8

record stp_config_bpdu =
  cb_header :: stp_bpdu_header
  cb_flags :: u8
  cb_root_id :: u64
  cb_root_path_cost :: u32
  cb_bridge_id :: u64
  cb_port_id :: u16
  cb_message_age :: u16
  cb_max_age :: u16
  cb_hello_time :: u16
  cb_forward_delay :: u16

definition put_header :: "stp_bpdu_header \<Rightarrow> u8 list" where
  "put_header h = be_put 2 (unat (bh_protocol_id h)) @ be_put 1 (unat (bh_protocol_version h))
     @ be_put 1 (unat (bh_bpdu_type h))"

definition get_header :: "u8 list \<Rightarrow> stp_bpdu_header" where
  "get_header bs = \<lparr>bh_protocol_id = word_of_nat (be_field 0 2 bs),
     bh_protocol_version = word_of_nat (be_field 2 1 bs),
     bh_bpdu_type = word_of_nat (be_field 3 1 bs)\<rparr>"

definition put_config :: "stp_config_bpdu \<Rightarrow> u8 list" where
  "put_config c = put_header (cb_header c) @ be_put 1 (unat (cb_flags c))
     @ be_put 8 (unat (cb_root_id c)) @ be_put 4 (unat (cb_root_path_cost c))
     @ be_put 8 (unat (cb_bridge_id c)) @ be_put 2 (unat (cb_port_id c))
     @ be_put 2 (unat (cb_message_age c)) @ be_put 2 (unat (cb_max_age c))
     @ be_put 2 (unat (cb_hello_time c)) @ be_put 2 (unat (cb_forward_delay c))"

definition get_config :: "u8 list \<Rightarrow> stp_config_bpdu" where
  "get_config bs = \<lparr>cb_header = get_header bs,
     cb_flags = word_of_nat (be_field 4 1 bs),
     cb_root_id = word_of_nat (be_field 5 8 bs),
     cb_root_path_cost = word_of_nat (be_field 13 4 bs),
     cb_bridge_id = word_of_nat (be_field 17 8 bs),
     cb_port_id = word_of_nat (be_field 25 2 bs),
     cb_message_age = word_of_nat (be_field 27 2 bs),
     cb_max_age = word_of_nat (be_field 29 2 bs),
     cb_hello_time = word_of_nat (be_field 31 2 bs),
     cb_forward_delay = word_of_nat (be_field 33 2 bs)\<rparr>"

definition sizeof_stp_bpdu_header :: nat where "sizeof_stp_bpdu_header = 4"
definition sizeof_stp_config_bpdu :: nat where "sizeof_stp_config_bpdu = 35"
definition sizeof_stp_tcn_bpdu :: nat where "sizeof_stp_tcn_bpdu = 4"

definition eth_addr_stp :: eth_addr where "eth_addr_stp = 0x0180c2000000"
definition STP_LLC_SSAP :: u8 where "STP_LLC_SSAP = 0x42"
definition STP_LLC_DSAP :: u8 where "STP_LLC_DSAP = 0x42"
definition STP_LLC_CNTL :: u8 where "STP_LLC_CNTL = 0x03"
definition ETH_HEADER_LEN :: nat where "ETH_HEADER_LEN = 14"
definition LLC_HEADER_LEN :: nat where "LLC_HEADER_LEN = 3"

text \<open>The frame that \<open>stp_send_bpdu\<close> builds: destination, a zero source address, the length
  of what follows the Ethernet header, the LLC header and the BPDU.\<close>

definition stp_frame :: "u8 list \<Rightarrow> u8 list" where
  "stp_frame bpdu = be_put 6 (unat eth_addr_stp) @ be_put 6 0
     @ be_put 2 (LLC_HEADER_LEN + length bpdu)
     @ [STP_LLC_DSAP, STP_LLC_SSAP, STP_LLC_CNTL] @ bpdu"

definition stp_send_bpdu :: "nat \<Rightarrow> u8 list \<Rightarrow> stp \<Rightarrow> stp" where
  "stp_send_bpdu i bpdu s =
     (if i < length (st_ports s)
      then upd_port i (\<lambda>p. p\<lparr>sp_tx_count := c_int (sp_tx_count p + 1)\<rparr>)
             (s\<lparr>st_sent := st_sent s @ [(i, stp_frame bpdu)]\<rparr>)
      else s\<lparr>st_aborted := True\<rparr>)"


subsection \<open>Transmitting\<close>

definition stp_is_root_bridge :: "stp \<Rightarrow> bool" where
  "stp_is_root_bridge s \<longleftrightarrow> st_bridge_id s = st_designated_root s"

definition MESSAGE_AGE_INCREMENT :: int where "MESSAGE_AGE_INCREMENT = 1"

text \<open>The message age of a config BPDU: 0 from the root bridge, otherwise one more than the
  age of the information on the root port (\<open>r\<close>).\<close>

definition config_to_send :: "stp \<Rightarrow> stp_port \<Rightarrow> int \<Rightarrow> stp_config_bpdu" where
  "config_to_send s p message_age =
     \<lparr>cb_header = \<lparr>bh_protocol_id = STP_PROTOCOL_ID, bh_protocol_version = STP_PROTOCOL_VERSION,
        bh_bpdu_type = STP_TYPE_CONFIG\<rparr>,
      cb_flags = (if sp_topology_change_ack p then STP_CONFIG_TOPOLOGY_CHANGE_ACK else 0)
        OR (if st_topology_change s then STP_CONFIG_TOPOLOGY_CHANGE else 0),
      cb_root_id = st_designated_root s,
      cb_root_path_cost = st_root_path_cost s,
      cb_bridge_id = st_bridge_id s,
      cb_port_id = word_of_int (sp_port_id p),
      cb_message_age = word_of_int message_age,
      cb_max_age = word_of_int (st_max_age s),
      cb_hello_time = word_of_int (st_hello_time s),
      cb_forward_delay = word_of_int (st_forward_delay s)\<rparr>"

definition send_config :: "nat \<Rightarrow> int \<Rightarrow> stp \<Rightarrow> stp" where
  "send_config i message_age s =
     (let config = config_to_send s (port s i) message_age in
      if int (unat (cb_message_age config)) < st_max_age s then
        let s1 = upd_port i (\<lambda>p. p\<lparr>sp_topology_change_ack := False, sp_config_pending := False\<rparr>) s;
            s2 = stp_send_bpdu i (put_config config) s1
        in upd_port i (sp_hold_timer_update (stp_start_timer 0)) s2
      else s)"

definition stp_transmit_config :: "nat \<Rightarrow> stp \<Rightarrow> stp" where
  "stp_transmit_config i s =
     (if \<not> stp_is_root_bridge s \<and> st_root_port s = None then s
      else if tm_active (sp_hold_timer (port s i))
      then upd_port i (sp_config_pending_update (\<lambda>_. True)) s
      else if stp_is_root_bridge s then send_config i 0 s
      else case st_root_port s of
             None \<Rightarrow> s
           | Some r \<Rightarrow> send_config i
               (c_int (tm_value (sp_message_age_timer (port s r)) + MESSAGE_AGE_INCREMENT)) s)"

definition stp_is_designated_port :: "stp \<Rightarrow> nat \<Rightarrow> bool" where
  "stp_is_designated_port s i \<longleftrightarrow>
     sp_designated_bridge (port s i) = st_bridge_id s
     \<and> sp_designated_port (port s i) = sp_port_id (port s i)"

definition stp_config_bpdu_generation :: "stp \<Rightarrow> stp" where
  "stp_config_bpdu_generation =
     for_each_enabled (\<lambda>i s. if stp_is_designated_port s i then stp_transmit_config i s else s)"

definition stp_transmit_tcn :: "stp \<Rightarrow> stp" where
  "stp_transmit_tcn s = (case st_root_port s of
     None \<Rightarrow> s
   | Some r \<Rightarrow> stp_send_bpdu r (put_header \<lparr>bh_protocol_id = STP_PROTOCOL_ID,
       bh_protocol_version = STP_PROTOCOL_VERSION, bh_bpdu_type = STP_TYPE_TCN\<rparr>) s)"

subsection \<open>Root and designated port selection\<close>

definition stp_supersedes_port_info :: "stp \<Rightarrow> nat \<Rightarrow> stp_config_bpdu \<Rightarrow> bool" where
  "stp_supersedes_port_info s i c = (let p = port s i in
     if cb_root_id c \<noteq> sp_designated_root p then cb_root_id c < sp_designated_root p
     else if cb_root_path_cost c \<noteq> word_of_int (sp_designated_cost p)
     then cb_root_path_cost c < word_of_int (sp_designated_cost p)
     else if cb_bridge_id c \<noteq> sp_designated_bridge p
     then cb_bridge_id c < sp_designated_bridge p
     else cb_bridge_id c \<noteq> st_bridge_id s
          \<or> int (unat (cb_port_id c)) \<le> sp_designated_port p)"

definition stp_record_config_information :: "nat \<Rightarrow> stp_config_bpdu \<Rightarrow> stp \<Rightarrow> stp" where
  "stp_record_config_information i c = upd_port i (\<lambda>p. p\<lparr>
     sp_designated_root := cb_root_id c,
     sp_designated_cost := sint (cb_root_path_cost c),
     sp_designated_bridge := cb_bridge_id c,
     sp_designated_port := int (unat (cb_port_id c)),
     sp_message_age_timer := stp_start_timer (int (unat (cb_message_age c)))
       (sp_message_age_timer p)\<rparr>)"

definition stp_record_config_timeout_values :: "stp_config_bpdu \<Rightarrow> stp \<Rightarrow> stp" where
  "stp_record_config_timeout_values c s = s\<lparr>
     st_max_age := int (unat (cb_max_age c)),
     st_hello_time := int (unat (cb_hello_time c)),
     st_forward_delay := int (unat (cb_forward_delay c)),
     st_topology_change := cb_flags c AND STP_CONFIG_TOPOLOGY_CHANGE \<noteq> 0\<rparr>"

definition stp_supersedes_root :: "stp_port \<Rightarrow> stp_port \<Rightarrow> bool" where
  "stp_supersedes_root root p =
     (let p_cost = c_int (sp_designated_cost p + sp_path_cost p);
          root_cost = c_int (sp_designated_cost root + sp_path_cost root) in
      if sp_designated_root p \<noteq> sp_designated_root root
      then sp_designated_root p < sp_designated_root root
      else if p_cost \<noteq> root_cost then p_cost < root_cost
      else if sp_designated_bridge p \<noteq> sp_designated_bridge root
      then sp_designated_bridge p < sp_designated_bridge root
      else if sp_designated_port p \<noteq> sp_designated_port root
      then sp_designated_port p < sp_designated_port root
      else sp_port_id p < sp_port_id root)"

text \<open>The loop of \<open>stp_root_selection\<close> changes no port, so it is a fold over the ports.\<close>

definition root_candidate :: "stp \<Rightarrow> nat \<Rightarrow> bool" where
  "root_candidate s i \<longleftrightarrow> sp_state (port s i) \<noteq> STP_DISABLED
     \<and> \<not> (stp_is_designated_port s i \<or> sp_designated_root (port s i) \<ge> st_bridge_id s)"

definition select_root :: "stp \<Rightarrow> nat option" where
  "select_root s = fold (\<lambda>i root.
     if \<not> root_candidate s i then root
     else case root of
            None \<Rightarrow> Some i
          | Some r \<Rightarrow> if stp_supersedes_root (port s r) (port s i) then Some i else root)
     [0..<length (st_ports s)] None"

definition stp_root_selection :: "stp \<Rightarrow> stp" where
  "stp_root_selection s = (case select_root s of
     None \<Rightarrow> s\<lparr>st_root_port := None, st_designated_root := st_bridge_id s,
               st_root_path_cost := 0\<rparr>
   | Some r \<Rightarrow> s\<lparr>st_root_port := Some r, st_designated_root := sp_designated_root (port s r),
               st_root_path_cost :=
                 word_of_int (sp_designated_cost (port s r) + sp_path_cost (port s r))\<rparr>)"

definition stp_become_designated_port :: "nat \<Rightarrow> stp \<Rightarrow> stp" where
  "stp_become_designated_port i s = upd_port i (\<lambda>p. p\<lparr>
     sp_designated_root := st_designated_root s,
     sp_designated_cost := sint (st_root_path_cost s),
     sp_designated_bridge := st_bridge_id s,
     sp_designated_port := sp_port_id p\<rparr>) s"

definition claims_designated :: "stp \<Rightarrow> nat \<Rightarrow> bool" where
  "claims_designated s i \<longleftrightarrow> (let p = port s i; cost = word_of_int (sp_designated_cost p) in
     stp_is_designated_port s i
     \<or> sp_designated_root p \<noteq> st_designated_root s
     \<or> st_root_path_cost s < cost
     \<or> (st_root_path_cost s = cost
        \<and> (st_bridge_id s < sp_designated_bridge p
           \<or> (st_bridge_id s = sp_designated_bridge p \<and> sp_port_id p \<le> sp_designated_port p))))"

definition stp_designated_port_selection :: "stp \<Rightarrow> stp" where
  "stp_designated_port_selection =
     for_each_enabled (\<lambda>i s. if claims_designated s i then stp_become_designated_port i s else s)"

definition stp_configuration_update :: "stp \<Rightarrow> stp" where
  "stp_configuration_update s =
     seq_change (stp_designated_port_selection (stp_root_selection s))"

subsection \<open>Port states and topology change\<close>

definition stp_set_port_state :: "nat \<Rightarrow> stp_state \<Rightarrow> stp \<Rightarrow> stp" where
  "stp_set_port_state i state s =
     (let s1 = (if state \<noteq> sp_state (port s i) \<and> \<not> sp_state_changed (port s i)
                then let s0 = upd_port i (sp_state_changed_update (\<lambda>_. True)) s in
                     seq_change (if i < st_first_changed_port s0
                                 then s0\<lparr>st_first_changed_port := i\<rparr> else s0)
                else s)
      in upd_port i (sp_state_update (\<lambda>_. state)) s1)"

definition stp_topology_change_detection :: "stp \<Rightarrow> stp" where
  "stp_topology_change_detection s =
     (let s1 = (if stp_is_root_bridge s
                then s\<lparr>st_topology_change := True,
                       st_topology_change_timer := stp_start_timer 0 (st_topology_change_timer s)\<rparr>
                else if \<not> st_topology_change_detected s
                then let t = stp_transmit_tcn s in
                     t\<lparr>st_tcn_timer := stp_start_timer 0 (st_tcn_timer t)\<rparr>
                else s)
      in seq_change (s1\<lparr>st_fdb_needs_flush := True, st_topology_change_detected := True\<rparr>))"

definition stp_make_forwarding :: "nat \<Rightarrow> stp \<Rightarrow> stp" where
  "stp_make_forwarding i s =
     (if sp_state (port s i) = STP_BLOCKING
      then upd_port i (sp_forward_delay_timer_update (stp_start_timer 0))
             (stp_set_port_state i STP_LISTENING s)
      else s)"

definition stp_make_blocking :: "nat \<Rightarrow> stp \<Rightarrow> stp" where
  "stp_make_blocking i s =
     (if \<not> state_in (sp_state (port s i)) [STP_DISABLED, STP_BLOCKING]
      then let s1 = (if state_in (sp_state (port s i)) [STP_FORWARDING, STP_LEARNING]
                        \<and> sp_change_detection_enabled (port s i)
                     then stp_topology_change_detection s else s)
           in upd_port i (sp_forward_delay_timer_update stp_stop_timer)
                (stp_set_port_state i STP_BLOCKING s1)
      else s)"

definition select_port_state :: "nat \<Rightarrow> stp \<Rightarrow> stp" where
  "select_port_state i s =
     (if st_root_port s = Some i then
        stp_make_forwarding i
          (upd_port i (\<lambda>p. p\<lparr>sp_config_pending := False, sp_topology_change_ack := False\<rparr>) s)
      else if stp_is_designated_port s i then
        stp_make_forwarding i (upd_port i (sp_message_age_timer_update stp_stop_timer) s)
      else
        stp_make_blocking i
          (upd_port i (\<lambda>p. p\<lparr>sp_config_pending := False, sp_topology_change_ack := False\<rparr>) s))"

definition stp_port_state_selection :: "stp \<Rightarrow> stp" where
  "stp_port_state_selection = for_each_enabled select_port_state"

definition stp_topology_change_acknowledged :: "stp \<Rightarrow> stp" where
  "stp_topology_change_acknowledged s =
     s\<lparr>st_topology_change_detected := False, st_tcn_timer := stp_stop_timer (st_tcn_timer s)\<rparr>"

definition stp_acknowledge_topology_change :: "nat \<Rightarrow> stp \<Rightarrow> stp" where
  "stp_acknowledge_topology_change i s =
     stp_transmit_config i (upd_port i (sp_topology_change_ack_update (\<lambda>_. True)) s)"

definition stp_become_root_bridge :: "stp \<Rightarrow> stp" where
  "stp_become_root_bridge s =
     (let s1 = stp_topology_change_detection
                 (s\<lparr>st_max_age := st_bridge_max_age s, st_hello_time := st_bridge_hello_time s,
                    st_forward_delay := st_bridge_forward_delay s\<rparr>);
          s2 = stp_config_bpdu_generation (s1\<lparr>st_tcn_timer := stp_stop_timer (st_tcn_timer s1)\<rparr>)
      in s2\<lparr>st_hello_timer := stp_start_timer 0 (st_hello_timer s2)\<rparr>)"


subsection \<open>Receiving\<close>

definition stp_received_config_bpdu :: "nat \<Rightarrow> stp_config_bpdu \<Rightarrow> stp \<Rightarrow> stp" where
  "stp_received_config_bpdu i c s =
     (if cb_message_age c \<ge> cb_max_age c then s
      else if sp_state (port s i) \<noteq> STP_DISABLED then
        let root = stp_is_root_bridge s in
        if stp_supersedes_port_info s i c then
          let s1 = stp_port_state_selection
                     (stp_configuration_update (stp_record_config_information i c s));
              s2 = (if \<not> stp_is_root_bridge s1 \<and> root then
                      let t1 = s1\<lparr>st_hello_timer := stp_stop_timer (st_hello_timer s1)\<rparr> in
                      if st_topology_change_detected t1 then
                        let t2 = stp_transmit_tcn (t1\<lparr>st_topology_change_timer :=
                                   stp_stop_timer (st_topology_change_timer t1)\<rparr>)
                        in t2\<lparr>st_tcn_timer := stp_start_timer 0 (st_tcn_timer t2)\<rparr>
                      else t1
                    else s1)
          in if st_root_port s2 = Some i then
               let s3 = stp_config_bpdu_generation (stp_record_config_timeout_values c s2);
                   s4 = (if cb_flags c AND STP_CONFIG_TOPOLOGY_CHANGE_ACK \<noteq> 0
                         then stp_topology_change_acknowledged s3 else s3)
               in if cb_flags c AND STP_CONFIG_TOPOLOGY_CHANGE \<noteq> 0
                  then s4\<lparr>st_fdb_needs_flush := True\<rparr> else s4
             else s2
        else if stp_is_designated_port s i then stp_transmit_config i s
        else s
      else s)"

definition stp_received_tcn_bpdu :: "nat \<Rightarrow> stp \<Rightarrow> stp" where
  "stp_received_tcn_bpdu i s =
     (if sp_state (port s i) \<noteq> STP_DISABLED \<and> stp_is_designated_port s i
      then stp_acknowledge_topology_change i (stp_topology_change_detection s)
      else s)"

definition count_error :: "nat \<Rightarrow> stp \<Rightarrow> stp" where
  "count_error i = upd_port i (\<lambda>p. p\<lparr>sp_error_count := c_int (sp_error_count p + 1)\<rparr>)"

definition count_rx :: "nat \<Rightarrow> stp \<Rightarrow> stp" where
  "count_rx i = upd_port i (\<lambda>p. p\<lparr>sp_rx_count := c_int (sp_rx_count p + 1)\<rparr>)"

definition stp_received_bpdu :: "nat \<Rightarrow> u8 list \<Rightarrow> stp \<Rightarrow> stp" where
  "stp_received_bpdu i bpdu s =
     (if sp_state (port s i) = STP_DISABLED then s
      else if length bpdu < sizeof_stp_bpdu_header then count_error i s
      else let header = get_header bpdu in
        if bh_protocol_id header \<noteq> STP_PROTOCOL_ID then count_error i s
        else if bh_bpdu_type header = STP_TYPE_CONFIG then
          (if length bpdu < sizeof_stp_config_bpdu then count_error i s
           else count_rx i (stp_received_config_bpdu i (get_config bpdu) s))
        else if bh_bpdu_type header = STP_TYPE_TCN then
          (if length bpdu \<noteq> sizeof_stp_tcn_bpdu then count_error i s
           else count_rx i (stp_received_tcn_bpdu i s))
        else count_error i s)"

subsection \<open>Timer expiry\<close>

definition stp_hello_timer_expiry :: "stp \<Rightarrow> stp" where
  "stp_hello_timer_expiry s = (let t = stp_config_bpdu_generation s in
     t\<lparr>st_hello_timer := stp_start_timer 0 (st_hello_timer t)\<rparr>)"

definition stp_message_age_timer_expiry :: "nat \<Rightarrow> stp \<Rightarrow> stp" where
  "stp_message_age_timer_expiry i s =
     (let root = stp_is_root_bridge s;
          s1 = stp_port_state_selection (stp_configuration_update (stp_become_designated_port i s))
      in if stp_is_root_bridge s1 \<and> \<not> root then
           let s2 = stp_topology_change_detection
                      (s1\<lparr>st_max_age := st_bridge_max_age s1, st_hello_time := st_bridge_hello_time s1,
                          st_forward_delay := st_bridge_forward_delay s1\<rparr>);
               s3 = stp_config_bpdu_generation
                      (s2\<lparr>st_tcn_timer := stp_stop_timer (st_tcn_timer s2)\<rparr>)
           in s3\<lparr>st_hello_timer := stp_start_timer 0 (st_hello_timer s3)\<rparr>
         else s1)"

definition stp_is_designated_for_some_port :: "stp \<Rightarrow> bool" where
  "stp_is_designated_for_some_port s \<longleftrightarrow>
     list_ex (\<lambda>p. sp_state p \<noteq> STP_DISABLED \<and> sp_designated_bridge p = st_bridge_id s) (st_ports s)"

definition stp_forward_delay_timer_expiry :: "nat \<Rightarrow> stp \<Rightarrow> stp" where
  "stp_forward_delay_timer_expiry i s =
     (if sp_state (port s i) = STP_LISTENING then
        upd_port i (sp_forward_delay_timer_update (stp_start_timer 0))
          (stp_set_port_state i STP_LEARNING s)
      else if sp_state (port s i) = STP_LEARNING then
        let s1 = stp_set_port_state i STP_FORWARDING s in
        if stp_is_designated_for_some_port s1 \<and> sp_change_detection_enabled (port s1 i)
        then stp_topology_change_detection s1 else s1
      else s)"

definition stp_tcn_timer_expiry :: "stp \<Rightarrow> stp" where
  "stp_tcn_timer_expiry s = (let t = stp_transmit_tcn s in
     t\<lparr>st_tcn_timer := stp_start_timer 0 (st_tcn_timer t)\<rparr>)"

definition stp_topology_change_timer_expiry :: "stp \<Rightarrow> stp" where
  "stp_topology_change_timer_expiry s =
     s\<lparr>st_topology_change_detected := False, st_topology_change := False\<rparr>"

definition stp_hold_timer_expiry :: "nat \<Rightarrow> stp \<Rightarrow> stp" where
  "stp_hold_timer_expiry i s =
     (if sp_config_pending (port s i) then stp_transmit_config i s else s)"

text \<open>\<open>stp_tick\<close>: the milliseconds become timer ticks, then the bridge timers run, then the
  message age timers of the ports, then their forward delay and hold timers.\<close>

definition tick_bridge_timers :: "int \<Rightarrow> stp \<Rightarrow> stp" where
  "tick_bridge_timers elapsed s =
     (let (t1, e1) = stp_timer_expired (st_hello_timer s) elapsed (st_hello_time s);
          s1 = s\<lparr>st_hello_timer := t1\<rparr>;
          s1 = (if e1 then stp_hello_timer_expiry s1 else s1);
          (t2, e2) = stp_timer_expired (st_tcn_timer s1) elapsed (st_bridge_hello_time s1);
          s2 = s1\<lparr>st_tcn_timer := t2\<rparr>;
          s2 = (if e2 then stp_tcn_timer_expiry s2 else s2);
          (t3, e3) = stp_timer_expired (st_topology_change_timer s2) elapsed
                       (c_int (st_max_age s2 + st_forward_delay s2));
          s3 = s2\<lparr>st_topology_change_timer := t3\<rparr>
      in if e3 then stp_topology_change_timer_expiry s3 else s3)"

definition tick_message_age :: "int \<Rightarrow> nat \<Rightarrow> stp \<Rightarrow> stp" where
  "tick_message_age elapsed i s =
     (let (t, e) = stp_timer_expired (sp_message_age_timer (port s i)) elapsed (st_max_age s);
          s1 = upd_port i (sp_message_age_timer_update (\<lambda>_. t)) s
      in if e then stp_message_age_timer_expiry i s1 else s1)"

definition tick_forward_delay :: "int \<Rightarrow> nat \<Rightarrow> stp \<Rightarrow> stp" where
  "tick_forward_delay elapsed i s =
     (let (t, e) = stp_timer_expired (sp_forward_delay_timer (port s i)) elapsed (st_forward_delay s);
          s1 = upd_port i (sp_forward_delay_timer_update (\<lambda>_. t)) s
      in if e then stp_forward_delay_timer_expiry i s1 else s1)"

definition tick_hold :: "int \<Rightarrow> nat \<Rightarrow> stp \<Rightarrow> stp" where
  "tick_hold elapsed i s =
     (let (t, e) = stp_timer_expired (sp_hold_timer (port s i)) elapsed (ms_to_timer 1000);
          s1 = upd_port i (sp_hold_timer_update (\<lambda>_. t)) s
      in if e then stp_hold_timer_expiry i s1 else s1)"

definition tick_elapsed :: "stp \<Rightarrow> int \<Rightarrow> int \<times> int" where
  "tick_elapsed s ms =
     (let total = c_int (clamp ms 0 (2147483647 - 1000) + st_elapsed_remainder s);
          elapsed = ms_to_timer total
      in (elapsed, c_int (total - timer_to_ms elapsed)))"

definition stp_tick :: "int \<Rightarrow> stp \<Rightarrow> stp" where
  "stp_tick ms s =
     (let (elapsed, remainder) = tick_elapsed s ms;
          s1 = s\<lparr>st_elapsed_remainder := remainder\<rparr>
      in if elapsed = 0 then s1
         else for_each_enabled (\<lambda>i s. tick_hold elapsed i (tick_forward_delay elapsed i s))
                (for_each_enabled (tick_message_age elapsed) (tick_bridge_timers elapsed s1)))"


subsection \<open>Configuration of the bridge\<close>

definition STP_MAX_PORTS :: nat where "STP_MAX_PORTS = 255"
definition STP_DEFAULT_BRIDGE_PRIORITY :: u64 where "STP_DEFAULT_BRIDGE_PRIORITY = 32768"
definition STP_DEFAULT_PORT_PRIORITY :: int where "STP_DEFAULT_PORT_PRIORITY = 128"
definition STP_DEFAULT_MAX_AGE :: int where "STP_DEFAULT_MAX_AGE = 20000"
definition STP_DEFAULT_HELLO_TIME :: int where "STP_DEFAULT_HELLO_TIME = 2000"
definition STP_DEFAULT_FWD_DELAY :: int where "STP_DEFAULT_FWD_DELAY = 15000"

definition stp_update_bridge_timers :: "stp \<Rightarrow> stp" where
  "stp_update_bridge_timers s =
     (let ht = clamp (st_rq_hello_time s) 1000 10000;
          ma = clamp (st_rq_max_age s) (max (2 * (ht + 1000)) 6000) 40000;
          fd = clamp (st_rq_forward_delay s) (c_div ma 2 + 1000) 30000;
          s1 = s\<lparr>st_bridge_hello_time := ms_to_timer ht, st_bridge_max_age := ms_to_timer ma,
                 st_bridge_forward_delay := ms_to_timer fd\<rparr>
      in if stp_is_root_bridge s1
         then s1\<lparr>st_max_age := st_bridge_max_age s1, st_hello_time := st_bridge_hello_time s1,
                 st_forward_delay := st_bridge_forward_delay s1\<rparr>
         else s1)"

definition stp_initialize_port :: "nat \<Rightarrow> stp_state \<Rightarrow> stp \<Rightarrow> stp" where
  "stp_initialize_port i state s =
     (if \<not> state_in state [STP_DISABLED, STP_BLOCKING] then s\<lparr>st_aborted := True\<rparr>
      else
        let s1 = stp_become_designated_port i s;
            s2 = (if sp_state (port s1 i) = STP_ZERO \<and> state = STP_DISABLED
                  then upd_port i (sp_state_update (\<lambda>_. state)) s1
                  else stp_set_port_state i state s1)
        in upd_port i (\<lambda>p. p\<lparr>sp_topology_change_ack := False, sp_config_pending := False,
             sp_change_detection_enabled := True, sp_aux := None,
             sp_message_age_timer := stp_stop_timer (sp_message_age_timer p),
             sp_forward_delay_timer := stp_stop_timer (sp_forward_delay_timer p),
             sp_hold_timer := stp_stop_timer (sp_hold_timer p),
             sp_tx_count := 0, sp_rx_count := 0, sp_error_count := 0\<rparr>) s2)"

definition zero_timer :: stp_timer where
  "zero_timer = \<lparr>tm_active = False, tm_value = 0\<rparr>"

definition zero_port :: stp_port where
  "zero_port = \<lparr>sp_port_name = [], sp_aux = None, sp_port_id = 0, sp_state = STP_ZERO,
     sp_path_cost = 0, sp_designated_root = 0, sp_designated_cost = 0, sp_designated_bridge = 0,
     sp_designated_port = 0, sp_topology_change_ack = False, sp_config_pending = False,
     sp_change_detection_enabled = False, sp_message_age_timer = zero_timer,
     sp_forward_delay_timer = zero_timer, sp_hold_timer = zero_timer, sp_tx_count = 0,
     sp_rx_count = 0, sp_error_count = 0, sp_state_changed = False\<rparr>"

definition zero_stp :: "nat \<Rightarrow> stp" where
  "zero_stp n = \<lparr>st_name = [], st_bridge_id = 0, st_max_age = 0, st_hello_time = 0,
     st_forward_delay = 0, st_bridge_max_age = 0, st_bridge_hello_time = 0,
     st_bridge_forward_delay = 0, st_rq_max_age = 0, st_rq_hello_time = 0,
     st_rq_forward_delay = 0, st_elapsed_remainder = 0, st_designated_root = 0,
     st_root_path_cost = 0, st_root_port = None, st_topology_change_detected = False,
     st_topology_change = False, st_hello_timer = zero_timer, st_tcn_timer = zero_timer,
     st_topology_change_timer = zero_timer, st_ports = replicate n zero_port,
     st_fdb_needs_flush = False, st_first_changed_port = 0, st_ref_cnt = 0, st_sent = [],
     st_seq = 0, st_aborted = False\<rparr>"

text \<open>\<open>stp_create\<close> for a bridge with \<open>n\<close> ports; the C code has \<open>n = STP_MAX_PORTS\<close>.\<close>

definition create_port :: "nat \<Rightarrow> stp \<Rightarrow> stp" where
  "create_port i s = stp_initialize_port i STP_DISABLED
     (upd_port i (\<lambda>p. p\<lparr>sp_port_id := int (i + 1) OR push_bit 8 STP_DEFAULT_PORT_PRIORITY,
        sp_path_cost := 19\<rparr>) s)"

definition create_bridge :: "nat \<Rightarrow> string \<Rightarrow> u64 \<Rightarrow> stp" where
  "create_bridge n name bridge_id =
     (let s = (zero_stp n)\<lparr>st_name := name,
                st_bridge_id := (if drop_bit 48 bridge_id = 0
                  then bridge_id OR push_bit 48 STP_DEFAULT_BRIDGE_PRIORITY else bridge_id),
                st_rq_max_age := STP_DEFAULT_MAX_AGE,
                st_rq_hello_time := STP_DEFAULT_HELLO_TIME,
                st_rq_forward_delay := STP_DEFAULT_FWD_DELAY\<rparr>;
          s = stp_update_bridge_timers s
      in s\<lparr>st_max_age := st_bridge_max_age s, st_hello_time := st_bridge_hello_time s,
                st_forward_delay := st_bridge_forward_delay s,
                st_designated_root := st_bridge_id s, st_root_path_cost := 0,
                st_root_port := None, st_topology_change_detected := False,
                st_topology_change := False,
                st_tcn_timer := stp_stop_timer (st_tcn_timer s),
                st_topology_change_timer := stp_stop_timer (st_topology_change_timer s),
                st_hello_timer := stp_start_timer (st_bridge_hello_time s) (st_hello_timer s),
                st_first_changed_port := n\<rparr>)"

definition stp_create :: "nat \<Rightarrow> string \<Rightarrow> u64 \<Rightarrow> stp" where
  "stp_create n name bridge_id =
     (fold create_port [0..<n] (create_bridge n name bridge_id))\<lparr>st_ref_cnt := 1\<rparr>"

definition set_bridge_id :: "u64 \<Rightarrow> stp \<Rightarrow> stp" where
  "set_bridge_id new_bridge_id s =
     (if new_bridge_id \<noteq> st_bridge_id s then
        let root = stp_is_root_bridge s;
            s1 = for_each_enabled (\<lambda>i s. if stp_is_designated_port s i
                   then upd_port i (sp_designated_bridge_update (\<lambda>_. new_bridge_id)) s else s) s;
            s2 = stp_port_state_selection
                   (stp_configuration_update (s1\<lparr>st_bridge_id := new_bridge_id\<rparr>))
        in if stp_is_root_bridge s2 \<and> \<not> root then stp_become_root_bridge s2 else s2
      else s)"

definition mac_bits :: u64 where "mac_bits = push_bit 48 1 - 1"

definition stp_set_bridge_id :: "u64 \<Rightarrow> stp \<Rightarrow> stp" where
  "stp_set_bridge_id bridge_id s =
     set_bridge_id ((st_bridge_id s AND NOT mac_bits) OR (bridge_id AND mac_bits)) s"

definition stp_set_bridge_priority :: "u16 \<Rightarrow> stp \<Rightarrow> stp" where
  "stp_set_bridge_priority new_priority s =
     set_bridge_id ((st_bridge_id s AND mac_bits) OR push_bit 48 (ucast new_priority)) s"

definition stp_set_hello_time :: "int \<Rightarrow> stp \<Rightarrow> stp" where
  "stp_set_hello_time ms s = stp_update_bridge_timers (s\<lparr>st_rq_hello_time := ms\<rparr>)"

definition stp_set_max_age :: "int \<Rightarrow> stp \<Rightarrow> stp" where
  "stp_set_max_age ms s = stp_update_bridge_timers (s\<lparr>st_rq_max_age := ms\<rparr>)"

definition stp_set_forward_delay :: "int \<Rightarrow> stp \<Rightarrow> stp" where
  "stp_set_forward_delay ms s = stp_update_bridge_timers (s\<lparr>st_rq_forward_delay := ms\<rparr>)"

definition stp_get_hello_time :: "stp \<Rightarrow> int" where
  "stp_get_hello_time s = timer_to_ms (st_bridge_hello_time s)"

definition stp_get_max_age :: "stp \<Rightarrow> int" where
  "stp_get_max_age s = timer_to_ms (st_bridge_max_age s)"

definition stp_get_forward_delay :: "stp \<Rightarrow> int" where
  "stp_get_forward_delay s = timer_to_ms (st_bridge_forward_delay s)"

definition stp_get_root_path_cost :: "stp \<Rightarrow> int" where
  "stp_get_root_path_cost s = sint (st_root_path_cost s)"

definition stp_check_and_reset_fdb_flush :: "stp \<Rightarrow> bool \<times> stp" where
  "stp_check_and_reset_fdb_flush s = (st_fdb_needs_flush s, s\<lparr>st_fdb_needs_flush := False\<rparr>)"

definition stp_get_port :: "stp \<Rightarrow> int \<Rightarrow> nat option" where
  "stp_get_port s port_no =
     (if port_no \<ge> 0 \<and> port_no < int (length (st_ports s)) then Some (nat port_no) else None)"

text \<open>\<open>stp_get_changed_port\<close>: the first changed port at or after \<open>first_changed_port\<close>, whose
  mark it clears.\<close>

definition stp_get_changed_port :: "stp \<Rightarrow> nat option \<times> stp" where
  "stp_get_changed_port s =
     (case find (\<lambda>i. sp_state_changed (port s i))
             [st_first_changed_port s..<length (st_ports s)] of
        Some i \<Rightarrow> (Some i, (upd_port i (sp_state_changed_update (\<lambda>_. False)) s)
                            \<lparr>st_first_changed_port := i + 1\<rparr>)
      | None \<Rightarrow> (None, s\<lparr>st_first_changed_port := length (st_ports s)\<rparr>))"

subsection \<open>Configuration of a port\<close>

definition stp_port_set_name :: "nat \<Rightarrow> string \<Rightarrow> stp \<Rightarrow> stp" where
  "stp_port_set_name i name = upd_port i (sp_port_name_update (\<lambda>_. name))"

definition stp_port_set_aux :: "nat \<Rightarrow> nat option \<Rightarrow> stp \<Rightarrow> stp" where
  "stp_port_set_aux i aux = upd_port i (sp_aux_update (\<lambda>_. aux))"

definition stp_port_get_role :: "stp \<Rightarrow> nat \<Rightarrow> stp_role" where
  "stp_port_get_role s i =
     (if (case st_root_port s of None \<Rightarrow> False
          | Some r \<Rightarrow> sp_port_id (port s r) = sp_port_id (port s i)) then STP_ROLE_ROOT
      else if stp_is_designated_port s i then STP_ROLE_DESIGNATED
      else if sp_state (port s i) = STP_DISABLED then STP_ROLE_DISABLED
      else STP_ROLE_ALTERNATE)"

definition stp_port_get_counts :: "stp \<Rightarrow> nat \<Rightarrow> int \<times> int \<times> int" where
  "stp_port_get_counts s i =
     (sp_tx_count (port s i), sp_rx_count (port s i), sp_error_count (port s i))"

definition stp_port_get_status :: "stp \<Rightarrow> nat \<Rightarrow> int \<times> stp_state \<times> stp_role" where
  "stp_port_get_status s i =
     (sp_port_id (port s i), sp_state (port s i), stp_port_get_role s i)"

definition stp_port_disable :: "nat \<Rightarrow> stp \<Rightarrow> stp" where
  "stp_port_disable i s =
     (if sp_state (port s i) \<noteq> STP_DISABLED then
        let root = stp_is_root_bridge s;
            s1 = stp_set_port_state i STP_DISABLED (stp_become_designated_port i s);
            s2 = upd_port i (\<lambda>p. p\<lparr>sp_topology_change_ack := False, sp_config_pending := False,
                   sp_message_age_timer := stp_stop_timer (sp_message_age_timer p),
                   sp_forward_delay_timer := stp_stop_timer (sp_forward_delay_timer p)\<rparr>) s1;
            s3 = stp_port_state_selection (stp_configuration_update s2);
            s4 = (if stp_is_root_bridge s3 \<and> \<not> root then stp_become_root_bridge s3 else s3)
        in upd_port i (sp_aux_update (\<lambda>_. None)) s4
      else s)"

definition stp_port_enable :: "nat \<Rightarrow> stp \<Rightarrow> stp" where
  "stp_port_enable i s =
     (if sp_state (port s i) = STP_DISABLED
      then stp_port_state_selection (stp_initialize_port i STP_BLOCKING s) else s)"

definition stp_port_set_priority :: "nat \<Rightarrow> u8 \<Rightarrow> stp \<Rightarrow> stp" where
  "stp_port_set_priority i new_priority s =
     (let new_port_id = take_bit 16
            ((sp_port_id (port s i) AND 0xff) OR push_bit 8 (int (unat new_priority))) in
      if sp_port_id (port s i) \<noteq> new_port_id then
        let s1 = (if stp_is_designated_port s i
                  then upd_port i (sp_designated_port_update (\<lambda>_. new_port_id)) s else s);
            s2 = upd_port i (sp_port_id_update (\<lambda>_. new_port_id)) s1
        in if st_bridge_id s2 = sp_designated_bridge (port s2 i)
              \<and> sp_port_id (port s2 i) < sp_designated_port (port s2 i)
           then stp_port_state_selection (stp_become_designated_port i s2)
           else s2
      else s)"

definition stp_convert_speed_to_cost :: "u32 \<Rightarrow> u16" where
  "stp_convert_speed_to_cost speed =
     (if speed \<ge> 10000 then 2 else if speed \<ge> 1000 then 4 else if speed \<ge> 100 then 19
      else if speed \<ge> 16 then 62 else if speed \<ge> 10 then 100 else if speed \<ge> 4 then 250 else 19)"

definition stp_port_set_path_cost :: "nat \<Rightarrow> u16 \<Rightarrow> stp \<Rightarrow> stp" where
  "stp_port_set_path_cost i path_cost s =
     (if sp_path_cost (port s i) \<noteq> int (unat path_cost)
      then stp_port_state_selection (stp_configuration_update
             (upd_port i (sp_path_cost_update (\<lambda>_. int (unat path_cost))) s))
      else s)"

definition stp_port_set_speed :: "nat \<Rightarrow> u32 \<Rightarrow> stp \<Rightarrow> stp" where
  "stp_port_set_speed i speed = stp_port_set_path_cost i (stp_convert_speed_to_cost speed)"

definition stp_port_enable_change_detection :: "nat \<Rightarrow> stp \<Rightarrow> stp" where
  "stp_port_enable_change_detection i = upd_port i (sp_change_detection_enabled_update (\<lambda>_. True))"

definition stp_port_disable_change_detection :: "nat \<Rightarrow> stp \<Rightarrow> stp" where
  "stp_port_disable_change_detection i = upd_port i (sp_change_detection_enabled_update (\<lambda>_. False))"

subsection \<open>The registry of bridges\<close>

text \<open>The list \<open>all_stps\<close>, each bridge with its address.\<close>

type_synonym stp_registry = "(nat \<times> stp) list"

definition stp_ref :: "nat \<Rightarrow> stp_registry \<Rightarrow> stp_registry" where
  "stp_ref a = map (\<lambda>(b, s). if a = b then (b, s\<lparr>st_ref_cnt := st_ref_cnt s + 1\<rparr>) else (b, s))"

definition stp_unref :: "nat \<Rightarrow> stp_registry \<Rightarrow> stp_registry" where
  "stp_unref a reg =
     filter (\<lambda>(b, s). \<not> (a = b \<and> st_ref_cnt s = 0))
       (map (\<lambda>(b, s). if a = b then (b, s\<lparr>st_ref_cnt := st_ref_cnt s - 1\<rparr>) else (b, s)) reg)"

definition stp_find :: "string \<Rightarrow> stp_registry \<Rightarrow> nat option" where
  "stp_find name reg = map_option fst (find (\<lambda>(a, s). st_name s = name) reg)"

text \<open>\<open>stp/tcn [bridge]\<close>: the reply and the bridges afterwards.\<close>

definition stp_unixctl_tcn :: "string option \<Rightarrow> stp_registry \<Rightarrow> (string + string) \<times> stp_registry" where
  "stp_unixctl_tcn arg reg = (case arg of
     Some name \<Rightarrow> (case stp_find name reg of
       None \<Rightarrow> (Inl ''no such stp object'', reg)
     | Some a \<Rightarrow> (Inr ''OK'',
         map (\<lambda>(b, s). if a = b then (b, stp_topology_change_detection s) else (b, s)) reg))
   | None \<Rightarrow> (Inr ''OK'', map (\<lambda>(b, s). (b, stp_topology_change_detection s)) reg))"

end
