(* ===== verification/ConntrackTp.thy ===== *)
theory ConntrackTp
  imports Prelude
begin

text \<open>
  Timeout policies and expiration of the userspace connection tracker
  (\<open>lib/conntrack-tp.c\<close>): the table of policies, the defaults, and the two functions that
  set the expiration of a connection and move it between the expiration lists of
  \<open>struct conntrack\<close>.

  The hash table of policies is the list of its elements, the latest insertion first, which
  is the order in which a bucket is searched. A connection has an address \<open>cn_addr\<close>; an
  expiration list is the list of the addresses of the connections linked in it.
\<close>

datatype ct_timeout = CT_TM_TCP_FIRST_PACKET | CT_TM_TCP_OPENING | CT_TM_TCP_ESTABLISHED
  | CT_TM_TCP_CLOSING | CT_TM_TCP_FIN_WAIT | CT_TM_TCP_CLOSED | CT_TM_OTHER_FIRST
  | CT_TM_OTHER_MULTIPLE | CT_TM_OTHER_BIDIR | CT_TM_ICMP_FIRST | CT_TM_ICMP_REPLY

datatype ct_dpif_tp_attr = CT_DPIF_TP_ATTR_TCP_SYN_SENT | CT_DPIF_TP_ATTR_TCP_SYN_RECV
  | CT_DPIF_TP_ATTR_TCP_ESTABLISHED | CT_DPIF_TP_ATTR_TCP_FIN_WAIT
  | CT_DPIF_TP_ATTR_TCP_CLOSE_WAIT | CT_DPIF_TP_ATTR_TCP_LAST_ACK
  | CT_DPIF_TP_ATTR_TCP_TIME_WAIT | CT_DPIF_TP_ATTR_TCP_CLOSE
  | CT_DPIF_TP_ATTR_TCP_SYN_SENT2 | CT_DPIF_TP_ATTR_TCP_RETRANSMIT
  | CT_DPIF_TP_ATTR_TCP_UNACK | CT_DPIF_TP_ATTR_UDP_FIRST | CT_DPIF_TP_ATTR_UDP_SINGLE
  | CT_DPIF_TP_ATTR_UDP_MULTIPLE | CT_DPIF_TP_ATTR_ICMP_FIRST | CT_DPIF_TP_ATTR_ICMP_REPLY

text \<open>The enumerators in the order of their values.\<close>

definition ct_dpif_tp_attrs :: "ct_dpif_tp_attr list" where
  "ct_dpif_tp_attrs = [CT_DPIF_TP_ATTR_TCP_SYN_SENT, CT_DPIF_TP_ATTR_TCP_SYN_RECV,
     CT_DPIF_TP_ATTR_TCP_ESTABLISHED, CT_DPIF_TP_ATTR_TCP_FIN_WAIT,
     CT_DPIF_TP_ATTR_TCP_CLOSE_WAIT, CT_DPIF_TP_ATTR_TCP_LAST_ACK,
     CT_DPIF_TP_ATTR_TCP_TIME_WAIT, CT_DPIF_TP_ATTR_TCP_CLOSE,
     CT_DPIF_TP_ATTR_TCP_SYN_SENT2, CT_DPIF_TP_ATTR_TCP_RETRANSMIT,
     CT_DPIF_TP_ATTR_TCP_UNACK, CT_DPIF_TP_ATTR_UDP_FIRST, CT_DPIF_TP_ATTR_UDP_SINGLE,
     CT_DPIF_TP_ATTR_UDP_MULTIPLE, CT_DPIF_TP_ATTR_ICMP_FIRST, CT_DPIF_TP_ATTR_ICMP_REPLY]"

fun tp_attr_no :: "ct_dpif_tp_attr \<Rightarrow> nat" where
  "tp_attr_no CT_DPIF_TP_ATTR_TCP_SYN_SENT = 0"
| "tp_attr_no CT_DPIF_TP_ATTR_TCP_SYN_RECV = 1"
| "tp_attr_no CT_DPIF_TP_ATTR_TCP_ESTABLISHED = 2"
| "tp_attr_no CT_DPIF_TP_ATTR_TCP_FIN_WAIT = 3"
| "tp_attr_no CT_DPIF_TP_ATTR_TCP_CLOSE_WAIT = 4"
| "tp_attr_no CT_DPIF_TP_ATTR_TCP_LAST_ACK = 5"
| "tp_attr_no CT_DPIF_TP_ATTR_TCP_TIME_WAIT = 6"
| "tp_attr_no CT_DPIF_TP_ATTR_TCP_CLOSE = 7"
| "tp_attr_no CT_DPIF_TP_ATTR_TCP_SYN_SENT2 = 8"
| "tp_attr_no CT_DPIF_TP_ATTR_TCP_RETRANSMIT = 9"
| "tp_attr_no CT_DPIF_TP_ATTR_TCP_UNACK = 10"
| "tp_attr_no CT_DPIF_TP_ATTR_UDP_FIRST = 11"
| "tp_attr_no CT_DPIF_TP_ATTR_UDP_SINGLE = 12"
| "tp_attr_no CT_DPIF_TP_ATTR_UDP_MULTIPLE = 13"
| "tp_attr_no CT_DPIF_TP_ATTR_ICMP_FIRST = 14"
| "tp_attr_no CT_DPIF_TP_ATTR_ICMP_REPLY = 15"

text \<open>The default policy, in seconds; the elements the initializer leaves out are zero.\<close>

fun tp_default :: "ct_dpif_tp_attr \<Rightarrow> u32" where
  "tp_default CT_DPIF_TP_ATTR_TCP_SYN_SENT = 30"
| "tp_default CT_DPIF_TP_ATTR_TCP_SYN_RECV = 30"
| "tp_default CT_DPIF_TP_ATTR_TCP_ESTABLISHED = 24 * 60 * 60"
| "tp_default CT_DPIF_TP_ATTR_TCP_FIN_WAIT = 15 * 60"
| "tp_default CT_DPIF_TP_ATTR_TCP_TIME_WAIT = 45"
| "tp_default CT_DPIF_TP_ATTR_TCP_CLOSE = 30"
| "tp_default CT_DPIF_TP_ATTR_UDP_FIRST = 60"
| "tp_default CT_DPIF_TP_ATTR_UDP_SINGLE = 60"
| "tp_default CT_DPIF_TP_ATTR_UDP_MULTIPLE = 30"
| "tp_default CT_DPIF_TP_ATTR_ICMP_FIRST = 60"
| "tp_default CT_DPIF_TP_ATTR_ICMP_REPLY = 30"
| "tp_default _ = 0"

definition ct_dpif_netdev_tp_def :: "u32 list" where
  "ct_dpif_netdev_tp_def = map tp_default ct_dpif_tp_attrs"

record timeout_policy =
  tp_id :: u32
  tp_present :: u32
  tp_attrs :: "u32 list"

record conn =
  cn_addr :: nat
  cn_expiration :: int
  cn_cleaned :: bool
  cn_tp_id :: u32

record conntrack =
  ct_timeout_policies :: "timeout_policy list"
  ct_exp_lists :: "ct_timeout \<Rightarrow> nat list"
  ct_tcp_seq_chk :: bool

definition DEFAULT_TP_ID :: u32 where "DEFAULT_TP_ID = 0"
definition ENOENT :: int where "ENOENT = 2"

subsection \<open>The table of policies\<close>

definition timeout_policy_lookup :: "conntrack \<Rightarrow> u32 \<Rightarrow> timeout_policy option" where
  "timeout_policy_lookup ct i = find (\<lambda>tp. tp_id tp = i) (ct_timeout_policies ct)"

definition timeout_policy_get :: "conntrack \<Rightarrow> u32 \<Rightarrow> timeout_policy option" where
  "timeout_policy_get ct i = timeout_policy_lookup ct i"

definition update_existing_tp :: "timeout_policy \<Rightarrow> timeout_policy \<Rightarrow> timeout_policy" where
  "update_existing_tp dst src =
     fold (\<lambda>i d. if tp_present src AND push_bit i 1 \<noteq> 0
                 then d\<lparr>tp_attrs := (tp_attrs d)[i := tp_attrs src ! i],
                        tp_present := tp_present d OR push_bit i 1\<rparr>
                 else d)
       [0..<length (tp_attrs dst)] dst"

definition init_default_tp :: "u32 \<Rightarrow> timeout_policy" where
  "init_default_tp i = \<lparr>tp_id = i, tp_present = 0, tp_attrs = ct_dpif_netdev_tp_def\<rparr>"

definition timeout_policy_create :: "timeout_policy \<Rightarrow> conntrack \<Rightarrow> conntrack" where
  "timeout_policy_create new_tp ct =
     (let tp = update_existing_tp (init_default_tp (tp_id new_tp)) new_tp
      in ct\<lparr>ct_timeout_policies := tp # ct_timeout_policies ct\<rparr>)"

definition timeout_policy_clean :: "timeout_policy \<Rightarrow> conntrack \<Rightarrow> conntrack" where
  "timeout_policy_clean tp ct =
     ct\<lparr>ct_timeout_policies := remove1 tp (ct_timeout_policies ct)\<rparr>"

definition timeout_policy_delete :: "u32 \<Rightarrow> conntrack \<Rightarrow> conntrack \<times> int" where
  "timeout_policy_delete i ct = (case timeout_policy_lookup ct i of
     Some tp \<Rightarrow> (timeout_policy_clean tp ct, 0)
   | None \<Rightarrow> (ct, ENOENT))"

definition timeout_policy_init :: "conntrack \<Rightarrow> conntrack" where
  "timeout_policy_init ct = timeout_policy_create
     \<lparr>tp_id = DEFAULT_TP_ID, tp_present = 0, tp_attrs = replicate 16 0\<rparr>
     (ct\<lparr>ct_timeout_policies := []\<rparr>)"

definition timeout_policy_update :: "timeout_policy \<Rightarrow> conntrack \<Rightarrow> conntrack \<times> int" where
  "timeout_policy_update new_tp ct =
     (let (ct1, err) = (case timeout_policy_lookup ct (tp_id new_tp) of
                          Some tp \<Rightarrow> timeout_policy_delete (tp_id new_tp) ct
                        | None \<Rightarrow> (ct, 0))
      in (timeout_policy_create new_tp ct1, err))"

subsection \<open>Expiration\<close>

fun tm_to_ct_dpif_tp :: "ct_timeout \<Rightarrow> ct_dpif_tp_attr" where
  "tm_to_ct_dpif_tp CT_TM_TCP_FIRST_PACKET = CT_DPIF_TP_ATTR_TCP_SYN_SENT"
| "tm_to_ct_dpif_tp CT_TM_TCP_OPENING = CT_DPIF_TP_ATTR_TCP_SYN_RECV"
| "tm_to_ct_dpif_tp CT_TM_TCP_ESTABLISHED = CT_DPIF_TP_ATTR_TCP_ESTABLISHED"
| "tm_to_ct_dpif_tp CT_TM_TCP_CLOSING = CT_DPIF_TP_ATTR_TCP_FIN_WAIT"
| "tm_to_ct_dpif_tp CT_TM_TCP_FIN_WAIT = CT_DPIF_TP_ATTR_TCP_TIME_WAIT"
| "tm_to_ct_dpif_tp CT_TM_TCP_CLOSED = CT_DPIF_TP_ATTR_TCP_CLOSE"
| "tm_to_ct_dpif_tp CT_TM_OTHER_FIRST = CT_DPIF_TP_ATTR_UDP_FIRST"
| "tm_to_ct_dpif_tp CT_TM_OTHER_BIDIR = CT_DPIF_TP_ATTR_UDP_MULTIPLE"
| "tm_to_ct_dpif_tp CT_TM_OTHER_MULTIPLE = CT_DPIF_TP_ATTR_UDP_SINGLE"
| "tm_to_ct_dpif_tp CT_TM_ICMP_FIRST = CT_DPIF_TP_ATTR_ICMP_FIRST"
| "tm_to_ct_dpif_tp CT_TM_ICMP_REPLY = CT_DPIF_TP_ATTR_ICMP_REPLY"

text \<open>The timeout in seconds of a connection in a given state, which
  \<open>conn_update_expiration\<close> and \<open>conn_init_expiration\<close> both compute.\<close>

definition tp_value :: "conntrack \<Rightarrow> u32 \<Rightarrow> ct_timeout \<Rightarrow> u32" where
  "tp_value ct i tm = (case timeout_policy_lookup ct i of
     Some tp \<Rightarrow> tp_attrs tp ! tp_attr_no (tm_to_ct_dpif_tp tm)
   | None \<Rightarrow> ct_dpif_netdev_tp_def ! tp_attr_no (tm_to_ct_dpif_tp tm))"

definition exp_list_remove :: "nat \<Rightarrow> conntrack \<Rightarrow> conntrack" where
  "exp_list_remove a ct =
     ct\<lparr>ct_exp_lists := (\<lambda>tm. filter (\<lambda>b. b \<noteq> a) (ct_exp_lists ct tm))\<rparr>"

definition exp_list_push_back :: "ct_timeout \<Rightarrow> nat \<Rightarrow> conntrack \<Rightarrow> conntrack" where
  "exp_list_push_back tm a ct =
     ct\<lparr>ct_exp_lists := (ct_exp_lists ct)(tm := ct_exp_lists ct tm @ [a])\<rparr>"

text \<open>The product \<open>tp_value * 1000\<close> is computed in 32 bits before it is added to the
  64-bit clock.\<close>

definition conn_update_expiration ::
    "ct_timeout \<Rightarrow> int \<Rightarrow> conntrack \<times> 'a conn_scheme \<Rightarrow> conntrack \<times> 'a conn_scheme" where
  "conn_update_expiration tm now = (\<lambda>(ct, conn).
     let val = tp_value ct (cn_tp_id conn) tm in
     if \<not> cn_cleaned conn
     then (exp_list_push_back tm (cn_addr conn) (exp_list_remove (cn_addr conn) ct),
           conn\<lparr>cn_expiration := now + uint (val * 1000)\<rparr>)
     else (ct, conn))"

definition conn_init_expiration ::
    "ct_timeout \<Rightarrow> int \<Rightarrow> conntrack \<times> 'a conn_scheme \<Rightarrow> conntrack \<times> 'a conn_scheme" where
  "conn_init_expiration tm now = (\<lambda>(ct, conn).
     let val = tp_value ct (cn_tp_id conn) tm in
     (exp_list_push_back tm (cn_addr conn) ct, conn\<lparr>cn_expiration := now + uint (val * 1000)\<rparr>))"

end
