(* ===== verification/Conntrack.thy ===== *)
theory Conntrack
  imports ConntrackTp
begin

text \<open>
  The layer 4 trackers of the userspace connection tracker: TCP
  (\<open>lib/conntrack-tcp.c\<close>), ICMP (\<open>lib/conntrack-icmp.c\<close>) and every other protocol
  (\<open>lib/conntrack-other.c\<close>).

  A packet is the bytes of its layer 4 part, header first, without layer 2 padding; the
  functions read the header fields at their offsets. The result of an update is the new
  tracker, the new connection and a value of \<open>enum ct_update_res\<close>.
\<close>

datatype ct_update_res = CT_UPDATE_INVALID | CT_UPDATE_VALID | CT_UPDATE_NEW | CT_UPDATE_VALID_NEW

datatype ct_dpif_tcp_state = CT_DPIF_TCPS_CLOSED | CT_DPIF_TCPS_LISTEN | CT_DPIF_TCPS_SYN_SENT
  | CT_DPIF_TCPS_SYN_RECV | CT_DPIF_TCPS_ESTABLISHED | CT_DPIF_TCPS_CLOSE_WAIT
  | CT_DPIF_TCPS_FIN_WAIT_1 | CT_DPIF_TCPS_CLOSING | CT_DPIF_TCPS_LAST_ACK
  | CT_DPIF_TCPS_FIN_WAIT_2 | CT_DPIF_TCPS_TIME_WAIT

text \<open>The value of each enumerator; the code compares states by it.\<close>

fun tcps_no :: "ct_dpif_tcp_state \<Rightarrow> nat" where
  "tcps_no CT_DPIF_TCPS_CLOSED = 0"
| "tcps_no CT_DPIF_TCPS_LISTEN = 1"
| "tcps_no CT_DPIF_TCPS_SYN_SENT = 2"
| "tcps_no CT_DPIF_TCPS_SYN_RECV = 3"
| "tcps_no CT_DPIF_TCPS_ESTABLISHED = 4"
| "tcps_no CT_DPIF_TCPS_CLOSE_WAIT = 5"
| "tcps_no CT_DPIF_TCPS_FIN_WAIT_1 = 6"
| "tcps_no CT_DPIF_TCPS_CLOSING = 7"
| "tcps_no CT_DPIF_TCPS_LAST_ACK = 8"
| "tcps_no CT_DPIF_TCPS_FIN_WAIT_2 = 9"
| "tcps_no CT_DPIF_TCPS_TIME_WAIT = 10"

instantiation ct_dpif_tcp_state :: linorder
begin

definition less_eq_ct_dpif_tcp_state :: "ct_dpif_tcp_state \<Rightarrow> ct_dpif_tcp_state \<Rightarrow> bool" where
  "less_eq_ct_dpif_tcp_state a b \<longleftrightarrow> tcps_no a \<le> tcps_no b"

definition less_ct_dpif_tcp_state :: "ct_dpif_tcp_state \<Rightarrow> ct_dpif_tcp_state \<Rightarrow> bool" where
  "less_ct_dpif_tcp_state a b \<longleftrightarrow> tcps_no a < tcps_no b"

instance
proof
  fix a b c :: ct_dpif_tcp_state
  show "a < b \<longleftrightarrow> a \<le> b \<and> \<not> b \<le> a" and "a \<le> a" and "a \<le> b \<or> b \<le> a"
    by (auto simp: less_eq_ct_dpif_tcp_state_def less_ct_dpif_tcp_state_def)
  show "a \<le> c" if "a \<le> b" and "b \<le> c"
    using that by (simp add: less_eq_ct_dpif_tcp_state_def)
  show "a = b" if "a \<le> b" and "b \<le> a"
    using that by (cases a; cases b) (simp_all add: less_eq_ct_dpif_tcp_state_def)
qed

end

record tcp_peer =
  pr_seqlo :: u32
  pr_seqhi :: u32
  pr_max_win :: u16
  pr_wscale :: u8
  pr_state :: ct_dpif_tcp_state

record conn_tcp = conn +
  tc_peer0 :: tcp_peer
  tc_peer1 :: tcp_peer

definition TCPOPT_EOL :: u8 where "TCPOPT_EOL = 0"
definition TCPOPT_NOP :: u8 where "TCPOPT_NOP = 1"
definition TCPOPT_WINDOW :: u8 where "TCPOPT_WINDOW = 3"
definition TCP_FIN :: u16 where "TCP_FIN = 0x001"
definition TCP_SYN :: u16 where "TCP_SYN = 0x002"
definition TCP_RST :: u16 where "TCP_RST = 0x004"
definition TCP_PSH :: u16 where "TCP_PSH = 0x008"
definition TCP_ACK :: u16 where "TCP_ACK = 0x010"
definition TCP_URG :: u16 where "TCP_URG = 0x020"
definition TCP_HEADER_LEN :: nat where "TCP_HEADER_LEN = 20"
definition TCP_MAX_WSCALE :: u8 where "TCP_MAX_WSCALE = 14"
definition CT_WSCALE_FLAG :: u8 where "CT_WSCALE_FLAG = 0x80"
definition CT_WSCALE_UNKNOWN :: u8 where "CT_WSCALE_UNKNOWN = 0x40"
definition CT_WSCALE_MASK :: u8 where "CT_WSCALE_MASK = 0xf"
definition MAXACKWINDOW :: int where "MAXACKWINDOW = 0xffff + 1500"

text \<open>The comparisons of sequence numbers: the sign of the 32-bit difference.\<close>

definition SEQ_GT :: "u32 \<Rightarrow> u32 \<Rightarrow> bool" where
  "SEQ_GT a b \<longleftrightarrow> sint (a - b) > 0"

definition SEQ_GEQ :: "u32 \<Rightarrow> u32 \<Rightarrow> bool" where
  "SEQ_GEQ a b \<longleftrightarrow> sint (a - b) \<ge> 0"

text \<open>A test \<open>x & m\<close> of a flag word.\<close>

definition has :: "'a::len word \<Rightarrow> 'a word \<Rightarrow> bool" where
  "has x m \<longleftrightarrow> x AND m \<noteq> 0"

subsection \<open>The TCP header\<close>

definition tcp_seq :: "u8 list \<Rightarrow> u32" where "tcp_seq l4 = word_of_nat (be_field 4 4 l4)"
definition tcp_ack :: "u8 list \<Rightarrow> u32" where "tcp_ack l4 = word_of_nat (be_field 8 4 l4)"
definition tcp_ctl :: "u8 list \<Rightarrow> u16" where "tcp_ctl l4 = word_of_nat (be_field 12 2 l4)"
definition tcp_winsz :: "u8 list \<Rightarrow> u16" where "tcp_winsz l4 = word_of_nat (be_field 14 2 l4)"
definition TCP_FLAGS :: "u16 \<Rightarrow> u16" where "TCP_FLAGS ctl = ctl AND 0x0fff"
definition TCP_OFFSET :: "u16 \<Rightarrow> u16" where "TCP_OFFSET ctl = drop_bit 12 ctl"

definition dp_packet_get_tcp_payload :: "u8 list \<Rightarrow> nat option" where
  "dp_packet_get_tcp_payload l4 =
     (let tcp_len = unat (TCP_OFFSET (tcp_ctl l4)) * 4 in
      if length l4 \<ge> TCP_HEADER_LEN \<and> tcp_len \<ge> TCP_HEADER_LEN \<and> tcp_len \<le> length l4
      then Some tcp_len else None)"

definition tcp_payload_length :: "u8 list \<Rightarrow> u32" where
  "tcp_payload_length l4 = (case dp_packet_get_tcp_payload l4 of
     Some ofs \<Rightarrow> word_of_nat (length l4 - ofs)
   | None \<Rightarrow> 0)"

definition tcp_invalid_flags :: "u16 \<Rightarrow> bool" where
  "tcp_invalid_flags flags =
     (if has flags TCP_SYN \<and> (has flags TCP_RST \<or> has flags TCP_FIN) then True
      else if \<not> has flags TCP_SYN \<and> \<not> has flags (TCP_ACK OR TCP_RST) then True
      else if \<not> has flags TCP_ACK
              \<and> (has flags TCP_FIN \<or> has flags TCP_PSH \<or> has flags TCP_URG) then True
      else False)"

text \<open>The option parser: \<open>i\<close> is the offset of \<open>opt\<close> in the packet and \<open>len\<close> the number of
  option bytes left.\<close>

definition opt_byte :: "u8 list \<Rightarrow> nat \<Rightarrow> u8" where
  "opt_byte l4 i = (if i < length l4 then l4 ! i else 0)"

function wscale_options :: "u8 list \<Rightarrow> nat \<Rightarrow> int \<Rightarrow> u8 \<Rightarrow> u8" where
  "wscale_options l4 i len wscale =
     (if len \<ge> 3 then
        (if opt_byte l4 i = TCPOPT_EOL then wscale
         else if opt_byte l4 i = TCPOPT_NOP then wscale_options l4 (i + 1) (len - 1) wscale
         else
           let wscale1 = (if opt_byte l4 i = TCPOPT_WINDOW
                          then min (opt_byte l4 (i + 2)) TCP_MAX_WSCALE OR CT_WSCALE_FLAG
                          else wscale);
               optlen = (if opt_byte l4 (i + 1) < 2 then 2 else opt_byte l4 (i + 1))
           in wscale_options l4 (i + unat optlen) (len - int (unat optlen)) wscale1)
      else wscale)"
  by pat_completeness auto

lemma optlen_ge: "2 \<le> unat (if b < 2 then 2 else b :: u8)"
proof (cases "b < 2")
  case False
  then have "\<not> unat b < unat (2::u8)" by (simp only: word_less_nat_alt not_False_eq_True)
  with False show ?thesis by simp
qed simp

termination wscale_options
proof (relation "measure (\<lambda>(l4, i, len, wscale). nat len)", goal_cases)
  case (3 l4 i len wscale x xa)
  have "2 \<le> unat xa" unfolding 3(5) by (rule optlen_ge)
  with 3(1) have "nat (len - int (unat xa)) < nat len" by linarith
  then show ?case by (simp only: in_measure prod.case)
qed simp_all

declare wscale_options.simps [simp del]

definition tcp_get_wscale :: "u8 list \<Rightarrow> u8" where
  "tcp_get_wscale l4 =
     wscale_options l4 TCP_HEADER_LEN (int (unat (TCP_OFFSET (tcp_ctl l4))) * 4 - 20) 0"

subsection \<open>The TCP tracker\<close>

text \<open>\<open>w << k\<close> of a 16-bit window in \<open>int\<close> arithmetic; with \<open>k\<close> at most 15 it is below
  \<open>2 ^ 31\<close>.\<close>

definition win_shl :: "u16 \<Rightarrow> u8 \<Rightarrow> u32" where
  "win_shl w k = push_bit (unat k) (ucast w)"

definition div_round_up_shl :: "u16 \<Rightarrow> u8 \<Rightarrow> u16" where
  "div_round_up_shl w k =
     ucast ((ucast w + push_bit (unat k) 1 - 1) div push_bit (unat k) (1::u32))"

text \<open>The local variables of \<open>tcp_conn_update\<close>.\<close>

record tcp_vars =
  x_src :: tcp_peer
  x_dst :: tcp_peer
  x_sws :: u8
  x_dws :: u8
  x_win :: u16
  x_seq :: u32
  x_ack :: u32
  x_end :: u32
  x_check_ackskew :: bool

definition tcp_scales :: "u16 \<Rightarrow> tcp_peer \<Rightarrow> tcp_peer \<Rightarrow> u8 \<times> u8" where
  "tcp_scales flags src dst =
     (if has (pr_wscale src) CT_WSCALE_FLAG \<and> has (pr_wscale dst) CT_WSCALE_FLAG
         \<and> \<not> has flags TCP_SYN
      then (pr_wscale src AND CT_WSCALE_MASK, pr_wscale dst AND CT_WSCALE_MASK)
      else if has (pr_wscale src) CT_WSCALE_UNKNOWN \<and> has (pr_wscale dst) CT_WSCALE_UNKNOWN
         \<and> \<not> has flags TCP_SYN
      then (TCP_MAX_WSCALE, TCP_MAX_WSCALE)
      else (0, 0))"

definition tcp_segment_end :: "u16 \<Rightarrow> u8 list \<Rightarrow> u32" where
  "tcp_segment_end flags l4 = tcp_seq l4 + tcp_payload_length l4
     + (if has flags TCP_SYN then 1 else 0) + (if has flags TCP_FIN then 1 else 0)"

text \<open>The window scale option of the first packet of an end, when it is a SYN in answer to
  one that offered scaling.\<close>

definition tcp_answer_scale :: "u16 \<Rightarrow> u8 list \<Rightarrow> tcp_vars \<Rightarrow> tcp_vars" where
  "tcp_answer_scale flags l4 x =
     (if has flags TCP_SYN \<and> has (pr_wscale (x_dst x)) CT_WSCALE_FLAG then
        let w = tcp_get_wscale l4; sws = w AND CT_WSCALE_MASK;
            dsc = pr_wscale (x_dst x) AND CT_WSCALE_MASK
        in if has w CT_WSCALE_FLAG
           then x\<lparr>x_src := (x_src x)\<lparr>pr_wscale := w\<rparr>, x_sws := sws,
                  x_win := div_round_up_shl (x_win x) sws, x_dws := dsc\<rparr>
           else x\<lparr>x_src := (x_src x)\<lparr>pr_wscale := w\<rparr>,
                  x_dst := (x_dst x)\<lparr>pr_max_win := ucast (win_shl (pr_max_win (x_dst x)) dsc),
                                     pr_wscale := 0\<rparr>\<rparr>
      else x)"

definition tcp_first_packet :: "u16 \<Rightarrow> u8 list \<Rightarrow> tcp_vars \<Rightarrow> tcp_vars" where
  "tcp_first_packet flags l4 x0 =
     (let x = tcp_answer_scale flags l4 x0;
          src = (x_src x)\<lparr>pr_seqlo := x_seq x, pr_state := CT_DPIF_TCPS_SYN_SENT\<rparr>;
          hi = x_end x + max 1 (win_shl (pr_max_win (x_dst x)) (x_dws x));
          slide = (pr_seqhi src = 1 \<or> SEQ_GEQ hi (pr_seqhi src));
          src = (if slide then src\<lparr>pr_seqhi := hi\<rparr> else src);
          src = (if x_win x > pr_max_win src then src\<lparr>pr_max_win := x_win x\<rparr> else src)
      in x\<lparr>x_src := src, x_check_ackskew := x_check_ackskew x \<and> \<not> slide\<rparr>)"

text \<open>The adjustments before the window test: no check of a missing acknowledgement, and
  eased sequencing for packets without data.\<close>

definition tcp_adjust :: "u16 \<Rightarrow> tcp_vars \<Rightarrow> tcp_vars" where
  "tcp_adjust flags x =
     (let x1 = (if \<not> has flags TCP_ACK then x\<lparr>x_ack := pr_seqlo (x_dst x)\<rparr>
                else if x_ack x = 0 \<and> flags AND (TCP_ACK OR TCP_RST) = TCP_ACK OR TCP_RST
                then x\<lparr>x_ack := pr_seqlo (x_dst x)\<rparr> else x)
      in if x_seq x1 = x_end x1
         then x1\<lparr>x_seq := pr_seqlo (x_src x1), x_end := pr_seqlo (x_src x1)\<rparr> else x1)"

definition tcp_in_window :: "u16 \<Rightarrow> u32 \<Rightarrow> tcp_vars \<Rightarrow> bool" where
  "tcp_in_window flags orig_seq x =
     (let src = x_src x; dst = x_dst x;
          ackskew = (if x_check_ackskew x then sint (pr_seqlo dst - x_ack x) else 0)
      in SEQ_GEQ (pr_seqhi src) (x_end x)
         \<and> SEQ_GEQ (x_seq x) (pr_seqlo src - win_shl (pr_max_win dst) (x_dws x))
         \<and> ackskew \<ge> - MAXACKWINDOW
         \<and> ackskew \<le> c_int (MAXACKWINDOW * 2 ^ unat (x_sws x))
         \<and> (\<not> has flags TCP_RST \<or> orig_seq = pr_seqlo src \<or> orig_seq = pr_seqlo src + 1
            \<or> orig_seq + 1 = pr_seqlo src))"

definition tcp_near_window :: "tcp_vars \<Rightarrow> bool" where
  "tcp_near_window x =
     (let src = x_src x; dst = x_dst x in
      (pr_state dst < CT_DPIF_TCPS_SYN_SENT \<or> pr_state dst \<ge> CT_DPIF_TCPS_FIN_WAIT_2
       \<or> pr_state src \<ge> CT_DPIF_TCPS_FIN_WAIT_2)
      \<and> SEQ_GEQ (pr_seqhi src + word_of_int MAXACKWINDOW) (x_end x)
      \<and> SEQ_GEQ (x_seq x) (pr_seqlo src - word_of_int MAXACKWINDOW))"

text \<open>The update of windows and sequence numbers, the same in both accepting branches.\<close>

definition tcp_synchronize :: "tcp_vars \<Rightarrow> tcp_vars" where
  "tcp_synchronize x =
     (let src = x_src x; dst = x_dst x;
          src = (if pr_max_win src < x_win x then src\<lparr>pr_max_win := x_win x\<rparr> else src);
          src = (if SEQ_GT (x_end x) (pr_seqlo src) then src\<lparr>pr_seqlo := x_end x\<rparr> else src);
          w = win_shl (x_win x) (x_sws x);
          dst = (if SEQ_GEQ (x_ack x + w) (pr_seqhi dst)
                 then dst\<lparr>pr_seqhi := x_ack x + max w 1\<rparr> else dst)
      in x\<lparr>x_src := src, x_dst := dst\<rparr>)"

definition tcp_reset_states :: "u16 \<Rightarrow> tcp_vars \<Rightarrow> tcp_vars" where
  "tcp_reset_states flags x =
     (if has flags TCP_RST
      then x\<lparr>x_src := (x_src x)\<lparr>pr_state := CT_DPIF_TCPS_TIME_WAIT\<rparr>,
             x_dst := (x_dst x)\<lparr>pr_state := CT_DPIF_TCPS_TIME_WAIT\<rparr>\<rparr>
      else x)"

definition tcp_fin_state :: "u16 \<Rightarrow> tcp_vars \<Rightarrow> tcp_vars" where
  "tcp_fin_state flags x =
     (if has flags TCP_FIN \<and> pr_state (x_src x) < CT_DPIF_TCPS_CLOSING
      then x\<lparr>x_src := (x_src x)\<lparr>pr_state := CT_DPIF_TCPS_CLOSING\<rparr>\<rparr> else x)"

definition tcp_update_states :: "u16 \<Rightarrow> tcp_vars \<Rightarrow> tcp_vars" where
  "tcp_update_states flags x =
     (let x1 = (if has flags TCP_SYN \<and> pr_state (x_src x) < CT_DPIF_TCPS_SYN_SENT
                then x\<lparr>x_src := (x_src x)\<lparr>pr_state := CT_DPIF_TCPS_SYN_SENT\<rparr>\<rparr> else x);
          x2 = tcp_fin_state flags x1;
          x3 = (if has flags TCP_ACK then
                  (if pr_state (x_dst x2) = CT_DPIF_TCPS_SYN_SENT
                   then x2\<lparr>x_dst := (x_dst x2)\<lparr>pr_state := CT_DPIF_TCPS_ESTABLISHED\<rparr>\<rparr>
                   else if pr_state (x_dst x2) = CT_DPIF_TCPS_CLOSING
                   then x2\<lparr>x_dst := (x_dst x2)\<lparr>pr_state := CT_DPIF_TCPS_FIN_WAIT_2\<rparr>\<rparr>
                   else x2)
                else x2)
      in tcp_reset_states flags x3)"

definition tcp_timeout :: "ct_dpif_tcp_state \<Rightarrow> ct_dpif_tcp_state \<Rightarrow> ct_timeout" where
  "tcp_timeout src dst =
     (if src \<ge> CT_DPIF_TCPS_FIN_WAIT_2 \<and> dst \<ge> CT_DPIF_TCPS_FIN_WAIT_2 then CT_TM_TCP_CLOSED
      else if src \<ge> CT_DPIF_TCPS_CLOSING \<and> dst \<ge> CT_DPIF_TCPS_CLOSING then CT_TM_TCP_FIN_WAIT
      else if src < CT_DPIF_TCPS_ESTABLISHED \<or> dst < CT_DPIF_TCPS_ESTABLISHED
      then CT_TM_TCP_OPENING
      else if src \<ge> CT_DPIF_TCPS_CLOSING \<or> dst \<ge> CT_DPIF_TCPS_CLOSING then CT_TM_TCP_CLOSING
      else CT_TM_TCP_ESTABLISHED)"

definition get_peers :: "bool \<Rightarrow> conn_tcp \<Rightarrow> tcp_peer \<times> tcp_peer" where
  "get_peers reply c = (if reply then (tc_peer1 c, tc_peer0 c) else (tc_peer0 c, tc_peer1 c))"

definition put_peers :: "bool \<Rightarrow> tcp_peer \<Rightarrow> tcp_peer \<Rightarrow> conn_tcp \<Rightarrow> conn_tcp" where
  "put_peers reply src dst c =
     (if reply then c\<lparr>tc_peer1 := src, tc_peer0 := dst\<rparr>
      else c\<lparr>tc_peer0 := src, tc_peer1 := dst\<rparr>)"

text \<open>The variables of \<open>tcp_conn_update\<close> when it reaches the window test.\<close>

definition tcp_prepare :: "u16 \<Rightarrow> u8 list \<Rightarrow> tcp_peer \<Rightarrow> tcp_peer \<Rightarrow> tcp_vars" where
  "tcp_prepare flags l4 src dst =
     (let (sws, dws) = tcp_scales flags src dst;
          x = \<lparr>x_src = src, x_dst = dst, x_sws = sws, x_dws = dws, x_win = tcp_winsz l4,
               x_seq = tcp_seq l4, x_ack = tcp_ack l4, x_end = tcp_segment_end flags l4,
               x_check_ackskew = True\<rparr>;
          x = (if pr_state src < CT_DPIF_TCPS_SYN_SENT then tcp_first_packet flags l4 x else x)
      in tcp_adjust flags x)"

definition tcp_conn_update :: "u8 list \<Rightarrow> bool \<Rightarrow> int \<Rightarrow> conntrack \<times> conn_tcp
    \<Rightarrow> (conntrack \<times> conn_tcp) \<times> ct_update_res" where
  "tcp_conn_update l4 reply now = (\<lambda>(ct, conn).
     let flags = TCP_FLAGS (tcp_ctl l4); (src, dst) = get_peers reply conn in
     if tcp_invalid_flags flags then ((ct, conn), CT_UPDATE_INVALID)
     else if flags AND (TCP_SYN OR TCP_ACK) = TCP_SYN
             \<and> pr_state dst \<ge> CT_DPIF_TCPS_FIN_WAIT_2 \<and> pr_state src \<ge> CT_DPIF_TCPS_FIN_WAIT_2
     then ((ct, put_peers reply (src\<lparr>pr_state := CT_DPIF_TCPS_CLOSED\<rparr>)
                  (dst\<lparr>pr_state := CT_DPIF_TCPS_CLOSED\<rparr>) conn), CT_UPDATE_NEW)
     else if flags AND (TCP_SYN OR TCP_ACK) = TCP_SYN \<and> pr_state src \<le> CT_DPIF_TCPS_SYN_SENT
     then (conn_update_expiration CT_TM_TCP_FIRST_PACKET now
             (ct, put_peers reply (src\<lparr>pr_state := CT_DPIF_TCPS_SYN_SENT\<rparr>) dst conn),
           CT_UPDATE_VALID_NEW)
     else
       let x = tcp_prepare flags l4 src dst in
       if tcp_in_window flags (tcp_seq l4) x \<or> \<not> ct_tcp_seq_chk ct then
         let y = tcp_update_states flags (tcp_synchronize x) in
         (conn_update_expiration (tcp_timeout (pr_state (x_src y)) (pr_state (x_dst y))) now
            (ct, put_peers reply (x_src y) (x_dst y) conn), CT_UPDATE_VALID)
       else if tcp_near_window x then
         let y = tcp_reset_states flags (tcp_fin_state flags (tcp_synchronize x)) in
         ((ct, put_peers reply (x_src y) (x_dst y) conn), CT_UPDATE_VALID)
       else ((ct, put_peers reply (x_src x) (x_dst x) conn), CT_UPDATE_INVALID))"

definition tcp_valid_new :: "u8 list \<Rightarrow> bool" where
  "tcp_valid_new l4 =
     (let flags = TCP_FLAGS (tcp_ctl l4) in
      if tcp_invalid_flags flags then False
      else if has flags TCP_SYN \<and> has flags TCP_ACK then False
      else True)"

definition zero_peer :: tcp_peer where
  "zero_peer = \<lparr>pr_seqlo = 0, pr_seqhi = 0, pr_max_win = 0, pr_wscale = 0,
     pr_state = CT_DPIF_TCPS_CLOSED\<rparr>"

definition tcp_new_conn :: "nat \<Rightarrow> u8 list \<Rightarrow> int \<Rightarrow> u32 \<Rightarrow> conntrack \<Rightarrow> conntrack \<times> conn_tcp" where
  "tcp_new_conn addr l4 now i ct =
     (let flags = TCP_FLAGS (tcp_ctl l4);
          src = zero_peer\<lparr>pr_seqlo := tcp_seq l4,
                  pr_seqhi := tcp_seq l4 + tcp_payload_length l4 + 1\<rparr>;
          dst = zero_peer;
          (src, dst) = (if has flags TCP_SYN
             then (src\<lparr>pr_seqhi := pr_seqhi src + 1, pr_wscale := tcp_get_wscale l4\<rparr>, dst)
             else (src\<lparr>pr_wscale := CT_WSCALE_UNKNOWN\<rparr>, dst\<lparr>pr_wscale := CT_WSCALE_UNKNOWN\<rparr>));
          src = src\<lparr>pr_max_win := max (tcp_winsz l4) 1\<rparr>;
          sws = pr_wscale src AND CT_WSCALE_MASK;
          src = (if sws \<noteq> 0 then src\<lparr>pr_max_win := div_round_up_shl (pr_max_win src) sws\<rparr>
                 else src);
          src = (if has flags TCP_FIN then src\<lparr>pr_seqhi := pr_seqhi src + 1\<rparr> else src);
          src = src\<lparr>pr_state := CT_DPIF_TCPS_SYN_SENT\<rparr>;
          dst = dst\<lparr>pr_seqhi := 1, pr_max_win := 1, pr_state := CT_DPIF_TCPS_CLOSED\<rparr>
      in conn_init_expiration CT_TM_TCP_FIRST_PACKET now
           (ct, \<lparr>cn_addr = addr, cn_expiration = 0, cn_cleaned = False, cn_tp_id = i,
                 tc_peer0 = src, tc_peer1 = dst\<rparr>))"

definition CT_DPIF_TCPF_WINDOW_SCALE :: u8 where "CT_DPIF_TCPF_WINDOW_SCALE = 1"
definition CT_DPIF_TCPF_BE_LIBERAL :: u8 where "CT_DPIF_TCPF_BE_LIBERAL = 8"

definition tcp_peer_to_protoinfo_flags :: "tcp_peer \<Rightarrow> u8" where
  "tcp_peer_to_protoinfo_flags p =
     (if has (pr_wscale p) CT_WSCALE_FLAG then CT_DPIF_TCPF_WINDOW_SCALE else 0)
     OR (if has (pr_wscale p) CT_WSCALE_UNKNOWN then CT_DPIF_TCPF_BE_LIBERAL else 0)"

definition IPPROTO_TCP :: u16 where "IPPROTO_TCP = 6"

record ct_dpif_protoinfo =
  pi_proto :: u16
  pi_state_orig :: ct_dpif_tcp_state
  pi_state_reply :: ct_dpif_tcp_state
  pi_wscale_orig :: u8
  pi_wscale_reply :: u8
  pi_flags_orig :: u8
  pi_flags_reply :: u8

definition tcp_conn_get_protoinfo :: "conn_tcp \<Rightarrow> ct_dpif_protoinfo" where
  "tcp_conn_get_protoinfo c = \<lparr>pi_proto = IPPROTO_TCP,
     pi_state_orig = pr_state (tc_peer0 c), pi_state_reply = pr_state (tc_peer1 c),
     pi_wscale_orig = pr_wscale (tc_peer0 c) AND CT_WSCALE_MASK,
     pi_wscale_reply = pr_wscale (tc_peer1 c) AND CT_WSCALE_MASK,
     pi_flags_orig = tcp_peer_to_protoinfo_flags (tc_peer0 c),
     pi_flags_reply = tcp_peer_to_protoinfo_flags (tc_peer1 c)\<rparr>"

subsection \<open>The ICMP tracker\<close>

datatype icmp_state = ICMPS_FIRST | ICMPS_REPLY

record conn_icmp = conn +
  ic_state :: icmp_state

fun icmp_timeouts :: "icmp_state \<Rightarrow> ct_timeout" where
  "icmp_timeouts ICMPS_FIRST = CT_TM_ICMP_FIRST"
| "icmp_timeouts ICMPS_REPLY = CT_TM_ICMP_REPLY"

definition icmp_conn_update :: "u8 list \<Rightarrow> bool \<Rightarrow> int \<Rightarrow> conntrack \<times> conn_icmp
    \<Rightarrow> (conntrack \<times> conn_icmp) \<times> ct_update_res" where
  "icmp_conn_update l4 reply now = (\<lambda>(ct, conn).
     let conn = (if reply \<and> ic_state conn = ICMPS_FIRST then conn\<lparr>ic_state := ICMPS_REPLY\<rparr>
                 else conn)
     in (conn_update_expiration (icmp_timeouts (ic_state conn)) now (ct, conn), CT_UPDATE_VALID))"

definition ICMP4_ECHO_REQUEST :: u8 where "ICMP4_ECHO_REQUEST = 8"
definition ICMP4_TIMESTAMP :: u8 where "ICMP4_TIMESTAMP = 13"
definition ICMP4_INFOREQUEST :: u8 where "ICMP4_INFOREQUEST = 15"
definition ICMP6_ECHO_REQUEST :: u8 where "ICMP6_ECHO_REQUEST = 128"

definition icmp4_valid_new :: "u8 list \<Rightarrow> bool" where
  "icmp4_valid_new l4 \<longleftrightarrow>
     (let icmp_type = opt_byte l4 0 in
      icmp_type = ICMP4_ECHO_REQUEST \<or> icmp_type = ICMP4_INFOREQUEST
      \<or> icmp_type = ICMP4_TIMESTAMP)"

definition icmp6_valid_new :: "u8 list \<Rightarrow> bool" where
  "icmp6_valid_new l4 \<longleftrightarrow> opt_byte l4 0 = ICMP6_ECHO_REQUEST"

definition icmp_new_conn :: "nat \<Rightarrow> u8 list \<Rightarrow> int \<Rightarrow> u32 \<Rightarrow> conntrack \<Rightarrow> conntrack \<times> conn_icmp" where
  "icmp_new_conn addr l4 now i ct =
     conn_init_expiration (icmp_timeouts ICMPS_FIRST) now
       (ct, \<lparr>cn_addr = addr, cn_expiration = 0, cn_cleaned = False, cn_tp_id = i,
             ic_state = ICMPS_FIRST\<rparr>)"

subsection \<open>The tracker of other protocols\<close>

datatype other_state = OTHERS_FIRST | OTHERS_MULTIPLE | OTHERS_BIDIR

record conn_other = conn +
  oc_state :: other_state

fun other_timeouts :: "other_state \<Rightarrow> ct_timeout" where
  "other_timeouts OTHERS_FIRST = CT_TM_OTHER_FIRST"
| "other_timeouts OTHERS_MULTIPLE = CT_TM_OTHER_MULTIPLE"
| "other_timeouts OTHERS_BIDIR = CT_TM_OTHER_BIDIR"

definition other_conn_update :: "u8 list \<Rightarrow> bool \<Rightarrow> int \<Rightarrow> conntrack \<times> conn_other
    \<Rightarrow> (conntrack \<times> conn_other) \<times> ct_update_res" where
  "other_conn_update l4 reply now = (\<lambda>(ct, conn).
     let (conn, ret) =
       (if reply \<and> oc_state conn \<noteq> OTHERS_BIDIR
        then (conn\<lparr>oc_state := OTHERS_BIDIR\<rparr>, CT_UPDATE_VALID)
        else if oc_state conn = OTHERS_FIRST
        then (conn\<lparr>oc_state := OTHERS_MULTIPLE\<rparr>, CT_UPDATE_VALID_NEW)
        else (conn, CT_UPDATE_VALID))
     in (conn_update_expiration (other_timeouts (oc_state conn)) now (ct, conn), ret))"

definition other_valid_new :: "u8 list \<Rightarrow> bool" where
  "other_valid_new l4 = True"

definition other_new_conn :: "nat \<Rightarrow> u8 list \<Rightarrow> int \<Rightarrow> u32 \<Rightarrow> conntrack \<Rightarrow> conntrack \<times> conn_other" where
  "other_new_conn addr l4 now i ct =
     conn_init_expiration (other_timeouts OTHERS_FIRST) now
       (ct, \<lparr>cn_addr = addr, cn_expiration = 0, cn_cleaned = False, cn_tp_id = i,
             oc_state = OTHERS_FIRST\<rparr>)"

end
