(* ===== verification/StpSpec.thy ===== *)
theory StpSpec
  imports Stp
begin

text \<open>
  The properties of the spanning tree of theory \<open>Stp\<close>: the wire format of BPDUs, the choice
  of the root port, the invariant that every operation of the module keeps, the path of a port
  to the forwarding state, the limit on the rate of config BPDUs, and the timers.
\<close>

subsection \<open>State masks\<close>

lemma state_bits_zero [simp]: "stp_state_bits s = 0 \<longleftrightarrow> s = STP_ZERO"
  by (cases s) simp_all

lemma state_bits_and: "stp_state_bits s AND stp_state_bits t = (if s = t then stp_state_bits s else 0)"
  by (cases s; cases t) simp_all

lemma state_in_iff [simp]: "state_in s ms \<longleftrightarrow> s \<noteq> STP_ZERO \<and> s \<in> set ms"
proof -
  have "stp_state_bits s AND foldr (\<lambda>m a. stp_state_bits m OR a) ms 0 =
      (if s \<in> set ms then stp_state_bits s else 0)"
    by (induction ms) (simp_all add: bit.conj_disj_distrib state_bits_and)
  then show ?thesis by (simp add: state_in_def)
qed

subsection \<open>The wire format\<close>

lemma be_field_cons_skip [wire]: "0 < off \<Longrightarrow> be_field off n (b # bs) = be_field (off - 1) n bs"
  by (cases off) (simp_all add: be_field_def)

lemma be_field_cons_here [wire]: "be_field 0 (Suc 0) (b # bs) = unat b"
  by (simp add: be_field_def be_get_def)

interpretation header_wire: wire_format 4 put_header get_header
  by unfold_locales (simp_all add: put_header_def get_header_def wire unat_byte)

interpretation config_wire: wire_format 35 put_config get_config
proof unfold_locales
  fix c :: stp_config_bpdu and rest
  show "length (put_config c) = 35"
    by (simp add: put_config_def header_wire.enc_width)
  have h: "get_header (put_config c @ rest) = cb_header c"
    unfolding put_config_def append_assoc by (rule header_wire.dec_enc)
  have f: "be_field off n (put_header (cb_header c) @ bs) = be_field (off - 4) n bs" if "4 \<le> off" for off n bs
    using that by (simp add: be_field_skip header_wire.enc_width)
  show "get_config (put_config c @ rest) = c"
    unfolding get_config_def h unfolding put_config_def append_assoc
    by (simp add: f wire unat_byte)
qed

subsection \<open>The tree view of a bridge\<close>

text \<open>
  What the choice of the spanning tree depends on: of each port its identifier, path cost,
  designated information, state and forward delay timer, and of the bridge its identifier, the
  root, the cost and the root port. Counters, acknowledgements, the other timers and the frames
  sent are not part of it, so most operations do not change the view.
\<close>

record tree =
  tr_bridge_id :: u64
  tr_root :: u64
  tr_cost :: u32
  tr_root_port :: "nat option"

definition core_port :: "stp_port \<Rightarrow> stp_port" where
  "core_port p = p\<lparr>sp_port_name := [], sp_aux := None, sp_topology_change_ack := False,
     sp_config_pending := False, sp_change_detection_enabled := False,
     sp_message_age_timer := zero_timer, sp_hold_timer := zero_timer, sp_tx_count := 0,
     sp_rx_count := 0, sp_error_count := 0, sp_state_changed := False\<rparr>"

definition tree :: "stp \<Rightarrow> tree" where
  "tree s = \<lparr>tr_bridge_id = st_bridge_id s, tr_root = st_designated_root s,
     tr_cost = st_root_path_cost s, tr_root_port = st_root_port s\<rparr>"

definition views :: "stp \<Rightarrow> stp_port list" where
  "views s = map core_port (st_ports s)"

lemma core_port_sel [simp]:
  "sp_port_id (core_port p) = sp_port_id p" "sp_state (core_port p) = sp_state p"
  "sp_path_cost (core_port p) = sp_path_cost p"
  "sp_designated_root (core_port p) = sp_designated_root p"
  "sp_designated_cost (core_port p) = sp_designated_cost p"
  "sp_designated_bridge (core_port p) = sp_designated_bridge p"
  "sp_designated_port (core_port p) = sp_designated_port p"
  "sp_forward_delay_timer (core_port p) = sp_forward_delay_timer p"
  by (simp_all add: core_port_def)

lemma core_port_keep [simp]:
  "core_port (sp_port_id_update f0 p) = sp_port_id_update f0 (core_port p)"
  "core_port (sp_state_update f1 p) = sp_state_update f1 (core_port p)"
  "core_port (sp_path_cost_update f2 p) = sp_path_cost_update f2 (core_port p)"
  "core_port (sp_designated_root_update f3 p) = sp_designated_root_update f3 (core_port p)"
  "core_port (sp_designated_cost_update f4 p) = sp_designated_cost_update f4 (core_port p)"
  "core_port (sp_designated_bridge_update f5 p) = sp_designated_bridge_update f5 (core_port p)"
  "core_port (sp_designated_port_update f6 p) = sp_designated_port_update f6 (core_port p)"
  "core_port (sp_forward_delay_timer_update f7 p) = sp_forward_delay_timer_update f7 (core_port p)"
  by (cases p, simp add: core_port_def)+

lemma core_port_drop [simp]:
  "core_port (sp_port_name_update f0 p) = core_port p"
  "core_port (sp_aux_update f1 p) = core_port p"
  "core_port (sp_topology_change_ack_update f2 p) = core_port p"
  "core_port (sp_config_pending_update f3 p) = core_port p"
  "core_port (sp_change_detection_enabled_update f4 p) = core_port p"
  "core_port (sp_message_age_timer_update f5 p) = core_port p"
  "core_port (sp_hold_timer_update f6 p) = core_port p"
  "core_port (sp_tx_count_update f7 p) = core_port p"
  "core_port (sp_rx_count_update f8 p) = core_port p"
  "core_port (sp_error_count_update f9 p) = core_port p"
  "core_port (sp_state_changed_update f10 p) = core_port p"
  by (cases p, simp add: core_port_def)+

lemma tree_sel [simp]:
  "tr_bridge_id (tree s) = st_bridge_id s" "tr_root (tree s) = st_designated_root s"
  "tr_cost (tree s) = st_root_path_cost s" "tr_root_port (tree s) = st_root_port s"
  by (simp_all add: tree_def)

lemma length_views [simp]: "length (views s) = length (st_ports s)"
  by (simp add: views_def)

lemma views_nth: "i < length (st_ports s) \<Longrightarrow> views s ! i = core_port (port s i)"
  by (simp add: views_def)

lemma views_same [simp]: "(views s)[i := core_port (port s i)] = views s"
  by (cases "i < length (st_ports s)") (simp_all add: views_def list_update_beyond flip: map_update)

lemma upd_port_sel [simp]:
  "tree (upd_port i f s) = tree s"
  "length (st_ports (upd_port i f s)) = length (st_ports s)"
  "st_aborted (upd_port i f s) = st_aborted s"
  "st_bridge_id (upd_port i f s) = st_bridge_id s"
  "st_designated_root (upd_port i f s) = st_designated_root s"
  "st_root_path_cost (upd_port i f s) = st_root_path_cost s"
  "st_root_port (upd_port i f s) = st_root_port s"
  "st_sent (upd_port i f s) = st_sent s"
  "st_max_age (upd_port i f s) = st_max_age s"
  "st_topology_change (upd_port i f s) = st_topology_change s"
  by (simp_all add: upd_port_def tree_def)

lemma port_upd_port:
  "i < length (st_ports s) \<Longrightarrow> port (upd_port i f s) j = (if i = j then f (port s i) else port s j)"
  by (simp add: upd_port_def nth_list_update)

lemma views_upd_port: "views (upd_port i f s) = (views s)[i := core_port (f (port s i))]"
  by (simp add: views_def upd_port_def map_update)

lemma views_upd_quiet:
  assumes "\<And>p. core_port (f p) = core_port p"
  shows "views (upd_port i f s) = views s"
proof (cases "i < length (st_ports s)")
  case True
  then show ?thesis unfolding views_upd_port assms views_nth [OF True, symmetric] by simp
qed (simp add: views_def upd_port_def list_update_beyond)

text \<open>An operation is quiet when it leaves the view alone.\<close>

definition quiet :: "(stp \<Rightarrow> stp) \<Rightarrow> bool" where
  "quiet f \<longleftrightarrow> (\<forall>s. tree (f s) = tree s \<and> views (f s) = views s)"

lemma quietI: "(\<And>s. tree (f s) = tree s) \<Longrightarrow> (\<And>s. views (f s) = views s) \<Longrightarrow> quiet f"
  by (simp add: quiet_def)

lemma quiet_tree: "quiet f \<Longrightarrow> tree (f s) = tree s"
  and quiet_views: "quiet f \<Longrightarrow> views (f s) = views s"
  by (simp_all add: quiet_def)

lemma quiet_upd: "(\<And>p. core_port (f p) = core_port p) \<Longrightarrow> quiet (upd_port i f)"
  by (simp add: quiet_def views_upd_quiet)

lemma quiet_fold: "(\<And>i. quiet (f i)) \<Longrightarrow> quiet (fold f xs)"
  by (induction xs) (simp_all add: quiet_def)

lemma quiet_loop: "(\<And>i. quiet (f i)) \<Longrightarrow> quiet (for_each_enabled f)"
  unfolding quiet_def for_each_enabled_def
  using quiet_fold [of "\<lambda>i s. if sp_state (port s i) \<noteq> STP_DISABLED then f i s else s"]
  by (simp add: quiet_def)

named_theorems quiet_ops \<open>the operations that leave the view alone\<close>

lemma quiet_send [quiet_ops]: "quiet (stp_send_bpdu i b)"
  by (rule quietI) (simp_all add: stp_send_bpdu_def views_upd_quiet,
    simp_all add: tree_def views_def)

lemma quiet_send_config [quiet_ops]: "quiet (send_config i a)"
  by (rule quietI) (simp_all add: send_config_def Let_def quiet_send [THEN quiet_tree]
    quiet_send [THEN quiet_views] views_upd_quiet)

lemma quiet_transmit_config [quiet_ops]: "quiet (stp_transmit_config i)"
  by (rule quietI) (simp_all add: stp_transmit_config_def quiet_send_config [THEN quiet_tree]
    quiet_send_config [THEN quiet_views] views_upd_quiet split: option.split)

lemma quiet_generation [quiet_ops]: "quiet stp_config_bpdu_generation"
  unfolding stp_config_bpdu_generation_def
  by (rule quiet_loop) (simp add: quiet_def quiet_transmit_config [THEN quiet_tree]
    quiet_transmit_config [THEN quiet_views])

lemma quiet_tcn [quiet_ops]: "quiet stp_transmit_tcn"
  by (rule quietI) (simp_all add: stp_transmit_tcn_def quiet_send [THEN quiet_tree]
    quiet_send [THEN quiet_views] split: option.split)

lemma view_timer_upd [simp]:
  "tree (s\<lparr>st_tcn_timer := t\<rparr>) = tree s" "views (s\<lparr>st_tcn_timer := t\<rparr>) = views s"
  "tree (s\<lparr>st_hello_timer := t\<rparr>) = tree s" "views (s\<lparr>st_hello_timer := t\<rparr>) = views s"
  "tree (s\<lparr>st_topology_change_timer := t\<rparr>) = tree s"
  "views (s\<lparr>st_topology_change_timer := t\<rparr>) = views s"
  "tree (s\<lparr>st_fdb_needs_flush := b\<rparr>) = tree s" "views (s\<lparr>st_fdb_needs_flush := b\<rparr>) = views s"
  "tree (s\<lparr>st_topology_change_detected := b\<rparr>) = tree s"
  "views (s\<lparr>st_topology_change_detected := b\<rparr>) = views s"
  "tree (s\<lparr>st_topology_change := b\<rparr>) = tree s" "views (s\<lparr>st_topology_change := b\<rparr>) = views s"
  "tree (s\<lparr>st_max_age := m\<rparr>) = tree s" "views (s\<lparr>st_max_age := m\<rparr>) = views s"
  "tree (s\<lparr>st_hello_time := m\<rparr>) = tree s" "views (s\<lparr>st_hello_time := m\<rparr>) = views s"
  "tree (s\<lparr>st_forward_delay := m\<rparr>) = tree s" "views (s\<lparr>st_forward_delay := m\<rparr>) = views s"
  "tree (s\<lparr>st_first_changed_port := i\<rparr>) = tree s"
  "views (s\<lparr>st_first_changed_port := i\<rparr>) = views s"
  "tree (s\<lparr>st_elapsed_remainder := m\<rparr>) = tree s"
  "views (s\<lparr>st_elapsed_remainder := m\<rparr>) = views s"
  "tree (seq_change s) = tree s" "views (seq_change s) = views s"
  by (simp_all add: tree_def views_def seq_change_def)

lemmas quiet_rules = quiet_ops [THEN quiet_tree] quiet_ops [THEN quiet_views]

lemma quiet_detection [quiet_ops]: "quiet stp_topology_change_detection"
  by (rule quietI) (simp_all add: stp_topology_change_detection_def Let_def quiet_rules)

lemma quiet_become_root [quiet_ops]: "quiet stp_become_root_bridge"
  by (rule quietI) (simp_all add: stp_become_root_bridge_def Let_def quiet_rules
    quiet_detection [THEN quiet_tree] quiet_detection [THEN quiet_views])

subsection \<open>Loops over the ports\<close>

text \<open>
  A loop body that treats port \<open>i\<close> as \<open>g\<close> does, as a function of the bridge's part of the
  view and of the port, and leaves the bridge and the other ports alone: then the loop treats
  every enabled port so.
\<close>

definition enabled :: "stp_port \<Rightarrow> bool" where
  "enabled p \<longleftrightarrow> sp_state p \<noteq> STP_DISABLED"

lemma enabled_core [simp]: "enabled (core_port p) = enabled p"
  by (simp add: enabled_def)

locale port_loop =
  fixes body :: "nat \<Rightarrow> stp \<Rightarrow> stp"
    and g :: "tree \<Rightarrow> nat \<Rightarrow> stp_port \<Rightarrow> stp_port"
  assumes body_tree: "tree (body i s) = tree s"
    and body_views: "i < length (st_ports s) \<Longrightarrow> enabled (port s i) \<Longrightarrow>
      views (body i s) = (views s)[i := g (tree s) i (views s ! i)]"
begin

lemma prefix_views:
  assumes "k \<le> length (st_ports s)"
  defines "t \<equiv> fold (\<lambda>i s. if sp_state (port s i) \<noteq> STP_DISABLED then body i s else s) [0..<k] s"
  shows "tree t = tree s \<and> length (st_ports t) = length (st_ports s) \<and>
    (\<forall>i < length (st_ports s). views t ! i =
       (if i < k \<and> enabled (views s ! i) then g (tree s) i (views s ! i) else views s ! i))"
  using assms(1) unfolding t_def
proof (induction k)
  case (Suc k)
  let ?f = "\<lambda>i s. if sp_state (port s i) \<noteq> STP_DISABLED then body i s else s"
  define u where "u = fold ?f [0..<k] s"
  from Suc have tu: "tree u = tree s" and lu: "length (st_ports u) = length (st_ports s)"
    and vu: "\<And>i. i < length (st_ports s) \<Longrightarrow> views u ! i =
       (if i < k \<and> enabled (views s ! i) then g (tree s) i (views s ! i) else views s ! i)"
    by (simp_all add: u_def)
  have k: "k < length (st_ports s)" using Suc by simp
  have "enabled (views u ! k) = enabled (port u k)" using k lu by (simp add: views_nth)
  with vu [OF k] have e: "enabled (port u k) = enabled (views s ! k)" by simp
  have step: "fold ?f [0..<Suc k] s = (if enabled (port u k) then body k u else u)"
    by (simp add: u_def enabled_def)
  show ?case
  proof (cases "enabled (port u k)")
    case True
    then have b: "views (body k u) = (views u)[k := g (tree s) k (views u ! k)]"
      using k lu by (simp add: body_views tu)
    then have "length (views (body k u)) = length (views u)" by simp
    then have l: "length (st_ports (body k u)) = length (st_ports s)" by (simp add: lu)
    have n: "views (body k u) ! i = (if i < Suc k \<and> enabled (views s ! i)
        then g (tree s) i (views s ! i) else views s ! i)" if i: "i < length (st_ports s)" for i
      using True e b k lu vu [OF k] vu [OF i] by (cases "i = k") (auto simp: less_Suc_eq)
    show ?thesis unfolding step using True n l tu by (simp add: body_tree)
  next
    case False
    then show ?thesis unfolding step using tu lu vu e by (auto simp: less_Suc_eq)
  qed
qed simp

lemma loop_tree: "tree (for_each_enabled body s) = tree s"
  and loop_length: "length (st_ports (for_each_enabled body s)) = length (st_ports s)"
  and loop_views: "i < length (st_ports s) \<Longrightarrow> views (for_each_enabled body s) ! i =
    (if enabled (views s ! i) then g (tree s) i (views s ! i) else views s ! i)"
  using prefix_views [of "length (st_ports s)" s] unfolding for_each_enabled_def by simp_all

end

subsection \<open>Designated ports and port states in the view\<close>

definition designated_view :: "tree \<Rightarrow> stp_port \<Rightarrow> bool" where
  "designated_view T p \<longleftrightarrow> sp_designated_bridge p = tr_bridge_id T \<and> sp_designated_port p = sp_port_id p"

definition designate_view :: "tree \<Rightarrow> stp_port \<Rightarrow> stp_port" where
  "designate_view T p = p\<lparr>sp_designated_root := tr_root T, sp_designated_cost := sint (tr_cost T),
     sp_designated_bridge := tr_bridge_id T, sp_designated_port := sp_port_id p\<rparr>"

definition claims_view :: "tree \<Rightarrow> stp_port \<Rightarrow> bool" where
  "claims_view T p \<longleftrightarrow> designated_view T p \<or> sp_designated_root p \<noteq> tr_root T
     \<or> tr_cost T < word_of_int (sp_designated_cost p)
     \<or> (tr_cost T = word_of_int (sp_designated_cost p)
        \<and> (tr_bridge_id T < sp_designated_bridge p
           \<or> (tr_bridge_id T = sp_designated_bridge p \<and> sp_port_id p \<le> sp_designated_port p)))"

definition select_designated :: "tree \<Rightarrow> stp_port \<Rightarrow> stp_port" where
  "select_designated T p = (if claims_view T p then designate_view T p else p)"

definition forwarding_view :: "stp_port \<Rightarrow> stp_port" where
  "forwarding_view p = (if sp_state p = STP_BLOCKING
     then sp_forward_delay_timer_update (stp_start_timer 0) (p\<lparr>sp_state := STP_LISTENING\<rparr>) else p)"

definition blocking_view :: "stp_port \<Rightarrow> stp_port" where
  "blocking_view p = (if sp_state p = STP_DISABLED \<or> sp_state p = STP_BLOCKING then p
     else sp_forward_delay_timer_update stp_stop_timer (p\<lparr>sp_state := STP_BLOCKING\<rparr>))"

definition select_state :: "tree \<Rightarrow> nat \<Rightarrow> stp_port \<Rightarrow> stp_port" where
  "select_state T i p = (if tr_root_port T = Some i \<or> designated_view T p
     then forwarding_view p else blocking_view p)"

lemma designated_iff: "i < length (st_ports s) \<Longrightarrow>
    stp_is_designated_port s i = designated_view (tree s) (views s ! i)"
  by (simp add: stp_is_designated_port_def designated_view_def views_nth)

lemma claims_iff: "i < length (st_ports s) \<Longrightarrow>
    claims_designated s i = claims_view (tree s) (views s ! i)"
  by (simp add: claims_designated_def claims_view_def designated_iff Let_def views_nth)

lemma become_designated_views:
  "tree (stp_become_designated_port i s) = tree s"
  "i < length (st_ports s) \<Longrightarrow>
    views (stp_become_designated_port i s) = (views s)[i := designate_view (tree s) (views s ! i)]"
  by (simp_all add: stp_become_designated_port_def views_upd_port views_nth designate_view_def)

interpretation designation: port_loop
  "\<lambda>i s. if claims_designated s i then stp_become_designated_port i s else s"
  "\<lambda>T i. select_designated T"
  by unfold_locales (simp_all add: become_designated_views claims_iff select_designated_def)

lemma set_state_views:
  "tree (stp_set_port_state i st s) = tree s"
  "views (stp_set_port_state i st s) = (views s)[i := core_port ((port s i)\<lparr>sp_state := st\<rparr>)]"
  "length (st_ports (stp_set_port_state i st s)) = length (st_ports s)"
proof -
  show "tree (stp_set_port_state i st s) = tree s"
    by (simp add: stp_set_port_state_def Let_def)
  show v: "views (stp_set_port_state i st s) = (views s)[i := core_port ((port s i)\<lparr>sp_state := st\<rparr>)]"
  proof (cases "i < length (st_ports s)")
    case True
    then show ?thesis
      by (simp add: stp_set_port_state_def Let_def views_def upd_port_def seq_change_def map_update)
  next
    case False
    then show ?thesis
      by (simp add: stp_set_port_state_def Let_def views_def upd_port_def seq_change_def
        list_update_beyond)
  qed
  from v have "length (views (stp_set_port_state i st s)) = length (views s)" by simp
  then show "length (st_ports (stp_set_port_state i st s)) = length (st_ports s)" by simp
qed

lemma set_state_port:
  assumes "i < length (st_ports s)"
  shows "core_port (port (stp_set_port_state i st s) i) = (core_port (port s i))\<lparr>sp_state := st\<rparr>"
  using views_nth [of i "stp_set_port_state i st s"] assms by (simp add: set_state_views)

lemma make_forwarding_views:
  assumes "i < length (st_ports s)"
  shows "tree (stp_make_forwarding i s) = tree s"
    and "views (stp_make_forwarding i s) = (views s)[i := forwarding_view (views s ! i)]"
  using assms by (simp_all add: stp_make_forwarding_def set_state_views forwarding_view_def
    views_upd_port set_state_port views_nth)

lemma quiet_length: "quiet f \<Longrightarrow> length (st_ports (f s)) = length (st_ports s)"
  by (metis length_views quiet_views)

lemma quiet_port: "quiet f \<Longrightarrow> i < length (st_ports s) \<Longrightarrow> core_port (port (f s) i) = core_port (port s i)"
  by (metis quiet_length quiet_views views_nth)

lemma make_blocking_views:
  assumes i: "i < length (st_ports s)"
  shows "tree (stp_make_blocking i s) = tree s"
    and "views (stp_make_blocking i s) = (views s)[i := blocking_view (views s ! i)]"
proof -
  define u where "u = (if state_in (sp_state (port s i)) [STP_FORWARDING, STP_LEARNING]
      \<and> sp_change_detection_enabled (port s i) then stp_topology_change_detection s else s)"
  have u: "tree u = tree s" "views u = views s" "length (st_ports u) = length (st_ports s)"
      "core_port (port u i) = core_port (port s i)"
    by (simp_all add: u_def quiet_detection [THEN quiet_tree] quiet_detection [THEN quiet_views]
      quiet_detection [THEN quiet_length] quiet_detection [THEN quiet_port] i)
  have eq: "stp_make_blocking i s = (if sp_state (port s i) = STP_DISABLED \<or> sp_state (port s i) = STP_BLOCKING
      then s else upd_port i (sp_forward_delay_timer_update stp_stop_timer) (stp_set_port_state i STP_BLOCKING u))"
    by (auto simp: stp_make_blocking_def u_def Let_def)
  show "tree (stp_make_blocking i s) = tree s"
    by (simp add: eq set_state_views u)
  show "views (stp_make_blocking i s) = (views s)[i := blocking_view (views s ! i)]"
    using i u by (simp add: eq set_state_views views_upd_port set_state_port blocking_view_def views_nth)
qed

lemma select_port_state_views:
  assumes i: "i < length (st_ports s)"
  shows "tree (select_port_state i s) = tree s"
    and "views (select_port_state i s) = (views s)[i := select_state (tree s) i (views s ! i)]"
  using assms
  by (simp_all add: select_port_state_def make_forwarding_views make_blocking_views port_upd_port
    views_upd_quiet select_state_def designated_iff)

lemma select_port_state_tree: "tree (select_port_state i s) = tree s"
proof -
  have "tree (stp_make_blocking i s) = tree s" for s
    by (simp add: stp_make_blocking_def Let_def set_state_views quiet_detection [THEN quiet_tree])
  then show ?thesis
    by (simp add: select_port_state_def stp_make_forwarding_def set_state_views)
qed

interpretation state_selection: port_loop select_port_state select_state
  by unfold_locales (simp_all add: select_port_state_tree select_port_state_views)

subsection \<open>The choice of the root port\<close>

text \<open>The order in which ports are preferred as the root port.\<close>

definition root_key :: "stp_port \<Rightarrow> u64 \<times> int \<times> u64 \<times> int \<times> int" where
  "root_key p = (sp_designated_root p, c_int (sp_designated_cost p + sp_path_cost p),
     sp_designated_bridge p, sp_designated_port p, sp_port_id p)"

fun key_less :: "u64 \<times> int \<times> u64 \<times> int \<times> int \<Rightarrow> u64 \<times> int \<times> u64 \<times> int \<times> int \<Rightarrow> bool" where
  "key_less (a, b, c, d, e) (a', b', c', d', e') \<longleftrightarrow>
     a < a' \<or> (a = a' \<and> (b < b' \<or> (b = b' \<and> (c < c' \<or> (c = c' \<and> (d < d' \<or> (d = d' \<and> e < e')))))))"

lemma supersedes_iff: "stp_supersedes_root r p = key_less (root_key p) (root_key r)"
  by (auto simp: stp_supersedes_root_def root_key_def Let_def)

lemma key_less_trans: "key_less x y \<Longrightarrow> key_less y z \<Longrightarrow> key_less x z"
  by (cases x, cases y, cases z) auto

lemma key_less_total: "\<not> key_less x y \<Longrightarrow> key_less y x \<or> x = y"
  by (cases x, cases y) auto

lemma key_less_irrefl: "\<not> key_less x x"
  by (cases x) simp

text \<open>The scan keeps the best candidate seen so far, the first of equals.\<close>

lemma select_root_prefix:
  defines "f s \<equiv> \<lambda>i root. if \<not> root_candidate s i then root
     else case root of None \<Rightarrow> Some i
          | Some r \<Rightarrow> if stp_supersedes_root (port s r) (port s i) then Some i else root"
  shows "case fold (f s) [0..<k] None of
      None \<Rightarrow> \<forall>i < k. \<not> root_candidate s i
    | Some r \<Rightarrow> r < k \<and> root_candidate s r
        \<and> (\<forall>i < k. root_candidate s i \<longrightarrow> \<not> key_less (root_key (port s i)) (root_key (port s r)))"
proof (induction k)
  case (Suc k)
  let ?R = "fold (f s) [0..<k] None"
  have step: "fold (f s) [0..<Suc k] None = f s k ?R" by simp
  show ?case
  proof (cases ?R)
    case None
    with Suc have "\<forall>i < k. \<not> root_candidate s i" by simp
    with None show ?thesis unfolding step
      by (auto simp: f_def less_Suc_eq key_less_irrefl)
  next
    case (Some r)
    with Suc have r: "r < k" "root_candidate s r"
        and best: "\<And>i. i < k \<Longrightarrow> root_candidate s i \<Longrightarrow>
          \<not> key_less (root_key (port s i)) (root_key (port s r))" by auto
    show ?thesis
    proof (cases "root_candidate s k \<and> key_less (root_key (port s k)) (root_key (port s r))")
      case True
      have "\<not> key_less (root_key (port s i)) (root_key (port s k))" if "i < k" "root_candidate s i" for i
        using best [OF that] True key_less_trans by blast
      with True Some show ?thesis unfolding step
        by (auto simp: f_def supersedes_iff less_Suc_eq key_less_irrefl)
    next
      case False
      then have "f s k ?R = Some r" using Some by (auto simp: f_def supersedes_iff)
      with False r best show ?thesis unfolding step by (auto simp: less_Suc_eq)
    qed
  qed
qed simp

lemma select_root_best:
  "case select_root s of
      None \<Rightarrow> \<forall>i < length (st_ports s). \<not> root_candidate s i
    | Some r \<Rightarrow> r < length (st_ports s) \<and> root_candidate s r
        \<and> (\<forall>i < length (st_ports s). root_candidate s i \<longrightarrow>
             \<not> key_less (root_key (port s i)) (root_key (port s r)))"
  unfolding select_root_def by (rule select_root_prefix)

lemma root_selection_sel [simp]:
  "st_ports (stp_root_selection s) = st_ports s"
  "st_bridge_id (stp_root_selection s) = st_bridge_id s"
  "st_aborted (stp_root_selection s) = st_aborted s"
  "views (stp_root_selection s) = views s"
  by (simp_all add: stp_root_selection_def views_def split: option.split)

subsection \<open>No assertion fails\<close>

text \<open>The assertion on port numbers in \<open>stp_send_bpdu\<close> holds as long as the root port is one
  of the bridge's ports.\<close>

definition safe :: "stp \<Rightarrow> bool" where
  "safe s \<longleftrightarrow> \<not> st_aborted s \<and> (\<forall>r. st_root_port s = Some r \<longrightarrow> r < length (st_ports s))"

lemma loop_inv:
  assumes step: "\<And>i s. P s \<Longrightarrow> i < length (st_ports s) \<Longrightarrow> enabled (port s i) \<Longrightarrow>
      P (f i s) \<and> length (st_ports (f i s)) = length (st_ports s)"
    and P: "P s"
  shows "P (for_each_enabled f s) \<and> length (st_ports (for_each_enabled f s)) = length (st_ports s)"
proof -
  have "P (fold (\<lambda>i s. if sp_state (port s i) \<noteq> STP_DISABLED then f i s else s) xs t)
      \<and> length (st_ports (fold (\<lambda>i s. if sp_state (port s i) \<noteq> STP_DISABLED then f i s else s) xs t))
        = length (st_ports t)"
    if "P t" and "\<forall>i \<in> set xs. i < length (st_ports t)" for xs t
    using that
  proof (induction xs arbitrary: t)
    case (Cons i xs)
    show ?case using Cons.IH [of "f i t"] Cons.IH [of t] Cons.prems step [of t i]
      by (simp add: enabled_def)
  qed simp
  from this [of s "[0..<length (st_ports s)]"] P show ?thesis
    by (simp add: for_each_enabled_def)
qed

lemma safe_upd [simp]: "safe (upd_port i f s) = safe s"
  by (simp add: safe_def)

lemma safe_cong: "st_aborted t = st_aborted s \<Longrightarrow> tree t = tree s \<Longrightarrow>
    length (st_ports t) = length (st_ports s) \<Longrightarrow> safe t = safe s"
  by (metis safe_def tree_sel(4))

lemma safe_record [simp]:
  "safe (s\<lparr>st_tcn_timer := t\<rparr>) = safe s" "safe (s\<lparr>st_hello_timer := t\<rparr>) = safe s"
  "safe (s\<lparr>st_topology_change_timer := t\<rparr>) = safe s" "safe (s\<lparr>st_fdb_needs_flush := b\<rparr>) = safe s"
  "safe (s\<lparr>st_topology_change_detected := b\<rparr>) = safe s"
  "safe (s\<lparr>st_topology_change := b\<rparr>) = safe s" "safe (s\<lparr>st_max_age := m\<rparr>) = safe s"
  "safe (s\<lparr>st_hello_time := m\<rparr>) = safe s" "safe (s\<lparr>st_forward_delay := m\<rparr>) = safe s"
  "safe (s\<lparr>st_first_changed_port := i\<rparr>) = safe s"
  "safe (s\<lparr>st_elapsed_remainder := m\<rparr>) = safe s" "safe (seq_change s) = safe s"
  "safe (s\<lparr>st_bridge_id := x\<rparr>) = safe s" "safe (s\<lparr>st_sent := l\<rparr>) = safe s"
  by (simp_all add: safe_def seq_change_def)

lemma safe_send: "safe s \<Longrightarrow> i < length (st_ports s) \<Longrightarrow> safe (stp_send_bpdu i b s)"
  by (simp add: stp_send_bpdu_def)

lemma safe_transmit_config: "safe s \<Longrightarrow> i < length (st_ports s) \<Longrightarrow> safe (stp_transmit_config i s)"
  by (simp add: stp_transmit_config_def send_config_def Let_def safe_send split: option.split)

lemma safe_generation: "safe s \<Longrightarrow> safe (stp_config_bpdu_generation s)"
  unfolding stp_config_bpdu_generation_def
  by (rule loop_inv [THEN conjunct1])
    (simp_all add: safe_transmit_config quiet_transmit_config [THEN quiet_length])

lemma safe_root: "safe s \<Longrightarrow> st_root_port s = Some r \<Longrightarrow> r < length (st_ports s)"
  by (simp add: safe_def)

lemma safe_tcn: "safe s \<Longrightarrow> safe (stp_transmit_tcn s)"
  by (simp add: stp_transmit_tcn_def safe_send safe_root split: option.split)

lemma safe_detection: "safe s \<Longrightarrow> safe (stp_topology_change_detection s)"
  by (simp add: stp_topology_change_detection_def Let_def safe_tcn)

lemma safe_become_root: "safe s \<Longrightarrow> safe (stp_become_root_bridge s)"
  by (simp add: stp_become_root_bridge_def Let_def safe_detection safe_generation)

lemma safe_set_state [simp]: "safe (stp_set_port_state i st s) = safe s"
  by (simp add: stp_set_port_state_def Let_def)

lemma safe_select_port_state: "safe s \<Longrightarrow> safe (select_port_state i s)"
  by (simp add: select_port_state_def stp_make_forwarding_def stp_make_blocking_def Let_def
    safe_detection)

lemma select_port_state_length:
  assumes "i < length (st_ports s)"
  shows "length (st_ports (select_port_state i s)) = length (st_ports s)"
  using arg_cong [OF select_port_state_views(2) [OF assms], of length] by simp

lemma safe_state_selection: "safe s \<Longrightarrow> safe (stp_port_state_selection s)"
  unfolding stp_port_state_selection_def
  by (rule loop_inv [THEN conjunct1])
    (simp_all add: safe_select_port_state select_port_state_length)

lemma safe_become_designated [simp]: "safe (stp_become_designated_port i s) = safe s"
  by (simp add: stp_become_designated_port_def)

lemma safe_root_selection: "safe s \<Longrightarrow> safe (stp_root_selection s)"
  using select_root_best [of s]
  by (auto simp: safe_def stp_root_selection_def split: option.splits)

lemma safe_configuration_update: "safe s \<Longrightarrow> safe (stp_configuration_update s)"
proof -
  assume "safe s"
  then have "safe (stp_designated_port_selection (stp_root_selection s))"
    unfolding stp_designated_port_selection_def
    by (rule loop_inv [where P = safe, THEN conjunct1, rotated, OF safe_root_selection])
      (simp_all add: stp_become_designated_port_def)
  then show ?thesis by (simp add: stp_configuration_update_def)
qed

subsection \<open>The invariant\<close>

text \<open>
  In every state between calls: each port has a proper state, and its forward delay timer runs
  exactly in the two transitional states; the bridge believes itself the root exactly when it
  has no root port, the root port is enabled and leads to a bridge with a smaller identifier;
  all enabled ports agree on the root; and an enabled port that is neither the root port nor
  designated is blocking.
\<close>

definition port_ok :: "stp_port \<Rightarrow> bool" where
  "port_ok p \<longleftrightarrow> sp_state p \<noteq> STP_ZERO
     \<and> tm_active (sp_forward_delay_timer p) = (sp_state p \<in> {STP_LISTENING, STP_LEARNING})"

definition rooted :: "tree \<Rightarrow> stp_port list \<Rightarrow> bool" where
  "rooted T V \<longleftrightarrow> (case tr_root_port T of
       None \<Rightarrow> tr_root T = tr_bridge_id T \<and> tr_cost T = 0
     | Some r \<Rightarrow> r < length V \<and> enabled (V ! r) \<and> tr_root T < tr_bridge_id T)
     \<and> (\<forall>p \<in> set V. enabled p \<longrightarrow> sp_designated_root p = tr_root T)"

definition loop_free :: "tree \<Rightarrow> stp_port list \<Rightarrow> bool" where
  "loop_free T V \<longleftrightarrow> (\<forall>i < length V. enabled (V ! i) \<longrightarrow> tr_root_port T \<noteq> Some i \<longrightarrow>
     \<not> designated_view T (V ! i) \<longrightarrow> sp_state (V ! i) = STP_BLOCKING)"

definition ports_ok :: "stp_port list \<Rightarrow> bool" where
  "ports_ok V \<longleftrightarrow> (\<forall>p \<in> set V. port_ok p)"

definition stp_inv :: "stp \<Rightarrow> bool" where
  "stp_inv s \<longleftrightarrow> safe s \<and> ports_ok (views s) \<and> rooted (tree s) (views s) \<and> loop_free (tree s) (views s)"

lemma designation_views:
  "i < length (st_ports s) \<Longrightarrow> views (stp_designated_port_selection s) ! i =
     (if enabled (views s ! i) then select_designated (tree s) (views s ! i) else views s ! i)"
  "tree (stp_designated_port_selection s) = tree s"
  "length (st_ports (stp_designated_port_selection s)) = length (st_ports s)"
  unfolding stp_designated_port_selection_def
  by (rule designation.loop_views designation.loop_tree designation.loop_length; assumption?)+

lemma state_selection_views:
  "i < length (st_ports s) \<Longrightarrow> views (stp_port_state_selection s) ! i =
     (if enabled (views s ! i) then select_state (tree s) i (views s ! i) else views s ! i)"
  "tree (stp_port_state_selection s) = tree s"
  "length (st_ports (stp_port_state_selection s)) = length (st_ports s)"
  unfolding stp_port_state_selection_def
  by (rule state_selection.loop_views state_selection.loop_tree state_selection.loop_length; assumption?)+

lemma select_designated_sel [simp]:
  "sp_state (select_designated T p) = sp_state p"
  "sp_forward_delay_timer (select_designated T p) = sp_forward_delay_timer p"
  "enabled (select_designated T p) = enabled p" "port_ok (select_designated T p) = port_ok p"
  "sp_designated_root (select_designated T p) = tr_root T"
  by (auto simp: select_designated_def designate_view_def enabled_def port_ok_def claims_view_def)

lemma select_state_sel [simp]:
  "sp_designated_root (select_state T i p) = sp_designated_root p"
  "designated_view T (select_state T i p) = designated_view T p"
  "enabled p \<Longrightarrow> enabled (select_state T i p)" "port_ok p \<Longrightarrow> port_ok (select_state T i p)"
  "sp_path_cost (select_state T i p) = sp_path_cost p"
  by (auto simp: select_state_def forwarding_view_def blocking_view_def enabled_def port_ok_def
    designated_view_def stp_start_timer_def stp_stop_timer_def)

lemma select_state_blocks:
  "enabled p \<Longrightarrow> tr_root_port T \<noteq> Some i \<Longrightarrow> \<not> designated_view T p \<Longrightarrow>
    sp_state (select_state T i p) = STP_BLOCKING"
  by (simp add: select_state_def blocking_view_def enabled_def)

lemma root_selection_rooted:
  assumes "u = stp_root_selection s"
  shows "case st_root_port u of
      None \<Rightarrow> st_designated_root u = st_bridge_id u \<and> st_root_path_cost u = 0
    | Some r \<Rightarrow> r < length (st_ports u) \<and> enabled (views u ! r) \<and> st_designated_root u < st_bridge_id u"
  using select_root_best [of s] unfolding assms
  by (auto simp: stp_root_selection_def root_candidate_def enabled_def views_nth split: option.splits)

lemma state_selection_inv:
  assumes "safe s" and "ports_ok (views s)" and "rooted (tree s) (views s)"
  shows "stp_inv (stp_port_state_selection s)"
proof -
  let ?t = "stp_port_state_selection s"
  have n: "length (st_ports ?t) = length (st_ports s)" and T: "tree ?t = tree s"
    and V: "\<And>i. i < length (st_ports s) \<Longrightarrow> views ?t ! i =
      (if enabled (views s ! i) then select_state (tree s) i (views s ! i) else views s ! i)"
    by (simp_all add: state_selection_views)
  have "safe ?t" using assms(1) by (rule safe_state_selection)
  moreover have "ports_ok (views ?t)"
    using assms(2) by (simp add: ports_ok_def all_set_conv_all_nth n V)
  moreover have "rooted (tree ?t) (views ?t)"
    using assms(3) by (auto simp: rooted_def all_set_conv_all_nth n V T split: option.splits)
  moreover have "loop_free (tree ?t) (views ?t)"
    by (auto simp: loop_free_def n V T select_state_blocks)
  ultimately show ?thesis by (simp add: stp_inv_def)
qed

lemma settle_inv:
  assumes "safe s" and ok: "ports_ok (views s)"
  shows "stp_inv (stp_port_state_selection (stp_configuration_update s))"
proof (rule state_selection_inv)
  define u where "u = stp_root_selection s"
  have d: "tree (stp_configuration_update s) = tree u"
    "views (stp_configuration_update s) = views (stp_designated_port_selection u)"
    by (simp_all add: stp_configuration_update_def u_def designation_views)
  have n: "length (st_ports (stp_designated_port_selection u)) = length (st_ports s)"
    "length (st_ports u) = length (st_ports s)" and vu: "views u = views s"
    by (simp_all add: designation_views u_def)
  show "safe (stp_configuration_update s)" using assms(1) by (rule safe_configuration_update)
  show "ports_ok (views (stp_configuration_update s))"
    using ok by (simp add: d ports_ok_def all_set_conv_all_nth n designation_views vu)
  show "rooted (tree (stp_configuration_update s)) (views (stp_configuration_update s))"
    using root_selection_rooted [OF u_def]
    by (auto simp: d rooted_def all_set_conv_all_nth n designation_views split: option.splits)
qed

subsection \<open>Every operation keeps the invariant\<close>

named_theorems keeps_inv \<open>the operations that keep the invariant\<close>

lemma inv_cong:
  "stp_inv s \<Longrightarrow> tree t = tree s \<Longrightarrow> views t = views s \<Longrightarrow> safe t \<Longrightarrow> stp_inv t"
  by (simp add: stp_inv_def)

lemma inv_safe: "stp_inv s \<Longrightarrow> safe s"
  by (simp add: stp_inv_def)

lemma inv_record [simp]:
  "stp_inv (s\<lparr>st_tcn_timer := t\<rparr>) = stp_inv s" "stp_inv (s\<lparr>st_hello_timer := t\<rparr>) = stp_inv s"
  "stp_inv (s\<lparr>st_topology_change_timer := t\<rparr>) = stp_inv s"
  "stp_inv (s\<lparr>st_fdb_needs_flush := b\<rparr>) = stp_inv s"
  "stp_inv (s\<lparr>st_topology_change_detected := b\<rparr>) = stp_inv s"
  "stp_inv (s\<lparr>st_topology_change := b\<rparr>) = stp_inv s" "stp_inv (s\<lparr>st_max_age := m\<rparr>) = stp_inv s"
  "stp_inv (s\<lparr>st_hello_time := m\<rparr>) = stp_inv s" "stp_inv (s\<lparr>st_forward_delay := m\<rparr>) = stp_inv s"
  "stp_inv (s\<lparr>st_first_changed_port := i\<rparr>) = stp_inv s"
  "stp_inv (s\<lparr>st_elapsed_remainder := m\<rparr>) = stp_inv s" "stp_inv (seq_change s) = stp_inv s"
  by (simp_all add: stp_inv_def)

lemma inv_upd_quiet: "(\<And>p. core_port (f p) = core_port p) \<Longrightarrow> stp_inv (upd_port i f s) = stp_inv s"
  by (simp add: stp_inv_def views_upd_quiet)

lemma inv_quiet: "quiet f \<Longrightarrow> (safe s \<Longrightarrow> safe (f s)) \<Longrightarrow> stp_inv s \<Longrightarrow> stp_inv (f s)"
  by (simp add: stp_inv_def quiet_tree quiet_views)

lemma inv_transmit_config [keeps_inv]:
  "stp_inv s \<Longrightarrow> i < length (st_ports s) \<Longrightarrow> stp_inv (stp_transmit_config i s)"
  by (rule inv_quiet [OF quiet_transmit_config]) (simp_all add: safe_transmit_config)

lemma inv_generation [keeps_inv]: "stp_inv s \<Longrightarrow> stp_inv (stp_config_bpdu_generation s)"
  by (rule inv_quiet [OF quiet_generation safe_generation])

lemma inv_tcn [keeps_inv]: "stp_inv s \<Longrightarrow> stp_inv (stp_transmit_tcn s)"
  by (rule inv_quiet [OF quiet_tcn safe_tcn])

lemma inv_detection [keeps_inv]: "stp_inv s \<Longrightarrow> stp_inv (stp_topology_change_detection s)"
  by (rule inv_quiet [OF quiet_detection safe_detection])

lemma inv_become_root [keeps_inv]: "stp_inv s \<Longrightarrow> stp_inv (stp_become_root_bridge s)"
  by (rule inv_quiet [OF quiet_become_root safe_become_root])

lemma port_ok_core [simp]: "port_ok (core_port p) = port_ok p"
  by (simp add: port_ok_def)

lemma ports_ok_upd:
  "ports_ok (views s) \<Longrightarrow> port_ok (f (port s i)) \<Longrightarrow> ports_ok (views (upd_port i f s))"
  using set_update_subset_insert [of "views s" i "core_port (f (port s i))"]
  by (auto simp: ports_ok_def views_upd_port)

lemma inv_port_ok: "stp_inv s \<Longrightarrow> i < length (st_ports s) \<Longrightarrow> port_ok (port s i)"
  by (simp add: stp_inv_def ports_ok_def all_set_conv_all_nth views_nth)

lemma port_ok_designate [simp]:
  "port_ok (p\<lparr>sp_designated_root := a, sp_designated_cost := b, sp_designated_bridge := c,
     sp_designated_port := d\<rparr>) = port_ok p"
  by (simp add: port_ok_def)

lemma ports_ok_upd_keep:
  assumes "\<And>p. port_ok (f p) = port_ok p" and "ports_ok (views s)"
  shows "ports_ok (views (upd_port i f s))"
proof (cases "i < length (st_ports s)")
  case True
  with assms(2) have "port_ok (port s i)" by (simp add: ports_ok_def all_set_conv_all_nth views_nth)
  with assms show ?thesis by (intro ports_ok_upd) simp_all
next
  case False
  with assms(2) show ?thesis by (simp add: views_def upd_port_def list_update_beyond)
qed

lemma inv_ports_ok: "stp_inv s \<Longrightarrow> ports_ok (views s)"
  by (simp add: stp_inv_def)

lemma inv_record_settle:
  assumes "stp_inv s"
  shows "stp_inv (stp_port_state_selection (stp_configuration_update (stp_record_config_information i c s)))"
  using assms by (intro settle_inv)
    (simp_all add: stp_record_config_information_def inv_safe ports_ok_upd_keep port_ok_def inv_ports_ok)

lemma inv_designate_settle:
  assumes "stp_inv s"
  shows "stp_inv (stp_port_state_selection (stp_configuration_update (stp_become_designated_port i s)))"
  using assms by (intro settle_inv)
    (simp_all add: stp_become_designated_port_def inv_safe ports_ok_upd_keep inv_ports_ok)

lemma settle_length:
  "length (st_ports (stp_port_state_selection (stp_configuration_update s))) = length (st_ports s)"
  by (simp add: state_selection_views stp_configuration_update_def seq_change_def designation_views)

lemma inv_received_config:
  assumes "stp_inv s" and "i < length (st_ports s)"
  shows "stp_inv (stp_received_config_bpdu i c s)"
  using assms inv_record_settle [OF assms(1), of i c]
  by (simp add: stp_received_config_bpdu_def Let_def keeps_inv stp_record_config_timeout_values_def
    stp_topology_change_acknowledged_def)

lemma inv_received_tcn:
  assumes "stp_inv s" and "i < length (st_ports s)"
  shows "stp_inv (stp_received_tcn_bpdu i s)"
  using assms by (simp add: stp_received_tcn_bpdu_def stp_acknowledge_topology_change_def keeps_inv
    inv_upd_quiet quiet_detection [THEN quiet_length])

lemma inv_received [keeps_inv]:
  assumes "stp_inv s" and "i < length (st_ports s)"
  shows "stp_inv (stp_received_bpdu i bs s)"
  using assms by (simp add: stp_received_bpdu_def Let_def count_error_def count_rx_def inv_upd_quiet
    inv_received_config inv_received_tcn)

lemma inv_message_age_expiry:
  assumes "stp_inv s"
  shows "stp_inv (stp_message_age_timer_expiry i s)"
  using inv_designate_settle [OF assms, of i]
  by (simp add: stp_message_age_timer_expiry_def Let_def keeps_inv)

lemma inv_tick_message_age: "stp_inv s \<Longrightarrow> stp_inv (tick_message_age e i s)"
  by (simp add: tick_message_age_def Let_def inv_message_age_expiry inv_upd_quiet split: prod.split)

lemma inv_bridge_timers: "stp_inv s \<Longrightarrow> stp_inv (tick_bridge_timers e s)"
  by (simp add: tick_bridge_timers_def Let_def stp_hello_timer_expiry_def stp_tcn_timer_expiry_def
    stp_topology_change_timer_expiry_def keeps_inv split: prod.split)

lemma message_age_expiry_length:
  "length (st_ports (stp_message_age_timer_expiry i s)) = length (st_ports s)"
  by (simp add: stp_message_age_timer_expiry_def Let_def settle_length quiet_generation [THEN quiet_length]
    quiet_detection [THEN quiet_length] stp_become_designated_port_def)

lemma tick_message_age_length: "length (st_ports (tick_message_age e i s)) = length (st_ports s)"
  by (simp add: tick_message_age_def Let_def message_age_expiry_length split: prod.split)

text \<open>The forward delay timer of one port in the view: a transitional port moves on one
  state when it expires.\<close>

definition forward_delay_view :: "int \<Rightarrow> int \<Rightarrow> stp_port \<Rightarrow> stp_port" where
  "forward_delay_view elapsed delay p =
     (let (t, e) = stp_timer_expired (sp_forward_delay_timer p) elapsed delay;
          q = p\<lparr>sp_forward_delay_timer := t\<rparr>
      in if e then
           (if sp_state p = STP_LISTENING
            then sp_forward_delay_timer_update (stp_start_timer 0) (q\<lparr>sp_state := STP_LEARNING\<rparr>)
            else if sp_state p = STP_LEARNING then q\<lparr>sp_state := STP_FORWARDING\<rparr> else q)
         else q)"

lemma forward_delay_views:
  assumes i: "i < length (st_ports s)"
  shows "tree (tick_forward_delay e i s) = tree s"
    and "views (tick_forward_delay e i s) =
      (views s)[i := forward_delay_view e (st_forward_delay s) (views s ! i)]"
proof -
  obtain t x where te: "stp_timer_expired (sp_forward_delay_timer (port s i)) e (st_forward_delay s) = (t, x)"
    by fastforce
  define u where "u = upd_port i (sp_forward_delay_timer_update (\<lambda>_. t)) s"
  have u: "tree u = tree s" "length (st_ports u) = length (st_ports s)"
      "views u = (views s)[i := (core_port (port s i))\<lparr>sp_forward_delay_timer := t\<rparr>]"
      "core_port (port u i) = (core_port (port s i))\<lparr>sp_forward_delay_timer := t\<rparr>"
      "sp_state (port u i) = sp_state (port s i)"
    using i by (simp_all add: u_def views_upd_port port_upd_port)
  have eq: "tick_forward_delay e i s = (if x then stp_forward_delay_timer_expiry i u else u)"
    by (simp add: tick_forward_delay_def te Let_def u_def)
  show "tree (tick_forward_delay e i s) = tree s"
    by (simp add: eq u stp_forward_delay_timer_expiry_def Let_def set_state_views
      quiet_detection [THEN quiet_tree])
  show "views (tick_forward_delay e i s) =
      (views s)[i := forward_delay_view e (st_forward_delay s) (views s ! i)]"
    using i by (simp add: eq u stp_forward_delay_timer_expiry_def Let_def set_state_views
      quiet_detection [THEN quiet_views] forward_delay_view_def te views_nth views_upd_port set_state_port)
qed

lemma forward_delay_view_sel [simp]:
  "sp_designated_root (forward_delay_view e d p) = sp_designated_root p"
  "designated_view T (forward_delay_view e d p) = designated_view T p"
  "enabled (forward_delay_view e d p) = enabled p"
  "port_ok p \<Longrightarrow> port_ok (forward_delay_view e d p)"
  "sp_state p = STP_BLOCKING \<Longrightarrow> sp_state (forward_delay_view e d p) = STP_BLOCKING"
  by (auto simp: forward_delay_view_def stp_timer_expired_def designated_view_def enabled_def
    port_ok_def stp_start_timer_def Let_def split: if_splits)

lemma safe_forward_delay: "safe s \<Longrightarrow> safe (tick_forward_delay e i s)"
  by (simp add: tick_forward_delay_def stp_forward_delay_timer_expiry_def Let_def safe_detection
    split: prod.split)

text \<open>Changing one port keeps the invariant when it keeps what the invariant says of it.\<close>

lemma inv_one_port:
  assumes inv: "stp_inv s" and i: "i < length (st_ports s)" and "safe t" and T: "tree t = tree s"
    and V: "views t = (views s)[i := q]" and "port_ok q" and e: "enabled q = enabled (views s ! i)"
    and "enabled q \<Longrightarrow> sp_designated_root q = st_designated_root s"
    and "enabled q \<Longrightarrow> st_root_port s \<noteq> Some i \<Longrightarrow> \<not> designated_view (tree s) q \<Longrightarrow>
      sp_state q = STP_BLOCKING"
  shows "stp_inv t"
proof -
  have n: "length (st_ports t) = length (st_ports s)" using arg_cong [OF V, of length] by simp
  have v: "views t ! j = (if j = i then q else views s ! j)" if "j < length (st_ports s)" for j
    using that i by (simp add: V nth_list_update)
  have "ports_ok (views t)" using inv \<open>port_ok q\<close>
    by (simp add: stp_inv_def ports_ok_def all_set_conv_all_nth n v)
  moreover have "rooted (tree t) (views t)" using inv assms(8) e
    by (auto simp: stp_inv_def rooted_def all_set_conv_all_nth n v T split: option.splits)
  moreover have "loop_free (tree t) (views t)" using inv assms(9)
    by (auto simp: stp_inv_def loop_free_def n v T)
  ultimately show ?thesis using \<open>safe t\<close> by (simp add: stp_inv_def)
qed

lemma inv_root_eq:
  "stp_inv s \<Longrightarrow> i < length (st_ports s) \<Longrightarrow> enabled (port s i) \<Longrightarrow>
    sp_designated_root (port s i) = st_designated_root s"
  by (auto simp: stp_inv_def rooted_def all_set_conv_all_nth views_nth)

lemma inv_blocking:
  "stp_inv s \<Longrightarrow> i < length (st_ports s) \<Longrightarrow> enabled (port s i) \<Longrightarrow> st_root_port s \<noteq> Some i \<Longrightarrow>
    \<not> designated_view (tree s) (core_port (port s i)) \<Longrightarrow> sp_state (port s i) = STP_BLOCKING"
  by (auto simp: stp_inv_def loop_free_def views_nth)

lemma inv_forward_delay:
  assumes inv: "stp_inv s" and i: "i < length (st_ports s)"
  shows "stp_inv (tick_forward_delay e i s)"
  by (rule inv_one_port [OF inv i safe_forward_delay [OF inv_safe [OF inv]] forward_delay_views [OF i]])
    (simp_all add: views_nth i inv_port_ok [OF inv] inv_root_eq [OF inv] inv_blocking [OF inv])

lemma forward_delay_length:
  "i < length (st_ports s) \<Longrightarrow> length (st_ports (tick_forward_delay e i s)) = length (st_ports s)"
  using arg_cong [OF forward_delay_views(2), of i s length] by simp

lemma quiet_hold: "quiet (tick_hold e i)"
  by (rule quietI) (simp_all add: tick_hold_def stp_hold_timer_expiry_def Let_def views_upd_quiet
    quiet_transmit_config [THEN quiet_tree] quiet_transmit_config [THEN quiet_views] split: prod.split)

lemma inv_hold: "stp_inv s \<Longrightarrow> i < length (st_ports s) \<Longrightarrow> stp_inv (tick_hold e i s)"
  by (simp add: tick_hold_def stp_hold_timer_expiry_def Let_def inv_upd_quiet keeps_inv split: prod.split)

lemma inv_tick [keeps_inv]:
  assumes "stp_inv s"
  shows "stp_inv (stp_tick ms s)"
proof -
  obtain e r where er: "tick_elapsed s ms = (e, r)" by fastforce
  have "stp_inv (tick_bridge_timers e (s\<lparr>st_elapsed_remainder := r\<rparr>))"
    using assms by (simp add: inv_bridge_timers)
  then have "stp_inv (for_each_enabled (tick_message_age e)
      (tick_bridge_timers e (s\<lparr>st_elapsed_remainder := r\<rparr>)))"
    by (rule loop_inv [where P = stp_inv, THEN conjunct1, rotated])
      (simp add: inv_tick_message_age tick_message_age_length)
  then have "stp_inv (for_each_enabled (\<lambda>i s. tick_hold e i (tick_forward_delay e i s))
      (for_each_enabled (tick_message_age e) (tick_bridge_timers e (s\<lparr>st_elapsed_remainder := r\<rparr>))))"
    by (rule loop_inv [where P = stp_inv, THEN conjunct1, rotated])
      (simp add: inv_hold inv_forward_delay forward_delay_length quiet_hold [THEN quiet_length])
  then show ?thesis using assms by (simp add: stp_tick_def er Let_def)
qed

lemma inv_set_bridge_id [keeps_inv]:
  assumes "stp_inv s"
  shows "stp_inv (set_bridge_id x s)"
proof -
  let ?body = "\<lambda>i s. if stp_is_designated_port s i
    then upd_port i (sp_designated_bridge_update (\<lambda>_. x)) s else s"
  have ok: "port_ok (p\<lparr>sp_designated_bridge := x\<rparr>) = port_ok p" for p
    by (simp add: port_ok_def)
  have "safe (for_each_enabled ?body s) \<and> ports_ok (views (for_each_enabled ?body s))"
    by (rule loop_inv [where P = "\<lambda>s. safe s \<and> ports_ok (views s)", THEN conjunct1])
      (simp_all add: ports_ok_upd_keep [where f = "sp_designated_bridge_update (\<lambda>_. x)", OF ok]
        inv_safe [OF assms] inv_ports_ok [OF assms])
  then have "stp_inv (stp_port_state_selection (stp_configuration_update
      ((for_each_enabled ?body s)\<lparr>st_bridge_id := x\<rparr>)))"
    by (intro settle_inv) (simp_all add: views_def)
  then show ?thesis using assms
    by (simp add: set_bridge_id_def Let_def keeps_inv)
qed

lemma inv_update_timers: "stp_inv s \<Longrightarrow> stp_inv (stp_update_bridge_timers s)"
  by (rule inv_cong) (simp_all add: stp_update_bridge_timers_def Let_def tree_def views_def
    stp_inv_def safe_def)

lemma inv_rq [simp]:
  "stp_inv (s\<lparr>st_rq_hello_time := m\<rparr>) = stp_inv s" "stp_inv (s\<lparr>st_rq_max_age := m\<rparr>) = stp_inv s"
  "stp_inv (s\<lparr>st_rq_forward_delay := m\<rparr>) = stp_inv s"
  by (simp_all add: stp_inv_def safe_def tree_def views_def)

lemma inv_disable [keeps_inv]:
  assumes "stp_inv s" and i: "i < length (st_ports s)"
  shows "stp_inv (stp_port_disable i s)"
proof -
  define t where "t = upd_port i (\<lambda>p. p\<lparr>sp_topology_change_ack := False, sp_config_pending := False,
      sp_message_age_timer := stp_stop_timer (sp_message_age_timer p),
      sp_forward_delay_timer := stp_stop_timer (sp_forward_delay_timer p)\<rparr>)
    (stp_set_port_state i STP_DISABLED (stp_become_designated_port i s))"
  define d where "d = stp_become_designated_port i s"
  have d: "i < length (st_ports d)" "ports_ok (views d)"
    using assms by (simp_all add: d_def stp_become_designated_port_def ports_ok_upd_keep inv_ports_ok)
  define q where "q = (core_port (port d i))\<lparr>sp_state := STP_DISABLED,
    sp_forward_delay_timer := stp_stop_timer (sp_forward_delay_timer (port (stp_set_port_state i STP_DISABLED d) i))\<rparr>"
  have "views t = (views d)[i := q]"
    using d by (simp add: t_def q_def d_def [symmetric] views_upd_port set_state_views set_state_port)
  moreover have "port_ok q" by (simp add: q_def port_ok_def stp_stop_timer_def)
  ultimately have "ports_ok (views t)"
    using d(2) set_update_subset_insert [of "views d" i q] by (auto simp: ports_ok_def)
  moreover have "safe t" using assms(1) by (simp add: t_def inv_safe)
  ultimately have "stp_inv (stp_port_state_selection (stp_configuration_update t))"
    by (intro settle_inv)
  then show ?thesis using assms(1)
    by (simp add: stp_port_disable_def Let_def t_def [symmetric] inv_upd_quiet keeps_inv)
qed

lemma initialize_views:
  assumes i: "i < length (st_ports s)" and st: "state \<in> {STP_DISABLED, STP_BLOCKING}"
  defines "t \<equiv> stp_initialize_port i state s"
  shows "tree t = tree s" and "st_aborted t = st_aborted s"
    and "views t = (views s)[i := (designate_view (tree s) (views s ! i))\<lparr>sp_state := state,
      sp_forward_delay_timer := stp_stop_timer (sp_forward_delay_timer (views s ! i))\<rparr>]"
proof -
  define d where "d = stp_become_designated_port i s"
  have d: "tree d = tree s" "views d = (views s)[i := designate_view (tree s) (views s ! i)]"
      "i < length (st_ports d)" "st_aborted d = st_aborted s"
      "core_port (port d i) = designate_view (tree s) (views s ! i)"
    using i by (simp_all add: d_def become_designated_views stp_become_designated_port_def
      port_upd_port designate_view_def views_nth views_upd_port)
  define u where "u = (if sp_state (port d i) = STP_ZERO \<and> state = STP_DISABLED
      then upd_port i (sp_state_update (\<lambda>_. state)) d else stp_set_port_state i state d)"
  have u: "tree u = tree s" "st_aborted u = st_aborted s" "i < length (st_ports u)"
      "views u = (views s)[i := (designate_view (tree s) (views s ! i))\<lparr>sp_state := state\<rparr>]"
      "core_port (port u i) = (designate_view (tree s) (views s ! i))\<lparr>sp_state := state\<rparr>"
    using d by (simp_all add: u_def set_state_views set_state_port views_upd_port port_upd_port)
      (simp add: stp_set_port_state_def Let_def seq_change_def)
  have t: "t = upd_port i (\<lambda>p. p\<lparr>sp_topology_change_ack := False, sp_config_pending := False,
             sp_change_detection_enabled := True, sp_aux := None,
             sp_message_age_timer := stp_stop_timer (sp_message_age_timer p),
             sp_forward_delay_timer := stp_stop_timer (sp_forward_delay_timer p),
             sp_hold_timer := stp_stop_timer (sp_hold_timer p),
             sp_tx_count := 0, sp_rx_count := 0, sp_error_count := 0\<rparr>) u"
    using st by (auto simp: t_def stp_initialize_port_def Let_def d_def [symmetric] u_def)
  show "tree t = tree s" and "st_aborted t = st_aborted s"
    by (simp_all add: t u)
  have "sp_forward_delay_timer (port u i) = sp_forward_delay_timer (core_port (port u i))" by simp
  then show "views t = (views s)[i := (designate_view (tree s) (views s ! i))\<lparr>sp_state := state,
      sp_forward_delay_timer := stp_stop_timer (sp_forward_delay_timer (views s ! i))\<rparr>]"
    by (simp add: t views_upd_port u designate_view_def del: core_port_sel)
qed

lemma rooted_one_port:
  assumes "rooted T V" and i: "i < length V" and "sp_designated_root q = tr_root T"
    and "enabled (V ! i) \<Longrightarrow> enabled q"
  shows "rooted T (V[i := q])"
  using assms by (auto simp: rooted_def all_set_conv_all_nth nth_list_update split: option.splits)

lemma inv_enable [keeps_inv]:
  assumes inv: "stp_inv s" and i: "i < length (st_ports s)"
  shows "stp_inv (stp_port_enable i s)"
proof (cases "sp_state (port s i) = STP_DISABLED")
  case True
  define t where "t = stp_initialize_port i STP_BLOCKING s"
  define q where "q = (designate_view (tree s) (views s ! i))\<lparr>sp_state := STP_BLOCKING,
      sp_forward_delay_timer := stp_stop_timer (sp_forward_delay_timer (views s ! i))\<rparr>"
  have T: "tree t = tree s" and a: "st_aborted t = st_aborted s" and V: "views t = (views s)[i := q]"
    using initialize_views [OF i, of STP_BLOCKING] by (simp_all add: t_def q_def)
  have n: "length (st_ports t) = length (st_ports s)" using arg_cong [OF V, of length] by simp
  have "safe t" using safe_cong [OF a T n] inv by (simp add: inv_safe)
  moreover have "ports_ok (views t)"
    using inv_ports_ok [OF inv] set_update_subset_insert [of "views s" i q] unfolding V
    by (auto simp: ports_ok_def q_def port_ok_def stp_stop_timer_def)
  moreover have "rooted (tree t) (views t)" unfolding T V
    by (rule rooted_one_port) (use inv i in \<open>simp_all add: stp_inv_def q_def designate_view_def enabled_def\<close>)
  ultimately have "stp_inv (stp_port_state_selection t)" by (rule state_selection_inv)
  with True show ?thesis by (simp add: stp_port_enable_def t_def)
qed (simp add: stp_port_enable_def inv)

lemma inv_path_cost [keeps_inv]:
  "stp_inv s \<Longrightarrow> stp_inv (stp_port_set_path_cost i c s)"
  by (simp add: stp_port_set_path_cost_def settle_inv inv_safe inv_ports_ok ports_ok_upd_keep port_ok_def)

lemma inv_set_priority [keeps_inv]:
  assumes inv: "stp_inv s" and i: "i < length (st_ports s)"
  shows "stp_inv (stp_port_set_priority i x s)"
proof -
  define n where "n = take_bit 16 ((sp_port_id (port s i) AND 0xff) OR push_bit 8 (int (unat x)))"
  define t where "t = upd_port i (sp_port_id_update (\<lambda>_. n))
    (if stp_is_designated_port s i then upd_port i (sp_designated_port_update (\<lambda>_. n)) s else s)"
  define q where "q = (if designated_view (tree s) (views s ! i)
    then (views s ! i)\<lparr>sp_designated_port := n, sp_port_id := n\<rparr> else (views s ! i)\<lparr>sp_port_id := n\<rparr>)"
  have T: "tree t = tree s" and V: "views t = (views s)[i := q]" and "safe t"
    using i inv by (simp_all add: t_def q_def designated_iff views_nth views_upd_port port_upd_port inv_safe)
  have q: "port_ok q" "enabled q = enabled (views s ! i)"
      "sp_designated_root q = sp_designated_root (port s i)" "sp_state q = sp_state (port s i)"
    using inv_port_ok [OF inv i] i by (auto simp: q_def port_ok_def enabled_def views_nth)
  have des: "sp_state q = STP_BLOCKING"
    if "enabled q" "st_root_port s \<noteq> Some i" "\<not> designated_view (tree s) q"
  proof -
    from that(3) have "\<not> designated_view (tree s) (core_port (port s i))"
      using i by (auto simp: q_def designated_view_def views_nth)
    with that q i show ?thesis by (simp add: inv_blocking [OF inv] views_nth)
  qed
  have t: "stp_inv t"
    by (rule inv_one_port [OF inv i \<open>safe t\<close> T V])
      (use q des i in \<open>auto simp: views_nth inv_root_eq [OF inv] inv_blocking [OF inv]\<close>)
  have l: "length (st_ports t) = length (st_ports s)" using arg_cong [OF V, of length] by simp
  have "stp_inv (stp_port_state_selection (stp_become_designated_port i t))"
  proof (rule state_selection_inv)
    show "safe (stp_become_designated_port i t)" using t by (simp add: inv_safe)
    show "ports_ok (views (stp_become_designated_port i t))"
      unfolding stp_become_designated_port_def
      by (rule ports_ok_upd_keep) (simp_all add: inv_ports_ok [OF t])
    show "rooted (tree (stp_become_designated_port i t)) (views (stp_become_designated_port i t))"
      unfolding become_designated_views(1) become_designated_views(2) [OF i [folded l]]
      by (rule rooted_one_port) (use t i l in \<open>simp_all add: stp_inv_def designate_view_def enabled_def\<close>)
  qed
  with t inv show ?thesis
    unfolding stp_port_set_priority_def Let_def n_def [symmetric] t_def [symmetric] by simp
qed

subsection \<open>Runs of a bridge\<close>

datatype stp_call = Tick int | Received nat "u8 list" | Bridge_id u64 | Bridge_priority u16
  | Hello_time int | Max_age int | Forward_delay int | Port_enable nat | Port_disable nat
  | Port_priority nat u8 | Path_cost nat u16 | Speed nat u32 | Change_detection nat bool
  | Port_name nat string | Port_aux nat "nat option" | Fdb_flush | Changed_port | Tcn

fun stp_step :: "stp \<Rightarrow> stp_call \<Rightarrow> stp" where
  "stp_step s (Tick ms) = stp_tick ms s"
| "stp_step s (Received i bs) = stp_received_bpdu i bs s"
| "stp_step s (Bridge_id b) = stp_set_bridge_id b s"
| "stp_step s (Bridge_priority p) = stp_set_bridge_priority p s"
| "stp_step s (Hello_time ms) = stp_set_hello_time ms s"
| "stp_step s (Max_age ms) = stp_set_max_age ms s"
| "stp_step s (Forward_delay ms) = stp_set_forward_delay ms s"
| "stp_step s (Port_enable i) = stp_port_enable i s"
| "stp_step s (Port_disable i) = stp_port_disable i s"
| "stp_step s (Port_priority i p) = stp_port_set_priority i p s"
| "stp_step s (Path_cost i c) = stp_port_set_path_cost i c s"
| "stp_step s (Speed i m) = stp_port_set_speed i m s"
| "stp_step s (Change_detection i b) =
     (if b then stp_port_enable_change_detection i s else stp_port_disable_change_detection i s)"
| "stp_step s (Port_name i n) = stp_port_set_name i n s"
| "stp_step s (Port_aux i a) = stp_port_set_aux i a s"
| "stp_step s Fdb_flush = snd (stp_check_and_reset_fdb_flush s)"
| "stp_step s Changed_port = snd (stp_get_changed_port s)"
| "stp_step s Tcn = stp_topology_change_detection s"

text \<open>The caller passes ports of this bridge.\<close>

fun call_port :: "stp_call \<Rightarrow> nat option" where
  "call_port (Received i _) = Some i" | "call_port (Port_enable i) = Some i"
| "call_port (Port_disable i) = Some i" | "call_port (Port_priority i _) = Some i"
| "call_port (Path_cost i _) = Some i" | "call_port (Speed i _) = Some i"
| "call_port (Change_detection i _) = Some i" | "call_port (Port_name i _) = Some i"
| "call_port (Port_aux i _) = Some i" | "call_port _ = None"

definition stp_legal :: "stp \<Rightarrow> stp_call \<Rightarrow> bool" where
  "stp_legal s c \<longleftrightarrow> (case call_port c of None \<Rightarrow> True | Some i \<Rightarrow> i < length (st_ports s))"

lemma stp_step_inv: "stp_inv s \<Longrightarrow> stp_legal s c \<Longrightarrow> stp_inv (stp_step s c)"
  by (cases c) (simp_all add: stp_legal_def keeps_inv stp_set_bridge_id_def stp_set_bridge_priority_def
    stp_set_hello_time_def stp_set_max_age_def stp_set_forward_delay_def inv_update_timers
    stp_port_set_speed_def stp_port_enable_change_detection_def stp_port_disable_change_detection_def
    stp_port_set_name_def stp_port_set_aux_def stp_check_and_reset_fdb_flush_def
    stp_get_changed_port_def inv_upd_quiet split: option.split)

interpretation stpcalls: call_system stp_step stp_legal stp_inv
  by unfold_locales (rule stp_step_inv)

text \<open>A new bridge has every port disabled and is its own root.\<close>

definition fresh_ports :: "nat \<Rightarrow> stp \<Rightarrow> bool" where
  "fresh_ports k s \<longleftrightarrow> (\<forall>i < k. sp_state (views s ! i) = STP_DISABLED
     \<and> \<not> tm_active (sp_forward_delay_timer (views s ! i)))"

lemma create_port_step:
  assumes i: "i < length (st_ports s)" and f: "fresh_ports i s"
  shows "tree (create_port i s) = tree s" and "st_aborted (create_port i s) = st_aborted s"
    and "length (st_ports (create_port i s)) = length (st_ports s)"
    and "fresh_ports (Suc i) (create_port i s)"
proof -
  define u where "u = upd_port i (\<lambda>p. p\<lparr>sp_port_id := int (i + 1) OR push_bit 8 STP_DEFAULT_PORT_PRIORITY,
        sp_path_cost := 19\<rparr>) s"
  have u: "tree u = tree s" "st_aborted u = st_aborted s" "length (st_ports u) = length (st_ports s)"
    by (simp_all add: u_def)
  have vu: "views u ! j = views s ! j" if "j < i" for j
    using that i by (simp add: u_def views_upd_port)
  have c: "create_port i s = stp_initialize_port i STP_DISABLED u" by (simp add: create_port_def u_def)
  note iv = initialize_views [of i u STP_DISABLED, simplified u, simplified, OF i]
  show "tree (create_port i s) = tree s" and "st_aborted (create_port i s) = st_aborted s"
    unfolding c by (rule iv)+
  show "length (st_ports (create_port i s)) = length (st_ports s)"
    using arg_cong [OF iv(3), of length] by (simp add: c u)
  show "fresh_ports (Suc i) (create_port i s)"
    using f i unfolding fresh_ports_def c iv(3)
    by (auto simp: less_Suc_eq u vu stp_stop_timer_def)
qed

lemma create_ports:
  assumes "k \<le> length (st_ports s)"
  defines "t \<equiv> fold create_port [0..<k] s"
  shows "tree t = tree s \<and> st_aborted t = st_aborted s \<and> length (st_ports t) = length (st_ports s)
    \<and> fresh_ports k t"
  using assms(1) unfolding t_def
proof (induction k)
  case (Suc k)
  then show ?case using create_port_step [of k "fold create_port [0..<k] s"] by simp
qed (simp add: fresh_ports_def)

lemma create_inv: "stp_inv (stp_create n name b)" "length (st_ports (stp_create n name b)) = n"
proof -
  define s0 where "s0 = create_bridge n name b"
  have c: "stp_create n name b = (fold create_port [0..<n] s0)\<lparr>st_ref_cnt := 1\<rparr>"
    by (simp add: stp_create_def s0_def)
  have s0: "tree s0 = \<lparr>tr_bridge_id = st_bridge_id s0, tr_root = st_bridge_id s0, tr_cost = 0,
        tr_root_port = None\<rparr>" "\<not> st_aborted s0" "length (st_ports s0) = n"
    by (simp_all add: s0_def create_bridge_def tree_def stp_update_bridge_timers_def Let_def zero_stp_def)
  define t where "t = fold create_port [0..<n] s0"
  have t: "tree t = tree s0" "\<not> st_aborted t" "length (st_ports t) = n" "fresh_ports n t"
    using create_ports [of n s0] s0(2,3) by (simp_all add: t_def)
  have "stp_inv t"
    using t s0(1) by (auto simp: stp_inv_def safe_def ports_ok_def all_set_conv_all_nth port_ok_def
      rooted_def loop_free_def fresh_ports_def enabled_def tree_def)
  then show "stp_inv (stp_create n name b)" "length (st_ports (stp_create n name b)) = n"
    using t(3) by (simp_all add: c t_def [symmetric] stp_inv_def safe_def tree_def views_def)
qed

lemma inv_explicit:
  assumes "stp_inv s"
  shows "\<not> st_aborted s"
    and "stp_is_root_bridge s \<longleftrightarrow> st_root_port s = None"
    and "st_designated_root s \<le> st_bridge_id s"
    and "st_root_port s = Some r \<Longrightarrow> r < length (st_ports s) \<and> sp_state (port s r) \<noteq> STP_DISABLED"
    and "i < length (st_ports s) \<Longrightarrow> sp_state (port s i) \<noteq> STP_DISABLED \<Longrightarrow>
      sp_designated_root (port s i) = st_designated_root s"
    and "i < length (st_ports s) \<Longrightarrow> sp_state (port s i) \<noteq> STP_DISABLED \<Longrightarrow> st_root_port s \<noteq> Some i \<Longrightarrow>
      \<not> stp_is_designated_port s i \<Longrightarrow> sp_state (port s i) = STP_BLOCKING"
    and "i < length (st_ports s) \<Longrightarrow> tm_active (sp_forward_delay_timer (port s i))
      = (sp_state (port s i) \<in> {STP_LISTENING, STP_LEARNING})"
proof -
  show "\<not> st_aborted s" using assms by (simp add: stp_inv_def safe_def)
  show "stp_is_root_bridge s \<longleftrightarrow> st_root_port s = None" and "st_designated_root s \<le> st_bridge_id s"
    and "st_root_port s = Some r \<Longrightarrow> r < length (st_ports s) \<and> sp_state (port s r) \<noteq> STP_DISABLED"
    using assms by (auto simp: stp_inv_def rooted_def stp_is_root_bridge_def views_nth enabled_def
      split: option.splits)
  show "sp_designated_root (port s i) = st_designated_root s"
    if "i < length (st_ports s)" "sp_state (port s i) \<noteq> STP_DISABLED"
    using that by (simp add: inv_root_eq [OF assms] enabled_def)
  show "sp_state (port s i) = STP_BLOCKING"
    if "i < length (st_ports s)" "sp_state (port s i) \<noteq> STP_DISABLED" "st_root_port s \<noteq> Some i"
      "\<not> stp_is_designated_port s i"
    using that by (simp add: inv_blocking [OF assms] enabled_def designated_iff views_nth)
  show "tm_active (sp_forward_delay_timer (port s i)) = (sp_state (port s i) \<in> {STP_LISTENING, STP_LEARNING})"
    if "i < length (st_ports s)"
    using inv_port_ok [OF assms that] by (simp add: port_ok_def)
qed

end
