(* ===== verification/StpProps.thy ===== *)
theory StpProps
  imports StpSpec
begin

text \<open>
  What the spanning tree component promises, stated on the operations of theory \<open>Stp\<close> and
  proved from the lemmas of theory \<open>StpSpec\<close>.
\<close>

subsection \<open>The invariant of a run\<close>

text \<open>C24: After any sequence of calls on a new bridge, with ports of that bridge as arguments:
  no assertion has failed; the bridge believes itself the root exactly when it has no root
  port, and its root is never worse than itself; the root port is an enabled port of the
  bridge; every enabled port agrees with the bridge on the root; an enabled port that is
  neither the root port nor designated is blocking, so it forwards nothing; and the forward
  delay timer of a port runs exactly while the port is listening or learning.\<close>

theorem stp_tree_invariant:
  assumes "legal_calls stp_step stp_legal (stp_create n name b) cs"
    and s: "s = run_calls stp_step (stp_create n name b) cs"
  shows "\<not> st_aborted s \<and> (stp_is_root_bridge s \<longleftrightarrow> st_root_port s = None)
    \<and> st_designated_root s \<le> st_bridge_id s
    \<and> (\<forall>r. st_root_port s = Some r \<longrightarrow> r < length (st_ports s) \<and> sp_state (port s r) \<noteq> STP_DISABLED)
    \<and> (\<forall>i < length (st_ports s).
        (sp_state (port s i) \<noteq> STP_DISABLED \<longrightarrow> sp_designated_root (port s i) = st_designated_root s)
        \<and> (sp_state (port s i) \<noteq> STP_DISABLED \<and> st_root_port s \<noteq> Some i \<and> \<not> stp_is_designated_port s i
             \<longrightarrow> sp_state (port s i) = STP_BLOCKING)
        \<and> tm_active (sp_forward_delay_timer (port s i))
            = (sp_state (port s i) \<in> {STP_LISTENING, STP_LEARNING}))"
proof -
  have "stp_inv s" unfolding s using create_inv(1) assms(1) by (rule stpcalls.run_inv)
  note e = inv_explicit [OF this]
  show ?thesis
    by (intro conjI allI impI; (elim conjE)?; (rule e e(4) [THEN conjunct1] e(4) [THEN conjunct2]; assumption)?)
qed

theorem stp_tree_invariant_witness:
  "legal_calls stp_step stp_legal (stp_create 2 ''br0'' 5) [Port_enable 0, Port_enable 1, Path_cost 1 4, Port_disable 0]
   \<and> \<not> st_aborted (run_calls stp_step (stp_create 2 ''br0'' 5) [Port_enable 0, Port_enable 1, Path_cost 1 4, Port_disable 0])"
proof
  show legal: "legal_calls stp_step stp_legal (stp_create 2 ''br0'' 5) [Port_enable 0, Port_enable 1, Path_cost 1 4, Port_disable 0]"
    by code_simp
  show "\<not> st_aborted (run_calls stp_step (stp_create 2 ''br0'' 5) [Port_enable 0, Port_enable 1, Path_cost 1 4, Port_disable 0])"
    by (rule stp_tree_invariant [OF legal refl, THEN conjunct1])
qed

subsection \<open>The path to the forwarding state\<close>

definition calm :: "stp \<Rightarrow> stp \<Rightarrow> bool" where
  "calm s t \<longleftrightarrow> length (st_ports t) = length (st_ports s)
     \<and> (\<forall>i < length (st_ports s). sp_state (port t i) \<in> {STP_LEARNING, STP_FORWARDING} \<longrightarrow>
          sp_state (port t i) = sp_state (port s i))"

lemma calm_refl [simp]: "calm s s"
  by (simp add: calm_def)

lemma calm_trans: "calm s t \<Longrightarrow> calm t u \<Longrightarrow> calm s u"
  by (auto simp: calm_def)

lemma calm_views:
  assumes "length (st_ports t) = length (st_ports s)"
    and "\<And>i. i < length (st_ports s) \<Longrightarrow> sp_state (views t ! i) \<in> {STP_LEARNING, STP_FORWARDING} \<Longrightarrow>
      sp_state (views t ! i) = sp_state (views s ! i)"
  shows "calm s t"
  using assms by (simp add: calm_def views_nth)

lemma calm_quiet: "quiet f \<Longrightarrow> calm s (f s)"
  by (rule calm_views) (simp_all add: quiet_length quiet_views)

lemma calm_eq_views: "views t = views s \<Longrightarrow> calm s t"
  by (rule calm_views) (metis length_views, simp)

lemma calm_one_port:
  assumes "i < length (st_ports s)" and V: "views t = (views s)[i := q]"
    and "sp_state q \<in> {STP_LEARNING, STP_FORWARDING} \<Longrightarrow> sp_state q = sp_state (port s i)"
  shows "calm s t"
proof (rule calm_views)
  show "length (st_ports t) = length (st_ports s)" using arg_cong [OF V, of length] by simp
qed (use assms in \<open>auto simp: nth_list_update views_nth split: if_splits\<close>)

lemma calm_state_selection: "calm s (stp_port_state_selection s)"
  by (rule calm_views) (auto simp: state_selection_views select_state_def forwarding_view_def
    blocking_view_def split: if_splits)

lemma calm_settle: "calm s (stp_port_state_selection (stp_configuration_update s))"
proof (rule calm_trans [OF _ calm_state_selection])
  show "calm s (stp_configuration_update s)"
    by (rule calm_views) (simp_all add: stp_configuration_update_def designation_views, simp_all add:
      seq_change_def designation_views)
qed

lemma calm_upd: "i < length (st_ports s) \<Longrightarrow>
    (sp_state (f (port s i)) \<in> {STP_LEARNING, STP_FORWARDING} \<Longrightarrow> sp_state (f (port s i)) = sp_state (port s i)) \<Longrightarrow>
    calm s (upd_port i f s)"
  by (rule calm_one_port [OF _ views_upd_port]) simp_all

lemma calm_upd_keep: "(\<And>p. sp_state (f p) = sp_state p) \<Longrightarrow> calm s (upd_port i f s)"
  by (cases "i < length (st_ports s)")
    (simp_all add: calm_upd, simp add: upd_port_def list_update_beyond)

lemma calm_designated: "calm s (stp_become_designated_port i s)"
  unfolding stp_become_designated_port_def by (rule calm_upd_keep) simp

lemma calm_record_fields [simp]:
  "calm s (t\<lparr>st_tcn_timer := a\<rparr>) = calm s t" "calm s (t\<lparr>st_hello_timer := a\<rparr>) = calm s t"
  "calm s (t\<lparr>st_topology_change_timer := a\<rparr>) = calm s t"
  "calm s (t\<lparr>st_fdb_needs_flush := d\<rparr>) = calm s t"
  "calm s (t\<lparr>st_topology_change_detected := d\<rparr>) = calm s t"
  "calm s (t\<lparr>st_topology_change := d\<rparr>) = calm s t" "calm s (t\<lparr>st_max_age := m\<rparr>) = calm s t"
  "calm s (t\<lparr>st_hello_time := m\<rparr>) = calm s t" "calm s (t\<lparr>st_forward_delay := m\<rparr>) = calm s t"
  "calm s (t\<lparr>st_first_changed_port := i\<rparr>) = calm s t" "calm s (t\<lparr>st_bridge_id := x\<rparr>) = calm s t"
  "calm s (t\<lparr>st_rq_hello_time := m\<rparr>) = calm s t" "calm s (t\<lparr>st_rq_max_age := m\<rparr>) = calm s t"
  "calm s (t\<lparr>st_rq_forward_delay := m\<rparr>) = calm s t"
  "calm s (t\<lparr>st_elapsed_remainder := m\<rparr>) = calm s t"
  by (simp_all add: calm_def)

text \<open>Steps that follow a calm one: quiet operations, and settling after a change.\<close>

lemma calm_then:
  "calm s t \<Longrightarrow> calm s (stp_transmit_config i t)" "calm s t \<Longrightarrow> calm s (stp_config_bpdu_generation t)"
  "calm s t \<Longrightarrow> calm s (stp_transmit_tcn t)" "calm s t \<Longrightarrow> calm s (stp_topology_change_detection t)"
  "calm s t \<Longrightarrow> calm s (stp_become_root_bridge t)"
  "calm s t \<Longrightarrow> calm s (stp_port_state_selection t)"
  "calm s t \<Longrightarrow> calm s (stp_port_state_selection (stp_configuration_update t))"
  "calm s t \<Longrightarrow> calm s (stp_become_designated_port i t)"
  by (erule calm_trans, rule calm_quiet quiet_ops calm_state_selection calm_settle calm_designated;
      (rule quiet_ops)?)+

lemma calm_then_upd: "(\<And>p. sp_state (f p) = sp_state p) \<Longrightarrow> calm s t \<Longrightarrow> calm s (upd_port i f t)"
  by (erule calm_trans, rule calm_upd_keep)

lemma calm_set_state:
  assumes "st \<notin> {STP_LEARNING, STP_FORWARDING}" and "calm s t"
  shows "calm s (stp_set_port_state i st t)"
proof (rule calm_trans [OF assms(2)])
  show "calm t (stp_set_port_state i st t)"
  proof (cases "i < length (st_ports t)")
    case True
    then show ?thesis by (rule calm_one_port [OF _ set_state_views(2)]) (use assms(1) in simp)
  next
    case False
    then have "views (stp_set_port_state i st t) = views t"
      by (simp add: set_state_views list_update_beyond)
    then show ?thesis by (rule calm_eq_views)
  qed
qed

lemma calm_received: "calm s (stp_received_bpdu i bs s)"
proof -
  have "calm s (stp_record_config_information i c s)" for c
    unfolding stp_record_config_information_def by (rule calm_upd_keep) simp
  then have "calm s (stp_received_config_bpdu i c s)" for c
    by (simp add: stp_received_config_bpdu_def Let_def calm_then stp_record_config_timeout_values_def
      stp_topology_change_acknowledged_def)
  moreover have "calm s (stp_received_tcn_bpdu i s)"
    by (simp add: stp_received_tcn_bpdu_def stp_acknowledge_topology_change_def calm_then calm_then_upd)
  ultimately show ?thesis
    by (simp add: stp_received_bpdu_def Let_def count_error_def count_rx_def calm_then_upd)
qed

lemma calm_set_bridge_id: "calm s (set_bridge_id x s)"
proof -
  have "calm s (for_each_enabled (\<lambda>i s. if stp_is_designated_port s i
      then upd_port i (sp_designated_bridge_update (\<lambda>_. x)) s else s) s)"
    by (rule loop_inv [where P = "calm s", THEN conjunct1]) (simp_all add: calm_then_upd)
  then show ?thesis by (simp add: set_bridge_id_def Let_def calm_then)
qed

lemma calm_ports: "calm s (stp_port_disable i s)" "calm s (stp_port_enable i s)"
    "calm s (stp_port_set_priority i x s)" "calm s (stp_port_set_path_cost i c s)"
proof -
  show "calm s (stp_port_disable i s)"
    by (simp add: stp_port_disable_def Let_def calm_then calm_then_upd calm_set_state)
  have "calm s (stp_initialize_port i STP_BLOCKING s)"
    by (simp add: stp_initialize_port_def Let_def calm_then calm_then_upd calm_set_state)
  then show "calm s (stp_port_enable i s)" by (simp add: stp_port_enable_def calm_then)
  show "calm s (stp_port_set_priority i x s)"
    unfolding stp_port_set_priority_def Let_def by (simp add: calm_then calm_then_upd)
  show "calm s (stp_port_set_path_cost i c s)"
    by (simp add: stp_port_set_path_cost_def calm_then calm_then_upd)
qed

lemma calm_update_timers: "calm s (stp_update_bridge_timers t) = calm s t"
  by (simp add: stp_update_bridge_timers_def Let_def calm_def)

lemma calm_step: "\<forall>ms. c \<noteq> Tick ms \<Longrightarrow> calm s (stp_step s c)"
  by (cases c) (simp_all add: calm_received calm_set_bridge_id calm_ports calm_update_timers
    stp_set_bridge_id_def stp_set_bridge_priority_def stp_set_hello_time_def stp_set_max_age_def
    stp_set_forward_delay_def stp_port_set_speed_def stp_port_enable_change_detection_def
    stp_port_disable_change_detection_def stp_port_set_name_def stp_port_set_aux_def
    stp_check_and_reset_fdb_flush_def stp_get_changed_port_def calm_then calm_then_upd
    split: option.split)

lemma calm_message_age: "calm s (tick_message_age e i s)"
  by (simp add: tick_message_age_def stp_message_age_timer_expiry_def Let_def calm_then calm_then_upd
    split: prod.split)

lemma calm_bridge_timers: "calm s (tick_bridge_timers e s)"
  by (simp add: tick_bridge_timers_def Let_def stp_hello_timer_expiry_def stp_tcn_timer_expiry_def
    stp_topology_change_timer_expiry_def calm_then split: prod.split)

text \<open>A loop whose body changes one port at a time, each as the relation \<open>R\<close> allows.\<close>

lemma loop_pointwise:
  assumes step: "\<And>i s. i < length (st_ports s) \<Longrightarrow> \<exists>q. views (f i s) = (views s)[i := q] \<and> R (views s ! i) q"
    and refl: "\<And>p. R p p"
  shows "length (st_ports (for_each_enabled f s)) = length (st_ports s) \<and>
    (\<forall>i < length (st_ports s). R (views s ! i) (views (for_each_enabled f s) ! i))"
proof -
  let ?g = "\<lambda>i s. if sp_state (port s i) \<noteq> STP_DISABLED then f i s else s"
  have "length (st_ports (fold ?g [0..<k] s)) = length (st_ports s) \<and>
      (\<forall>i < length (st_ports s). if i < k then R (views s ! i) (views (fold ?g [0..<k] s) ! i)
         else views (fold ?g [0..<k] s) ! i = views s ! i)" if "k \<le> length (st_ports s)" for k
    using that
  proof (induction k)
    case (Suc k)
    let ?u = "fold ?g [0..<k] s"
    from Suc have n: "length (st_ports ?u) = length (st_ports s)" and k: "k < length (st_ports s)"
      and u: "\<And>i. i < length (st_ports s) \<Longrightarrow> if i < k then R (views s ! i) (views ?u ! i)
         else views ?u ! i = views s ! i" by simp_all
    define u where "u = ?u"
    have "\<exists>q. views (?g k u) = (views u)[k := q] \<and> R (views u ! k) q"
    proof (cases "sp_state (port u k) \<noteq> STP_DISABLED")
      case True
      then show ?thesis using step [of k u] n k by (simp add: u_def)
    next
      case False
      then show ?thesis by (intro exI [of _ "views u ! k"]) (simp add: refl)
    qed
    then obtain q where q: "views (?g k ?u) = (views ?u)[k := q]" "R (views ?u ! k) q"
      unfolding u_def by blast
    have "length (st_ports (?g k ?u)) = length (st_ports s)"
      using arg_cong [OF q(1), of length] n by simp
    moreover have "if i < Suc k then R (views s ! i) (views (?g k ?u) ! i)
        else views (?g k ?u) ! i = views s ! i" if i: "i < length (st_ports s)" for i
      using u [OF i] u [OF k] q n k i by (cases "i = k") (auto simp: nth_list_update)
    ultimately show ?case by simp
  qed simp
  from this [of "length (st_ports s)"] show ?thesis by (simp add: for_each_enabled_def)
qed

definition one_on :: "stp_port \<Rightarrow> stp_port \<Rightarrow> bool" where
  "one_on p q \<longleftrightarrow> (sp_state q = STP_FORWARDING \<longrightarrow> sp_state p \<in> {STP_LEARNING, STP_FORWARDING})
     \<and> (sp_state q = STP_LEARNING \<longrightarrow> sp_state p \<in> {STP_LISTENING, STP_LEARNING})"

lemma one_on_delay: "one_on p (forward_delay_view e d p)"
  by (auto simp: one_on_def forward_delay_view_def Let_def split: prod.split if_splits)

lemma tick_moves_on:
  assumes "i < length (st_ports s)" and "sp_state (port (stp_tick ms s) i) = STP_FORWARDING"
  shows "sp_state (port s i) \<in> {STP_LEARNING, STP_FORWARDING}"
proof -
  obtain e r where er: "tick_elapsed s ms = (e, r)" by fastforce
  define m where "m = for_each_enabled (tick_message_age e)
      (tick_bridge_timers e (s\<lparr>st_elapsed_remainder := r\<rparr>))"
  define t where "t = for_each_enabled (\<lambda>i s. tick_hold e i (tick_forward_delay e i s)) m"
  have "calm s (s\<lparr>st_elapsed_remainder := r\<rparr>)" by simp
  then have "calm s (tick_bridge_timers e (s\<lparr>st_elapsed_remainder := r\<rparr>))"
    using calm_trans calm_bridge_timers by blast
  then have m: "calm s m" unfolding m_def
    by (rule loop_inv [where P = "calm s", THEN conjunct1, rotated])
      (use calm_message_age calm_trans tick_message_age_length in blast)
  have "length (st_ports t) = length (st_ports m)
      \<and> (\<forall>i < length (st_ports m). one_on (views m ! i) (views t ! i))"
    unfolding t_def
  proof (rule loop_pointwise)
    show "\<exists>q. views (tick_hold e i (tick_forward_delay e i s)) = (views s)[i := q] \<and> one_on (views s ! i) q"
      if "i < length (st_ports s)" for i s
      using that forward_delay_views(2) [of i s e] one_on_delay by (auto simp: quiet_hold [THEN quiet_views])
  qed (simp add: one_on_def)
  then have t: "sp_state (port t i) = STP_FORWARDING \<Longrightarrow> sp_state (port m i) \<in> {STP_LEARNING, STP_FORWARDING}"
    using m assms(1) by (auto simp: one_on_def views_nth calm_def)
  have "stp_tick ms s = (if e = 0 then s\<lparr>st_elapsed_remainder := r\<rparr> else t)"
    by (simp add: stp_tick_def er Let_def t_def m_def)
  then show ?thesis using assms t m by (auto simp: calm_def split: if_splits)
qed

text \<open>C25: In one call a port enters the forwarding state only from the learning state, and only
  in \<open>stp_tick\<close>; no other call lets a port that was not learning or forwarding learn or
  forward. So a port cannot skip a state on its way to forwarding.\<close>

theorem stp_forwarding_from_learning:
  assumes "i < length (st_ports s)"
  shows "(sp_state (port (stp_step s c) i) = STP_FORWARDING \<longrightarrow>
      sp_state (port s i) \<in> {STP_LEARNING, STP_FORWARDING})
    \<and> ((\<forall>ms. c \<noteq> Tick ms) \<and> stp_learn_in_state (sp_state (port (stp_step s c) i)) \<longrightarrow>
      sp_state (port (stp_step s c) i) = sp_state (port s i))"
proof (cases "\<exists>ms. c = Tick ms")
  case True
  with assms show ?thesis by (auto dest: tick_moves_on)
next
  case False
  then have "calm s (stp_step s c)" by (intro calm_step) simp
  with assms show ?thesis by (auto simp: calm_def stp_learn_in_state_def)
qed

theorem stp_forwarding_from_learning_witness:
  "sp_state (port (stp_port_enable 0 (stp_create 1 ''br0'' 5)) 0) = STP_LISTENING
   \<and> sp_state (port (stp_step (stp_port_enable 0 (stp_create 1 ''br0'' 5)) (Path_cost 0 4)) 0) \<noteq> STP_FORWARDING"
proof
  show l: "sp_state (port (stp_port_enable 0 (stp_create 1 ''br0'' 5)) 0) = STP_LISTENING" by code_simp
  have "0 < length (st_ports (stp_port_enable 0 (stp_create 1 ''br0'' 5)))" by code_simp
  from stp_forwarding_from_learning [OF this, of "Path_cost 0 4", THEN conjunct1] l
  show "sp_state (port (stp_step (stp_port_enable 0 (stp_create 1 ''br0'' 5)) (Path_cost 0 4)) 0)
      \<noteq> STP_FORWARDING" by force
qed

subsection \<open>Selection of the root and of designated ports\<close>

text \<open>The information a port has received is better than what this bridge could offer there:
  a cheaper path to the same root, or an equal one through a smaller bridge or port.\<close>

definition offers_better :: "stp \<Rightarrow> stp_port \<Rightarrow> bool" where
  "offers_better s p \<longleftrightarrow> sp_designated_root p = st_designated_root s
     \<and> (let cost = word_of_int (sp_designated_cost p) in
        cost < st_root_path_cost s
        \<or> (cost = st_root_path_cost s
           \<and> (sp_designated_bridge p < st_bridge_id s
              \<or> (sp_designated_bridge p = st_bridge_id s \<and> sp_designated_port p < sp_port_id p))))"

lemma not_claims: "\<not> claims_view (tree s) p \<Longrightarrow> offers_better s p"
  by (auto simp: claims_view_def offers_better_def Let_def)

lemma designated_designate [simp]: "designated_view T (designate_view T p)"
  by (simp add: designated_view_def designate_view_def)

text \<open>C26: The configuration update (802.1D 8.6.8) makes the best enabled port that leads to a
  better root the root port, by root, path cost, designated bridge, designated port and own
  port number in that order, and takes over its root and its cost; without such a port the
  bridge is the root at cost 0. Afterwards each enabled port is designated, or has received
  strictly better information than the bridge could send there.\<close>

theorem stp_selection_correct:
  fixes s :: stp
  defines "t \<equiv> stp_configuration_update s"
  shows "(case st_root_port t of
      None \<Rightarrow> (\<forall>i < length (st_ports s). \<not> root_candidate s i)
        \<and> st_designated_root t = st_bridge_id s \<and> st_root_path_cost t = 0
    | Some r \<Rightarrow> r < length (st_ports s) \<and> root_candidate s r
        \<and> (\<forall>i < length (st_ports s). root_candidate s i \<longrightarrow>
             \<not> key_less (root_key (port s i)) (root_key (port s r)))
        \<and> st_designated_root t = sp_designated_root (port s r)
        \<and> st_root_path_cost t = word_of_int (sp_designated_cost (port s r) + sp_path_cost (port s r)))
    \<and> (\<forall>i < length (st_ports s). sp_state (port t i) \<noteq> STP_DISABLED \<longrightarrow>
         stp_is_designated_port t i \<or> offers_better t (port t i))"
proof
  define u where "u = stp_root_selection s"
  have T: "tree t = tree u" and V: "views t = views (stp_designated_port_selection u)"
    by (simp_all add: t_def stp_configuration_update_def designation_views u_def)
  have rt: "st_root_port t = st_root_port u" "st_designated_root t = st_designated_root u"
      "st_root_path_cost t = st_root_path_cost u" "st_bridge_id t = st_bridge_id u"
    using T by (simp_all add: tree_def)
  show "case st_root_port t of
      None \<Rightarrow> (\<forall>i < length (st_ports s). \<not> root_candidate s i)
        \<and> st_designated_root t = st_bridge_id s \<and> st_root_path_cost t = 0
    | Some r \<Rightarrow> r < length (st_ports s) \<and> root_candidate s r
        \<and> (\<forall>i < length (st_ports s). root_candidate s i \<longrightarrow>
             \<not> key_less (root_key (port s i)) (root_key (port s r)))
        \<and> st_designated_root t = sp_designated_root (port s r)
        \<and> st_root_path_cost t = word_of_int (sp_designated_cost (port s r) + sp_path_cost (port s r))"
    using select_root_best [of s] unfolding rt u_def
    by (simp add: stp_root_selection_def split: option.splits)
  have n: "length (st_ports t) = length (st_ports s)"
    using arg_cong [OF V, of length] by (simp add: designation_views u_def)
  show "\<forall>i < length (st_ports s). sp_state (port t i) \<noteq> STP_DISABLED \<longrightarrow>
      stp_is_designated_port t i \<or> offers_better t (port t i)"
  proof (intro allI impI)
    fix i assume i: "i < length (st_ports s)" and e: "sp_state (port t i) \<noteq> STP_DISABLED"
    have v: "views t ! i = (if enabled (views u ! i) then select_designated (tree t) (views u ! i) else views u ! i)"
      using i by (simp add: V T designation_views u_def)
    from e i n have "enabled (views t ! i)" by (simp add: views_nth enabled_def)
    then have eu: "views t ! i = select_designated (tree t) (views u ! i)"
      using v by (auto split: if_splits)
    show "stp_is_designated_port t i \<or> offers_better t (port t i)"
    proof (cases "claims_view (tree t) (views u ! i)")
      case True
      then show ?thesis using eu i n by (simp add: designated_iff select_designated_def)
    next
      case False
      then have "offers_better t (views t ! i)" using eu by (simp add: select_designated_def not_claims)
      then show ?thesis using i n by (simp add: views_nth offers_better_def)
    qed
  qed
qed

theorem stp_selection_correct_witness:
  "\<not> root_candidate (stp_port_enable 0 (stp_create 1 ''br0'' 5)) 0
   \<and> st_root_path_cost (stp_configuration_update (stp_port_enable 0 (stp_create 1 ''br0'' 5))) = 0"
proof
  show "\<not> root_candidate (stp_port_enable 0 (stp_create 1 ''br0'' 5)) 0" by code_simp
  have "st_root_port (stp_configuration_update (stp_port_enable 0 (stp_create 1 ''br0'' 5))) = None"
    by code_simp
  with stp_selection_correct [of "stp_port_enable 0 (stp_create 1 ''br0'' 5)", THEN conjunct1]
  show "st_root_path_cost (stp_configuration_update (stp_port_enable 0 (stp_create 1 ''br0'' 5))) = 0"
    by simp
qed

lemma better_root_selected:
  assumes inv: "stp_inv s" and i: "i < length (st_ports s)" and e: "enabled (port s i)"
    and better: "cb_root_id c < st_designated_root s" and other: "cb_bridge_id c \<noteq> st_bridge_id s"
  defines "u \<equiv> stp_record_config_information i c s"
  shows "select_root u = Some i"
proof -
  have pu: "port u j = (if j = i then (port s i)\<lparr>sp_designated_root := cb_root_id c,
      sp_designated_cost := sint (cb_root_path_cost c), sp_designated_bridge := cb_bridge_id c,
      sp_designated_port := int (unat (cb_port_id c)), sp_message_age_timer :=
        stp_start_timer (int (unat (cb_message_age c))) (sp_message_age_timer (port s i))\<rparr> else port s j)" for j
    using i by (simp add: u_def stp_record_config_information_def port_upd_port)
  have n: "length (st_ports u) = length (st_ports s)" and b: "st_bridge_id u = st_bridge_id s"
    by (simp_all add: u_def stp_record_config_information_def)
  have "cb_root_id c < st_bridge_id s" using better inv_explicit(3) [OF inv] by simp
  then have cand: "root_candidate u i"
    using e other by (simp add: root_candidate_def stp_is_designated_port_def pu b enabled_def)
  have less: "key_less (root_key (port u i)) (root_key (port u j))"
    if "j < length (st_ports s)" "root_candidate u j" "j \<noteq> i" for j
    using that better inv_explicit(5) [OF inv, of j]
    by (simp add: root_key_def pu root_candidate_def)
  note best = select_root_best [of u]
  show ?thesis
  proof (cases "select_root u")
    case None
    with best cand i n show ?thesis by simp
  next
    case (Some r)
    with best cand i n have "r < length (st_ports s)" "root_candidate u r"
      "\<not> key_less (root_key (port u i)) (root_key (port u r))" by simp_all
    with less [of r] Some show ?thesis by blast
  qed
qed

lemma received_config_tree:
  assumes "sp_state (port s i) \<noteq> STP_DISABLED" and "cb_message_age c < cb_max_age c"
    and "stp_supersedes_port_info s i c"
  shows "tree (stp_received_config_bpdu i c s) = tree (stp_root_selection (stp_record_config_information i c s))"
proof -
  have "tree (stp_port_state_selection (stp_configuration_update u)) = tree (stp_root_selection u)" for u
    by (simp add: state_selection_views stp_configuration_update_def designation_views)
  then show ?thesis
    using assms by (simp add: stp_received_config_bpdu_def Let_def not_le [symmetric] quiet_rules
      stp_record_config_timeout_values_def stp_topology_change_acknowledged_def)
qed

text \<open>C27: A config BPDU that names a root better than the one the bridge believes in, received
  on an enabled port from another bridge and not too old, makes that port the root port and
  its root the bridge's root, at the cost in the message plus the cost of the port. No other
  port is considered, and the bridge does not believe itself the root any more.\<close>

theorem stp_adopts_better_root:
  assumes run: "legal_calls stp_step stp_legal (stp_create n name b) cs"
      "s = run_calls stp_step (stp_create n name b) cs"
    and i: "i < length (st_ports s)" and e: "sp_state (port s i) \<noteq> STP_DISABLED"
    and bs: "sizeof_stp_config_bpdu \<le> length bs" "bh_protocol_id (get_header bs) = STP_PROTOCOL_ID"
      "bh_bpdu_type (get_header bs) = STP_TYPE_CONFIG" and c: "c = get_config bs"
    and age: "cb_message_age c < cb_max_age c"
    and better: "cb_root_id c < st_designated_root s" and other: "cb_bridge_id c \<noteq> st_bridge_id s"
  shows "st_root_port (stp_received_bpdu i bs s) = Some i
    \<and> st_designated_root (stp_received_bpdu i bs s) = cb_root_id c
    \<and> st_root_path_cost (stp_received_bpdu i bs s) =
        cb_root_path_cost c + word_of_int (sp_path_cost (port s i))
    \<and> \<not> stp_is_root_bridge (stp_received_bpdu i bs s)"
proof -
  have inv: "stp_inv s" unfolding run(2) using create_inv(1) run(1) by (rule stpcalls.run_inv)
  define u where "u = stp_record_config_information i c s"
  have sel: "select_root u = Some i"
    unfolding u_def using inv i e better other by (intro better_root_selected) (simp_all add: enabled_def)
  have "stp_supersedes_port_info s i c"
    using better less_imp_neq [OF better] inv_explicit(5) [OF inv i e]
    by (simp add: stp_supersedes_port_info_def Let_def)
  then have T: "tree (stp_received_config_bpdu i c s) = tree (stp_root_selection u)"
    unfolding u_def using e age by (intro received_config_tree)
  have r: "stp_received_bpdu i bs s = count_rx i (stp_received_config_bpdu i c s)"
    using e bs c by (simp add: stp_received_bpdu_def Let_def sizeof_stp_config_bpdu_def sizeof_stp_bpdu_header_def)
  have t: "tree (stp_received_bpdu i bs s) = \<lparr>tr_bridge_id = st_bridge_id s, tr_root = cb_root_id c,
      tr_cost = cb_root_path_cost c + word_of_int (sp_path_cost (port s i)), tr_root_port = Some i\<rparr>"
    using sel i unfolding r count_rx_def upd_port_sel(1) T
    by (simp add: stp_root_selection_def tree_def u_def stp_record_config_information_def port_upd_port)
  have "cb_root_id c < st_bridge_id s" using better inv_explicit(3) [OF inv] by simp
  with t show ?thesis by (simp add: tree_def stp_is_root_bridge_def)
qed

definition better_bpdu :: "u8 list" where
  "better_bpdu = [0, 0, 0, 0] @ [0] @ [0, 0, 0, 0, 0, 0, 0, 1] @ [0, 0, 0, 10]
     @ [0, 0, 0, 0, 0, 0, 0, 2] @ [0, 1] @ [0, 0] @ [0, 20] @ [0, 2] @ [0, 15]"

theorem stp_adopts_better_root_witness:
  "st_root_port (stp_received_bpdu 1 better_bpdu
     (run_calls stp_step (stp_create 2 ''br0'' 5) [Port_enable 0, Port_enable 1])) = Some 1"
  by (rule stp_adopts_better_root [of 2 "''br0''" 5 "[Port_enable 0, Port_enable 1]" _ 1 better_bpdu
        "get_config better_bpdu", THEN conjunct1]) (rule refl | code_simp)+

subsection \<open>BPDUs on the wire\<close>

lemma word16_c_int: "(word_of_int (c_int x) :: u16) = word_of_int x"
proof -
  have "c_int x mod 2 ^ 16 = x mod 2 ^ 16" unfolding c_int_def
    using mod_mult_self1 [of x 32768 65536] by (simp add: mod_diff_eq [symmetric] mod_mod_cancel)
  then show ?thesis by (simp add: word_of_int_eq_iff take_bit_eq_mod)
qed

lemma frame_config:
  "get_config (drop 17 (stp_frame (put_config c))) = c" "length (stp_frame (put_config c)) = 52"
  "be_field 0 6 (stp_frame (put_config c)) = 0x0180c2000000" "be_field 12 2 (stp_frame (put_config c)) = 38"
  "take 3 (drop 14 (stp_frame (put_config c))) = [0x42, 0x42, 3]"
proof -
  have l: "length (put_config c) = 35" by (rule config_wire.enc_width)
  show "get_config (drop 17 (stp_frame (put_config c))) = c"
    using config_wire.dec_enc [of c "[]"] by (simp add: stp_frame_def)
  show "length (stp_frame (put_config c)) = 52" "be_field 0 6 (stp_frame (put_config c)) = 0x0180c2000000"
    "be_field 12 2 (stp_frame (put_config c)) = 38" "take 3 (drop 14 (stp_frame (put_config c))) = [0x42, 0x42, 3]"
    by (simp_all add: stp_frame_def l be_field_skip be_field_here be_get_put LLC_HEADER_LEN_def eth_addr_stp_def
        STP_LLC_DSAP_def STP_LLC_SSAP_def STP_LLC_CNTL_def)
qed

text \<open>C28: The config BPDU that a bridge sends on a port whose hold timer is not running. Its age
  is 0 from the root bridge, otherwise one tick more than the age of the information on the
  root port. If that is not below the maximum age, nothing happens. Otherwise exactly one
  frame is sent, to the multicast address of the protocol with the LLC header of the protocol,
  and the length field counts what follows it. A receiver that skips both headers reads from
  it the protocol header, the two flags (the acknowledgement of the port and the topology change
  of the bridge), the root and the cost to it, the identifiers of the bridge and the port, the
  age and the three times. The acknowledgement is then cleared, no BPDU is pending and the hold
  timer starts.\<close>

theorem stp_config_round_trip:
  fixes s :: stp
  defines "age \<equiv> (if stp_is_root_bridge s then 0
      else word_of_int (tm_value (sp_message_age_timer (port s (the (st_root_port s)))) + 1) :: u16)"
  assumes "i < length (st_ports s)" and "stp_is_root_bridge s \<or> st_root_port s \<noteq> None"
    and "\<not> tm_active (sp_hold_timer (port s i))"
  shows "if st_max_age s \<le> int (unat age) then stp_transmit_config i s = s
    else \<exists>frame. st_sent (stp_transmit_config i s) = st_sent s @ [(i, frame)]
      \<and> length frame = 52 \<and> be_field 0 6 frame = 0x0180c2000000 \<and> be_field 12 2 frame = 38
      \<and> take 3 (drop 14 frame) = [0x42, 0x42, 3]
      \<and> get_config (drop 17 frame) =
          \<lparr>cb_header = \<lparr>bh_protocol_id = 0, bh_protocol_version = 0, bh_bpdu_type = 0\<rparr>,
           cb_flags = (if sp_topology_change_ack (port s i) then 0x80 else 0) + (if st_topology_change s then 1 else 0),
           cb_root_id = st_designated_root s, cb_root_path_cost = st_root_path_cost s,
           cb_bridge_id = st_bridge_id s, cb_port_id = word_of_int (sp_port_id (port s i)),
           cb_message_age = age, cb_max_age = word_of_int (st_max_age s),
           cb_hello_time = word_of_int (st_hello_time s), cb_forward_delay = word_of_int (st_forward_delay s)\<rparr>
      \<and> (let p = port (stp_transmit_config i s) i
         in sp_hold_timer p = \<lparr>tm_active = True, tm_value = 0\<rparr> \<and> \<not> sp_topology_change_ack p \<and> \<not> sp_config_pending p)"
proof -
  define m where "m = (if stp_is_root_bridge s then 0
      else c_int (tm_value (sp_message_age_timer (port s (the (st_root_port s)))) + MESSAGE_AGE_INCREMENT))"
  define c where "c = config_to_send s (port s i) m"
  have m: "word_of_int m = age" by (simp add: m_def age_def word16_c_int MESSAGE_AGE_INCREMENT_def)
  have t: "stp_transmit_config i s = send_config i m s"
    using assms(3,4) by (auto simp: stp_transmit_config_def m_def)
  have c: "c = \<lparr>cb_header = \<lparr>bh_protocol_id = 0, bh_protocol_version = 0, bh_bpdu_type = 0\<rparr>,
           cb_flags = (if sp_topology_change_ack (port s i) then 0x80 else 0) + (if st_topology_change s then 1 else 0),
           cb_root_id = st_designated_root s, cb_root_path_cost = st_root_path_cost s,
           cb_bridge_id = st_bridge_id s, cb_port_id = word_of_int (sp_port_id (port s i)),
           cb_message_age = age, cb_max_age = word_of_int (st_max_age s),
           cb_hello_time = word_of_int (st_hello_time s), cb_forward_delay = word_of_int (st_forward_delay s)\<rparr>"
    by (simp add: c_def config_to_send_def m STP_PROTOCOL_ID_def STP_PROTOCOL_VERSION_def STP_TYPE_CONFIG_def
        STP_CONFIG_TOPOLOGY_CHANGE_ACK_def STP_CONFIG_TOPOLOGY_CHANGE_def)
  then have a: "cb_message_age c = age" by simp
  show ?thesis
  proof (cases "st_max_age s \<le> int (unat age)")
    case True
    then show ?thesis by (simp add: t send_config_def Let_def c_def [symmetric] a)
  next
    case False
    have "st_sent (stp_transmit_config i s) = st_sent s @ [(i, stp_frame (put_config c))]"
      using False assms(2) by (simp add: t send_config_def Let_def c_def [symmetric] a stp_send_bpdu_def)
    moreover have "let p = port (stp_transmit_config i s) i
         in sp_hold_timer p = \<lparr>tm_active = True, tm_value = 0\<rparr> \<and> \<not> sp_topology_change_ack p \<and> \<not> sp_config_pending p"
      using False assms(2) by (simp add: t send_config_def Let_def c_def [symmetric] a stp_send_bpdu_def port_upd_port
          upd_port_def stp_start_timer_def)
    ultimately show ?thesis using False frame_config [of c] c by (intro if_not_P [THEN iffD2] exI conjI) simp_all
  qed
qed

theorem stp_config_round_trip_witness:
  "\<exists>frame. st_sent (stp_transmit_config 0 (stp_create 1 ''br0'' 5)) = [(0, frame)]
    \<and> cb_root_id (get_config (drop 17 frame)) = st_bridge_id (stp_create 1 ''br0'' 5)"
proof -
  define s where "s = stp_create 1 ''br0'' 5"
  have s: "0 < length (st_ports s)" "stp_is_root_bridge s" "\<not> tm_active (sp_hold_timer (port s 0))"
    "0 < st_max_age s" "st_sent s = []" "st_designated_root s = st_bridge_id s" unfolding s_def by code_simp+
  then show ?thesis using stp_config_round_trip [of 0 s] unfolding s_def [symmetric] by auto
qed

lemmas bpdu_constants = sizeof_stp_bpdu_header_def sizeof_stp_config_bpdu_def sizeof_stp_tcn_bpdu_def
  STP_PROTOCOL_ID_def STP_TYPE_CONFIG_def STP_TYPE_TCN_def

text \<open>A BPDU that is not one: by its length, its protocol identifier or its type.\<close>

definition malformed_bpdu :: "u8 list \<Rightarrow> bool" where
  "malformed_bpdu bs \<longleftrightarrow> length bs < 4 \<or> bh_protocol_id (get_header bs) \<noteq> 0 \<or> bh_bpdu_type (get_header bs) \<notin> {0, 0x80}
     \<or> (bh_bpdu_type (get_header bs) = 0 \<and> length bs < 35) \<or> (bh_bpdu_type (get_header bs) = 0x80 \<and> length bs \<noteq> 4)"

text \<open>C29: What a bridge does with BPDUs it cannot use. A disabled port ignores every BPDU. On an
  enabled port a BPDU that is too short for its header, has another protocol identifier or an
  unknown type, a config BPDU shorter than 35 bytes and a TCN BPDU of another size than 4 bytes
  increase the error counter of the port and do nothing else; a complete config BPDU whose age
  has reached its maximum increases the counter of received BPDUs and does nothing else.\<close>

theorem stp_malformed_bpdu_ignored:
  "(sp_state (port s i) = STP_DISABLED \<longrightarrow> stp_received_bpdu i bs s = s)
   \<and> (sp_state (port s i) \<noteq> STP_DISABLED \<and> malformed_bpdu bs \<longrightarrow> stp_received_bpdu i bs s =
        s\<lparr>st_ports := (st_ports s)[i := (port s i)\<lparr>sp_error_count := c_int (sp_error_count (port s i) + 1)\<rparr>]\<rparr>)
   \<and> (sp_state (port s i) \<noteq> STP_DISABLED \<and> \<not> malformed_bpdu bs \<and> bh_bpdu_type (get_header bs) = 0
        \<and> cb_max_age (get_config bs) \<le> cb_message_age (get_config bs) \<longrightarrow> stp_received_bpdu i bs s =
        s\<lparr>st_ports := (st_ports s)[i := (port s i)\<lparr>sp_rx_count := c_int (sp_rx_count (port s i) + 1)\<rparr>]\<rparr>)"
proof (intro conjI impI, goal_cases)
  case 1
  then show ?case by (simp add: stp_received_bpdu_def)
next
  case 2
  then have "stp_received_bpdu i bs s = count_error i s"
    by (auto simp: malformed_bpdu_def stp_received_bpdu_def Let_def bpdu_constants)
  then show ?case by (simp add: count_error_def upd_port_def)
next
  case 3
  then have "stp_received_bpdu i bs s = count_rx i s"
    by (auto simp: malformed_bpdu_def stp_received_bpdu_def stp_received_config_bpdu_def Let_def bpdu_constants)
  then show ?case by (simp add: count_rx_def upd_port_def)
qed

text \<open>An enabled port with a short BPDU, and with a config BPDU as old as it may be.\<close>

theorem stp_malformed_bpdu_ignored_witness:
  "let s = stp_port_enable 0 (stp_create 1 ''br0'' 5); old = replicate 27 0 @ [0, 20, 0, 20, 0, 2, 0, 15]
   in sp_error_count (port (stp_received_bpdu 0 [0, 0, 0] s) 0) = 1 \<and> sp_rx_count (port (stp_received_bpdu 0 [0, 0, 0] s) 0) = 0
    \<and> sp_error_count (port (stp_received_bpdu 0 old s) 0) = 0 \<and> sp_rx_count (port (stp_received_bpdu 0 old s) 0) = 1"
proof -
  define s where "s = stp_port_enable 0 (stp_create 1 ''br0'' 5)"
  define old :: "u8 list" where "old = replicate 27 0 @ [0, 20, 0, 20, 0, 2, 0, 15]"
  have s: "sp_state (port s 0) \<noteq> STP_DISABLED" "sp_error_count (port s 0) = 0" "sp_rx_count (port s 0) = 0"
    "length (st_ports s) = 1" unfolding s_def by code_simp+
  have b: "malformed_bpdu [0, 0, 0]" "\<not> malformed_bpdu old" "bh_bpdu_type (get_header old) = 0"
    "cb_max_age (get_config old) \<le> cb_message_age (get_config old)" unfolding old_def by code_simp+
  show ?thesis unfolding Let_def s_def [symmetric] old_def [symmetric]
    using stp_malformed_bpdu_ignored [of s 0 "[0, 0, 0]"] stp_malformed_bpdu_ignored [of s 0 old] s b
    by (simp add: c_int_id)
qed

end
