(* ===== verification/StpTimers.thy ===== *)
theory StpTimers
  imports StpSpec
begin

text \<open>
  The quantitative promises of the spanning tree: how often config BPDUs leave a port, the
  ranges of the bridge timers, and the clock that \<open>stp_tick\<close> keeps.
\<close>

subsection \<open>Milliseconds and timer ticks\<close>

lemma ms_to_timer_eq: "0 \<le> ms \<Longrightarrow> ms \<le> 8388607 \<Longrightarrow> ms_to_timer ms = ms * 256 div 1000"
  by (simp add: ms_to_timer_def c_int_id c_div_nonneg)

lemma timer_to_ms_eq: "0 \<le> t \<Longrightarrow> t \<le> 2147483 \<Longrightarrow> timer_to_ms t = t * 1000 div 256"
  by (simp add: timer_to_ms_def c_int_id c_div_nonneg)

lemma clamp_bounds: "mn \<le> mx \<Longrightarrow> mn \<le> clamp x mn mx \<and> clamp x mn mx \<le> mx"
  by (simp add: clamp_def)

lemma ticks_mono: "a \<le> b \<Longrightarrow> a * 256 div 1000 \<le> b * 256 div (1000::int)"
  by (simp add: zdiv_mono1)

lemma div_bounds:
  fixes y d :: int
  assumes "0 < d"
  shows "d * (y div d) \<le> y \<and> y \<le> d * (y div d) + (d - 1)"
  using mult_div_mod_eq [of d y] pos_mod_bound [OF assms, of y] pos_mod_sign [OF assms, of y]
  by linarith

lemma ticks_twice: "2 * (a + 1000) \<le> b \<Longrightarrow> 2 * (a * 256 div 1000 + 256) \<le> b * 256 div (1000::int)"
  using div_bounds [of 1000 "a * 256"] div_bounds [of 1000 "b * 256"] by simp

lemma ticks_half: "b div 2 + 1000 \<le> a \<Longrightarrow> b * 256 div 1000 \<le> 2 * (a * 256 div 1000 - 256) + (2::int)"
  using div_bounds [of 1000 "a * 256"] div_bounds [of 1000 "b * 256"] div_bounds [of 2 b] by simp

text \<open>C31: Whatever times the user requests, the timers of the bridge stay in their ranges of 1 to
  10, 6 to 40 and 4 to 30 seconds (256 ticks to the second), the maximum age is at least twice
  the hello time plus one second, and the maximum age exceeds twice the forward delay less one
  second by at most two ticks of rounding. The root bridge uses them at once, another bridge
  keeps the times of the root.\<close>

theorem stp_bridge_timer_bounds:
  fixes s :: stp
  defines "t \<equiv> stp_update_bridge_timers s"
  shows "256 \<le> st_bridge_hello_time t \<and> st_bridge_hello_time t \<le> 2560
    \<and> 1536 \<le> st_bridge_max_age t \<and> st_bridge_max_age t \<le> 10240
    \<and> 1024 \<le> st_bridge_forward_delay t \<and> st_bridge_forward_delay t \<le> 7680
    \<and> 2 * (st_bridge_hello_time t + 256) \<le> st_bridge_max_age t
    \<and> st_bridge_max_age t \<le> 2 * (st_bridge_forward_delay t - 256) + 2
    \<and> (st_max_age t, st_hello_time t, st_forward_delay t) =
        (if stp_is_root_bridge s
         then (st_bridge_max_age t, st_bridge_hello_time t, st_bridge_forward_delay t)
         else (st_max_age s, st_hello_time s, st_forward_delay s))"
proof -
  define ht where "ht = clamp (st_rq_hello_time s) 1000 10000"
  define ma where "ma = clamp (st_rq_max_age s) (max (2 * (ht + 1000)) 6000) 40000"
  define fd where "fd = clamp (st_rq_forward_delay s) (ma div 2 + 1000) 30000"
  have ht: "1000 \<le> ht" "ht \<le> 10000" using clamp_bounds [of 1000 10000] by (simp_all add: ht_def)
  have ma: "2 * (ht + 1000) \<le> ma" "6000 \<le> ma" "ma \<le> 40000"
    using ht clamp_bounds [of "max (2 * (ht + 1000)) 6000" 40000 "st_rq_max_age s"] by (simp_all add: ma_def)
  have fd: "ma div 2 + 1000 \<le> fd" "fd \<le> 30000"
    using ma clamp_bounds [of "ma div 2 + 1000" 30000 "st_rq_forward_delay s"] by (simp_all add: fd_def)
  have t: "st_bridge_hello_time t = ht * 256 div 1000" "st_bridge_max_age t = ma * 256 div 1000"
      "st_bridge_forward_delay t = fd * 256 div 1000"
    using ht ma fd unfolding t_def stp_update_bridge_timers_def Let_def ht_def [symmetric]
      ma_def [symmetric]
    by (simp_all add: c_div_nonneg fd_def [symmetric] ms_to_timer_eq)
  have use_root: "(st_max_age t, st_hello_time t, st_forward_delay t) =
        (if stp_is_root_bridge s
         then (st_bridge_max_age t, st_bridge_hello_time t, st_bridge_forward_delay t)
         else (st_max_age s, st_hello_time s, st_forward_delay s))"
    by (simp add: t_def stp_update_bridge_timers_def Let_def stp_is_root_bridge_def)
  have f4: "4000 \<le> fd" using ma fd by linarith
  have b: "256 \<le> ht * 256 div 1000" using ticks_mono [OF ht(1)] by simp
  have b': "ht * 256 div 1000 \<le> 2560" using ticks_mono [OF ht(2)] by simp
  have c: "1536 \<le> ma * 256 div 1000" using ticks_mono [OF ma(2)] by simp
  have c': "ma * 256 div 1000 \<le> 10240" using ticks_mono [OF ma(3)] by simp
  have d: "1024 \<le> fd * 256 div 1000" using ticks_mono [OF f4] by simp
  have d': "fd * 256 div 1000 \<le> 7680" using ticks_mono [OF fd(2)] by simp
  show ?thesis unfolding t
    by (intro conjI b b' c c' d d' ticks_twice [OF ma(1)] ticks_half [OF fd(1)]) (rule use_root [unfolded t])
qed

subsection \<open>The clock of a bridge\<close>

text \<open>No operation but \<open>stp_tick\<close> itself touches the remainder of milliseconds.\<close>

definition same_clock :: "(stp \<Rightarrow> stp) \<Rightarrow> bool" where
  "same_clock f \<longleftrightarrow> (\<forall>s. st_elapsed_remainder (f s) = st_elapsed_remainder s)"

lemma same_clockD: "same_clock f \<Longrightarrow> st_elapsed_remainder (f s) = st_elapsed_remainder s"
  by (simp add: same_clock_def)

lemma same_clock_loop: "(\<And>i. same_clock (f i)) \<Longrightarrow> same_clock (for_each_enabled f)"
proof -
  assume f: "\<And>i. same_clock (f i)"
  have "st_elapsed_remainder (fold (\<lambda>i s. if sp_state (port s i) \<noteq> STP_DISABLED then f i s else s) xs s)
      = st_elapsed_remainder s" for xs s
    by (induction xs arbitrary: s) (simp_all add: f [THEN same_clockD])
  then show ?thesis by (simp add: same_clock_def for_each_enabled_def)
qed

named_theorems clock \<open>operations that leave the clock alone\<close>

lemma clock_basic [clock]:
  "st_elapsed_remainder (upd_port i f s) = st_elapsed_remainder s"
  "st_elapsed_remainder (seq_change s) = st_elapsed_remainder s"
  "st_elapsed_remainder (stp_send_bpdu i bs s) = st_elapsed_remainder s"
  "st_elapsed_remainder (stp_become_designated_port i s) = st_elapsed_remainder s"
  "st_elapsed_remainder (stp_root_selection s) = st_elapsed_remainder s"
  by (simp_all add: upd_port_def seq_change_def stp_send_bpdu_def stp_become_designated_port_def
    stp_root_selection_def split: option.split)

lemma clock_transmit [clock]:
  "st_elapsed_remainder (stp_transmit_config i s) = st_elapsed_remainder s"
  "st_elapsed_remainder (stp_transmit_tcn s) = st_elapsed_remainder s"
  by (simp_all add: stp_transmit_config_def stp_transmit_tcn_def send_config_def Let_def clock
    split: option.split)

lemma clock_generation [clock]:
  "st_elapsed_remainder (stp_config_bpdu_generation s) = st_elapsed_remainder s"
  unfolding stp_config_bpdu_generation_def
  by (rule same_clockD, rule same_clock_loop) (simp add: same_clock_def clock)

lemma clock_detection [clock]:
  "st_elapsed_remainder (stp_topology_change_detection s) = st_elapsed_remainder s"
  "st_elapsed_remainder (stp_set_port_state i st s) = st_elapsed_remainder s"
  by (simp_all add: stp_topology_change_detection_def stp_set_port_state_def Let_def clock)

lemma clock_selection [clock]:
  "st_elapsed_remainder (stp_port_state_selection s) = st_elapsed_remainder s"
  "st_elapsed_remainder (stp_configuration_update s) = st_elapsed_remainder s"
proof -
  show "st_elapsed_remainder (stp_port_state_selection s) = st_elapsed_remainder s"
    unfolding stp_port_state_selection_def
    by (rule same_clockD, rule same_clock_loop)
      (simp add: same_clock_def select_port_state_def stp_make_forwarding_def stp_make_blocking_def
        Let_def clock)
  have "st_elapsed_remainder (stp_designated_port_selection t) = st_elapsed_remainder t" for t
    unfolding stp_designated_port_selection_def
    by (rule same_clockD, rule same_clock_loop) (simp add: same_clock_def clock)
  then show "st_elapsed_remainder (stp_configuration_update s) = st_elapsed_remainder s"
    by (simp add: stp_configuration_update_def clock)
qed

lemma clock_timers [clock]:
  "st_elapsed_remainder (tick_bridge_timers e s) = st_elapsed_remainder s"
  "st_elapsed_remainder (for_each_enabled (tick_message_age e) s) = st_elapsed_remainder s"
  "st_elapsed_remainder (for_each_enabled (\<lambda>i s. tick_hold e i (tick_forward_delay e i s)) s)
    = st_elapsed_remainder s"
proof -
  show "st_elapsed_remainder (tick_bridge_timers e s) = st_elapsed_remainder s"
    by (simp add: tick_bridge_timers_def stp_hello_timer_expiry_def stp_tcn_timer_expiry_def
      stp_topology_change_timer_expiry_def Let_def clock split: prod.split)
  show "st_elapsed_remainder (for_each_enabled (tick_message_age e) s) = st_elapsed_remainder s"
    by (rule same_clockD, rule same_clock_loop)
      (simp add: same_clock_def tick_message_age_def stp_message_age_timer_expiry_def Let_def clock
        split: prod.split)
  show "st_elapsed_remainder (for_each_enabled (\<lambda>i s. tick_hold e i (tick_forward_delay e i s)) s)
    = st_elapsed_remainder s"
    by (rule same_clockD, rule same_clock_loop)
      (simp add: same_clock_def tick_hold_def stp_hold_timer_expiry_def tick_forward_delay_def
        stp_forward_delay_timer_expiry_def Let_def clock split: prod.split)
qed

lemma clock_tick: "st_elapsed_remainder (stp_tick ms s) = snd (tick_elapsed s ms)"
  by (simp add: stp_tick_def Let_def clock split: prod.split)

text \<open>The ticks that a sequence of \<open>stp_tick\<close> calls takes from its milliseconds.\<close>

fun ticks_seen :: "stp \<Rightarrow> int list \<Rightarrow> int" where
  "ticks_seen s [] = 0"
| "ticks_seen s (ms # mss) = fst (tick_elapsed s ms) + ticks_seen (stp_tick ms s) mss"

fun tick_run :: "stp \<Rightarrow> int list \<Rightarrow> stp" where
  "tick_run s [] = s"
| "tick_run s (ms # mss) = tick_run (stp_tick ms s) mss"

lemma tick_arith:
  fixes m r :: int
  assumes "0 \<le> m"
  defines "e \<equiv> m * 256 div 1000"
  shows "0 \<le> m - e * 1000 div 256 \<and> m - e * 1000 div 256 \<le> 4 \<and> (e * 1000 div 256) * 256 \<le> e * 1000
    \<and> 3 * e \<le> e * 1000 div 256 \<and> 0 \<le> e"
proof -
  define f where "f = e * 1000 div 256"
  have "0 \<le> e" using assms(1) by (simp add: e_def)
  moreover have "1000 * e \<le> m * 256" "m * 256 \<le> 1000 * e + 999"
    using div_bounds [of 1000 "m * 256"] by (simp_all add: e_def)
  moreover have "256 * f \<le> e * 1000" "e * 1000 \<le> 256 * f + 255"
    using div_bounds [of 256 "e * 1000"] by (simp_all add: f_def)
  ultimately show ?thesis unfolding f_def [symmetric] by linarith
qed

lemma tick_elapsed_eq:
  assumes "0 \<le> ms" "ms \<le> 8388603" "0 \<le> st_elapsed_remainder s" "st_elapsed_remainder s \<le> 4"
  defines "m \<equiv> ms + st_elapsed_remainder s"
  shows "tick_elapsed s ms = (m * 256 div 1000, m - (m * 256 div 1000) * 1000 div 256)"
proof -
  have m: "0 \<le> m" "m \<le> 8388607" using assms by (simp_all add: m_def)
  then have e: "m * 256 div 1000 \<le> 2147483" "0 \<le> m * 256 div 1000"
    using ticks_mono [of m 8388607] by simp_all
  have c: "clamp ms 0 (2147483647 - 1000) = ms" using assms by (simp add: clamp_def)
  have i: "c_int m = m" using m by (simp add: c_int_id)
  have r: "0 \<le> m - (m * 256 div 1000) * 1000 div 256" "m - (m * 256 div 1000) * 1000 div 256 \<le> 4"
    using tick_arith [OF m(1)] by blast+
  then have j: "c_int (m - (m * 256 div 1000) * 1000 div 256) = m - (m * 256 div 1000) * 1000 div 256"
    by (intro c_int_id) linarith+
  show ?thesis
    unfolding tick_elapsed_def c m_def [symmetric] Let_def i ms_to_timer_eq [OF m] timer_to_ms_eq [OF e(2,1)] j
    by (rule refl)
qed

lemma tick_elapsed_once:
  assumes "0 \<le> ms" "ms \<le> 8388603" "0 \<le> st_elapsed_remainder s" "st_elapsed_remainder s \<le> 4"
    and "tick_elapsed s ms = (e, r)"
  shows "0 \<le> r \<and> r \<le> 4 \<and> 0 \<le> e \<and> (ms + st_elapsed_remainder s - r) * 256 \<le> e * 1000
    \<and> 3 * e \<le> ms + st_elapsed_remainder s - r"
proof -
  define m where "m = ms + st_elapsed_remainder s"
  have "0 \<le> m" using assms by (simp add: m_def)
  note ar = tick_arith [OF this]
  have e: "e = m * 256 div 1000" and r: "r = m - e * 1000 div 256"
    using tick_elapsed_eq [OF assms(1-4)] assms(5) by (simp_all add: m_def)
  have "m - r = e * 1000 div 256" by (simp add: r)
  then show ?thesis using ar unfolding e [symmetric] r [symmetric] m_def [symmetric] by simp
qed

text \<open>The timers after some ticks in which none of them expires: each one that runs has advanced
  by that many ticks, those of disabled ports have not.\<close>

definition advance_timer :: "int \<Rightarrow> stp_timer \<Rightarrow> stp_timer" where
  "advance_timer e t = (if tm_active t then t\<lparr>tm_value := tm_value t + e\<rparr> else t)"

definition advance_port :: "int \<Rightarrow> stp_port \<Rightarrow> stp_port" where
  "advance_port e p = (if sp_state p = STP_DISABLED then p
     else p\<lparr>sp_message_age_timer := advance_timer e (sp_message_age_timer p),
            sp_forward_delay_timer := advance_timer e (sp_forward_delay_timer p),
            sp_hold_timer := advance_timer e (sp_hold_timer p)\<rparr>)"

definition advance :: "int \<Rightarrow> stp \<Rightarrow> stp" where
  "advance e s = s\<lparr>st_hello_timer := advance_timer e (st_hello_timer s), st_tcn_timer := advance_timer e (st_tcn_timer s),
     st_topology_change_timer := advance_timer e (st_topology_change_timer s),
     st_ports := map (advance_port e) (st_ports s)\<rparr>"

definition stays :: "int \<Rightarrow> int \<Rightarrow> stp_timer \<Rightarrow> bool" where
  "stays e timeout t \<longleftrightarrow> (tm_active t \<longrightarrow> 0 \<le> tm_value t \<and> tm_value t + e < timeout \<and> timeout \<le> 2147483647)"

definition port_stays :: "stp \<Rightarrow> int \<Rightarrow> stp_port \<Rightarrow> bool" where
  "port_stays s e p \<longleftrightarrow> sp_state p = STP_DISABLED \<or> (stays e (st_max_age s) (sp_message_age_timer p)
     \<and> stays e (st_forward_delay s) (sp_forward_delay_timer p) \<and> stays e 256 (sp_hold_timer p))"

definition no_expiry :: "stp \<Rightarrow> int \<Rightarrow> bool" where
  "no_expiry s e \<longleftrightarrow> stays e (st_hello_time s) (st_hello_timer s) \<and> stays e (st_bridge_hello_time s) (st_tcn_timer s)
     \<and> stays e (c_int (st_max_age s + st_forward_delay s)) (st_topology_change_timer s)
     \<and> list_all (port_stays s e) (st_ports s)"

lemma timer_stays: "0 \<le> e \<Longrightarrow> stays e timeout t \<Longrightarrow> stp_timer_expired t e timeout = (advance_timer e t, False)"
  by (auto simp: stp_timer_expired_def stays_def advance_timer_def Let_def c_int_id)

lemma timer_compose [simp]:
  "advance_timer e (advance_timer d t) = advance_timer (d + e) t" "advance_timer 0 t = t"
  by (simp_all add: advance_timer_def add.assoc)

lemma stays_split:
  assumes "stays (d + e) timeout t" "0 \<le> d" "0 \<le> e"
  shows "stays d timeout t" "stays e timeout (advance_timer d t)"
  using assms by (auto simp: stays_def advance_timer_def)

lemma port_stays_split:
  assumes "port_stays s (d + e) p" "0 \<le> d" "0 \<le> e"
  shows "port_stays s d p" "port_stays ((advance d s)\<lparr>st_elapsed_remainder := r\<rparr>) e (advance_port d p)"
proof -
  show "port_stays s d p" using assms stays_split(1) [of d e] unfolding port_stays_def by blast
  show "port_stays ((advance d s)\<lparr>st_elapsed_remainder := r\<rparr>) e (advance_port d p)"
    using assms by (auto simp: port_stays_def advance_def advance_port_def intro: stays_split(2))
qed

lemma port_compose [simp]: "advance_port e (advance_port d p) = advance_port (d + e) p" "advance_port 0 = (\<lambda>p. p)"
  by (simp_all add: advance_port_def fun_eq_iff)

lemma advance_compose: "advance e ((advance d s)\<lparr>st_elapsed_remainder := r\<rparr>) = (advance (d + e) s)\<lparr>st_elapsed_remainder := r\<rparr>"
  "advance 0 s = s"
  by (simp_all add: advance_def)

lemma no_expiry_split:
  assumes "no_expiry s (d + e)" "0 \<le> d" "0 \<le> e"
  shows "no_expiry s d" "no_expiry ((advance d s)\<lparr>st_elapsed_remainder := r\<rparr>) e"
proof -
  show "no_expiry s d"
    using assms stays_split(1) [of d e] port_stays_split(1) [of s d e] unfolding no_expiry_def list_all_iff by blast
  have "list_all (port_stays ((advance d s)\<lparr>st_elapsed_remainder := r\<rparr>) e) (map (advance_port d) (st_ports s))"
    using assms port_stays_split(2) [of s d e] by (simp add: no_expiry_def list_all_iff)
  then show "no_expiry ((advance d s)\<lparr>st_elapsed_remainder := r\<rparr>) e"
    using assms stays_split(2) [of d e] by (simp add: no_expiry_def advance_def)
qed

text \<open>A loop over the enabled ports that changes each of them by itself.\<close>

lemma loop_map:
  assumes "\<And>i ps. i < length (st_ports s) \<Longrightarrow> length ps = length (st_ports s) \<Longrightarrow> ps ! i = port s i \<Longrightarrow>
    sp_state (port s i) \<noteq> STP_DISABLED \<Longrightarrow> f i (s\<lparr>st_ports := ps\<rparr>) = s\<lparr>st_ports := ps[i := g (ps ! i)]\<rparr>"
  shows "for_each_enabled f s = s\<lparr>st_ports := map (\<lambda>p. if sp_state p = STP_DISABLED then p else g p) (st_ports s)\<rparr>"
proof -
  define h :: "stp_port \<Rightarrow> stp_port" where "h p = (if sp_state p = STP_DISABLED then p else g p)" for p
  have "fold (\<lambda>i s. if sp_state (port s i) \<noteq> STP_DISABLED then f i s else s) [0..<n] s
      = s\<lparr>st_ports := map h (take n (st_ports s)) @ drop n (st_ports s)\<rparr>" if "n \<le> length (st_ports s)" for n
    using that
  proof (induction n)
    case (Suc n)
    let ?ps = "map h (take n (st_ports s)) @ drop n (st_ports s)"
    have n: "n < length (st_ports s)" "length ?ps = length (st_ports s)" "?ps ! n = port s n"
      using Suc.prems by (simp_all add: nth_append)
    have "?ps[n := h (port s n)] = map h (take (Suc n) (st_ports s)) @ drop (Suc n) (st_ports s)"
      using n(1) by (simp add: take_Suc_conv_app_nth list_update_append flip: Cons_nth_drop_Suc)
    moreover have "?ps[n := port s n] = ?ps" using n(3) list_update_id [of ?ps n] by simp
    moreover have "fold (\<lambda>i s. if sp_state (port s i) \<noteq> STP_DISABLED then f i s else s) [0..<n] s = s\<lparr>st_ports := ?ps\<rparr>"
      using Suc by simp
    ultimately show ?case
      using n(3) assms [OF n] by (cases "sp_state (port s n) = STP_DISABLED") (simp_all add: h_def)
  qed simp
  from this [of "length (st_ports s)"] show ?thesis by (simp add: for_each_enabled_def h_def)
qed


lemma tick_bridge_quiet:
  assumes "no_expiry s e" "0 \<le> e"
  shows "tick_bridge_timers e s = s\<lparr>st_hello_timer := advance_timer e (st_hello_timer s),
    st_tcn_timer := advance_timer e (st_tcn_timer s), st_topology_change_timer := advance_timer e (st_topology_change_timer s)\<rparr>"
  using assms by (simp add: tick_bridge_timers_def no_expiry_def timer_stays Let_def)

lemma port_stays_cong:
  "st_max_age t = st_max_age s \<Longrightarrow> st_forward_delay t = st_forward_delay s \<Longrightarrow> port_stays t e = port_stays s e"
  by (simp add: port_stays_def fun_eq_iff)

lemma hold_ticks: "ms_to_timer 1000 = 256"
  by (simp add: ms_to_timer_eq)

lemma tick_message_age_quiet:
  assumes "list_all (port_stays s e) (st_ports s)" "0 \<le> e"
  shows "for_each_enabled (tick_message_age e) s = s\<lparr>st_ports := map (\<lambda>p. if sp_state p = STP_DISABLED then p
    else p\<lparr>sp_message_age_timer := advance_timer e (sp_message_age_timer p)\<rparr>) (st_ports s)\<rparr>"
proof (rule loop_map)
  fix i ps assume i: "i < length (st_ports s)" "length ps = length (st_ports s)" "ps ! i = port s i"
    "sp_state (port s i) \<noteq> STP_DISABLED"
  then have "stays e (st_max_age s) (sp_message_age_timer (port s i))"
    using assms(1) by (auto simp: list_all_length port_stays_def)
  then show "tick_message_age e i (s\<lparr>st_ports := ps\<rparr>) =
      s\<lparr>st_ports := ps[i := (ps ! i)\<lparr>sp_message_age_timer := advance_timer e (sp_message_age_timer (ps ! i))\<rparr>]\<rparr>"
    using assms(2) i by (simp add: tick_message_age_def timer_stays upd_port_def)
qed

lemma tick_port_timers_quiet:
  assumes "list_all (\<lambda>p. sp_state p = STP_DISABLED \<or> stays e (st_forward_delay s) (sp_forward_delay_timer p)
    \<and> stays e 256 (sp_hold_timer p)) (st_ports s)" "0 \<le> e"
  shows "for_each_enabled (\<lambda>i s. tick_hold e i (tick_forward_delay e i s)) s = s\<lparr>st_ports := map (\<lambda>p. if sp_state p = STP_DISABLED then p
    else p\<lparr>sp_forward_delay_timer := advance_timer e (sp_forward_delay_timer p), sp_hold_timer := advance_timer e (sp_hold_timer p)\<rparr>) (st_ports s)\<rparr>"
proof (rule loop_map)
  fix i ps assume i: "i < length (st_ports s)" "length ps = length (st_ports s)" "ps ! i = port s i"
    "sp_state (port s i) \<noteq> STP_DISABLED"
  then have "stays e (st_forward_delay s) (sp_forward_delay_timer (port s i))" "stays e 256 (sp_hold_timer (port s i))"
    using assms(1) by (auto simp: list_all_length)
  then show "tick_hold e i (tick_forward_delay e i (s\<lparr>st_ports := ps\<rparr>)) =
      s\<lparr>st_ports := ps[i := (ps ! i)\<lparr>sp_forward_delay_timer := advance_timer e (sp_forward_delay_timer (ps ! i)),
        sp_hold_timer := advance_timer e (sp_hold_timer (ps ! i))\<rparr>]\<rparr>"
    using assms(2) i by (simp add: tick_forward_delay_def tick_hold_def timer_stays upd_port_def hold_ticks)
qed

text \<open>One call of \<open>stp_tick\<close> in which no timer expires.\<close>

lemma stp_tick_quiet:
  assumes "tick_elapsed s ms = (e, r)" "no_expiry s e" "0 \<le> e"
  shows "stp_tick ms s = (advance e s)\<lparr>st_elapsed_remainder := r\<rparr>"
proof (cases "e = 0")
  case True
  then show ?thesis using assms(1) by (simp add: stp_tick_def advance_compose)
next
  case False
  define b where "b = tick_bridge_timers e (s\<lparr>st_elapsed_remainder := r\<rparr>)"
  have "no_expiry (s\<lparr>st_elapsed_remainder := r\<rparr>) e" 
    using assms(2) port_stays_cong [of "s\<lparr>st_elapsed_remainder := r\<rparr>" s e] by (simp add: no_expiry_def)
  from tick_bridge_quiet [OF this assms(3)] have b: "b = s\<lparr>st_hello_timer := advance_timer e (st_hello_timer s),
      st_tcn_timer := advance_timer e (st_tcn_timer s),
      st_topology_change_timer := advance_timer e (st_topology_change_timer s), st_elapsed_remainder := r\<rparr>"
    by (simp add: b_def)
  define g :: "stp_port \<Rightarrow> stp_port" where "g p = (if sp_state p = STP_DISABLED then p
    else p\<lparr>sp_message_age_timer := advance_timer e (sp_message_age_timer p)\<rparr>)" for p
  define m where "m = for_each_enabled (tick_message_age e) b"
  have pb: "port_stays b e = port_stays s e" by (rule port_stays_cong) (simp_all add: b)
  then have "list_all (port_stays b e) (st_ports b)" using assms(2) by (simp add: b no_expiry_def)
  from tick_message_age_quiet [OF this assms(3)] have m: "m = b\<lparr>st_ports := map g (st_ports s)\<rparr>"
    by (simp add: m_def g_def [abs_def] b)
  have "list_all (\<lambda>p. sp_state p = STP_DISABLED \<or> stays e (st_forward_delay m) (sp_forward_delay_timer p)
    \<and> stays e 256 (sp_hold_timer p)) (st_ports m)"
    using assms(2) by (auto simp: m b g_def no_expiry_def port_stays_def list_all_iff)
  note h = tick_port_timers_quiet [OF this assms(3)]
  have "map (\<lambda>p. if sp_state p = STP_DISABLED then p else p\<lparr>sp_forward_delay_timer := advance_timer e (sp_forward_delay_timer p),
      sp_hold_timer := advance_timer e (sp_hold_timer p)\<rparr>) (st_ports m) = map (advance_port e) (st_ports s)"
    by (simp add: m g_def advance_port_def)
  with h show ?thesis using False assms(1) by (simp add: stp_tick_def b_def [symmetric] m_def [symmetric]) (simp add: m b advance_def)
qed

lemma tick_elapsed_overflow:
  assumes "0 \<le> st_elapsed_remainder s" "st_elapsed_remainder s \<le> 4"
  shows "fst (tick_elapsed s 8388608) < 0"
proof -
  define r where "r = st_elapsed_remainder s"
  have r: "0 \<le> r" "r \<le> 4" using assms by (simp_all add: r_def)
  have "(4294967296 + r * 256) mod 4294967296 = r * 256" using r by simp
  then have "c_int ((8388608 + r) * 256) = r * 256 - 2147483648" by (simp add: c_int_def algebra_simps)
  moreover have "c_int (8388608 + r) = 8388608 + r" using r by (simp add: c_int_id)
  ultimately have "fst (tick_elapsed s 8388608) = c_div (r * 256 - 2147483648) 1000"
    by (simp add: tick_elapsed_def Let_def clamp_def r_def [symmetric] ms_to_timer_def)
  also have "\<dots> = - ((2147483648 - r * 256) div 1000)" using r by (simp add: c_div_def)
  also have "\<dots> < 0" using r zdiv_mono1 [of 1000 "2147483648 - r * 256" 1000] by simp
  finally show ?thesis .
qed

text \<open>C32: Calls of \<open>stp_tick\<close> lose no time. For intervals of up to 8388603 ms (two hours and
  twenty minutes) the ticks are at least the milliseconds that have passed, less the remainder
  of at most 4 ms kept for the next call, and as long as no timer expires these are exactly the
  ticks by which every running timer of the bridge and of its enabled ports advances, and
  nothing else changes. But the clock may run fast: the code takes a whole number of
  milliseconds for each batch of ticks, rounded down, so that a tick of 3.9 ms may be charged
  as 3 ms, and never less. It does not hold for longer intervals: at 8388608 ms the
  conversion overflows and gives a negative number of ticks, although the code accepts intervals
  up to 1000 ms less than the largest \<open>int\<close>.\<close>

theorem stp_tick_keeps_time:
  assumes "\<forall>ms \<in> set mss. 0 \<le> ms \<and> ms \<le> 8388603"
    and "0 \<le> st_elapsed_remainder s" "st_elapsed_remainder s \<le> 4"
  shows "(let r = st_elapsed_remainder (tick_run s mss); n = ticks_seen s mss;
      passed = sum_list mss + st_elapsed_remainder s - r
    in 0 \<le> r \<and> r \<le> 4 \<and> 0 \<le> n \<and> passed * 256 \<le> n * 1000 \<and> 3 * n \<le> passed
      \<and> (no_expiry s n \<longrightarrow> tick_run s mss = (advance n s)\<lparr>st_elapsed_remainder := r\<rparr>))
    \<and> fst (tick_elapsed s 8388608) < 0"
proof
  show "let r = st_elapsed_remainder (tick_run s mss); n = ticks_seen s mss;
      passed = sum_list mss + st_elapsed_remainder s - r
    in 0 \<le> r \<and> r \<le> 4 \<and> 0 \<le> n \<and> passed * 256 \<le> n * 1000 \<and> 3 * n \<le> passed
      \<and> (no_expiry s n \<longrightarrow> tick_run s mss = (advance n s)\<lparr>st_elapsed_remainder := r\<rparr>)"
    using assms
  proof (induction mss arbitrary: s)
    case (Cons ms mss)
    obtain e r where er: "tick_elapsed s ms = (e, r)" by fastforce
    have r: "st_elapsed_remainder (stp_tick ms s) = r" by (simp add: clock_tick er)
    have once: "0 \<le> r \<and> r \<le> 4 \<and> 0 \<le> e \<and> (ms + st_elapsed_remainder s - r) * 256 \<le> e * 1000
        \<and> 3 * e \<le> ms + st_elapsed_remainder s - r"
      using Cons.prems er by (intro tick_elapsed_once) simp_all
    define t n where "t = stp_tick ms s" and "n = ticks_seen t mss"
    define r' where "r' = st_elapsed_remainder (tick_run t mss)"
    have IH: "0 \<le> r'" "r' \<le> 4" "0 \<le> n" "(sum_list mss + r - r') * 256 \<le> n * 1000" "3 * n \<le> sum_list mss + r - r'"
      "no_expiry t n \<Longrightarrow> tick_run t mss = (advance n t)\<lparr>st_elapsed_remainder := r'\<rparr>"
      using Cons.IH [of t] Cons.prems(1) once r by (simp_all add: Let_def t_def n_def r'_def)
    have "tick_run s (ms # mss) = (advance (e + n) s)\<lparr>st_elapsed_remainder := r'\<rparr>" if "no_expiry s (e + n)"
    proof -
      have t: "t = (advance e s)\<lparr>st_elapsed_remainder := r\<rparr>"
        unfolding t_def using er no_expiry_split(1) [OF that] once IH(3) by (intro stp_tick_quiet) simp_all
      moreover have "no_expiry t n" unfolding t using that once IH(3) by (intro no_expiry_split(2)) simp_all
      ultimately show ?thesis using IH(6) by (simp add: t_def [symmetric] advance_compose)
    qed
    with once IH(1-5) er show ?case
      by (simp add: Let_def t_def [symmetric] n_def [symmetric] r'_def [symmetric] algebra_simps)
  qed (simp add: Let_def advance_compose)
  show "fst (tick_elapsed s 8388608) < 0" using assms(2,3) by (rule tick_elapsed_overflow)
qed

text \<open>Four calls with 13 ms together advance the hello timer by four ticks.\<close>

theorem stp_tick_keeps_time_witness:
  "let s = stp_create 2 ''br0'' 5; t = tick_run (s\<lparr>st_hello_timer := \<lparr>tm_active = True, tm_value = 7\<rparr>\<rparr>) [4, 3, 3, 3]
   in tm_value (st_hello_timer t) = 11"
proof -
  define s where "s = (stp_create 2 ''br0'' 5)\<lparr>st_hello_timer := \<lparr>tm_active = True, tm_value = 7\<rparr>\<rparr>"
  have r: "st_elapsed_remainder s = 0" and q: "no_expiry s 4" unfolding s_def by code_simp+
  have t: "ticks_seen s [4, 3, 3, 3] = 4" by (simp add: tick_elapsed_eq clock_tick r)
  have h: "st_hello_timer s = \<lparr>tm_active = True, tm_value = 7\<rparr>" by (simp add: s_def)
  have eq: "tick_run s [4, 3, 3, 3] = (advance 4 s)\<lparr>st_elapsed_remainder := st_elapsed_remainder (tick_run s [4, 3, 3, 3])\<rparr>"
    using stp_tick_keeps_time [of "[4, 3, 3, 3]" s] t q by (simp only: r Let_def) simp
  have "st_hello_timer (tick_run s [4, 3, 3, 3]) = advance_timer 4 (st_hello_timer s)"
    by (rule trans [OF arg_cong [OF eq, of st_hello_timer]]) (simp add: advance_def)
  then show ?thesis unfolding Let_def s_def [symmetric] by (simp add: h advance_timer_def)
qed

end
