(* ===== verification/StpRate.thy ===== *)
theory StpRate
  imports StpSpec
begin

text \<open>
  The limit on config BPDUs: between two calls of \<open>stp_tick\<close> a port sends at most one, however
  many BPDUs arrive. The hold timer of a port is a budget: it is spent by sending and given
  back only when the timer expires.
\<close>

definition is_config_frame :: "u8 list \<Rightarrow> bool" where
  "is_config_frame f \<longleftrightarrow> f ! (ETH_HEADER_LEN + LLC_HEADER_LEN + 3) = STP_TYPE_CONFIG"

definition config_frames :: "stp \<Rightarrow> nat \<Rightarrow> nat" where
  "config_frames s i = length (filter (\<lambda>(j, f). j = i \<and> is_config_frame f) (st_sent s))"

definition budget :: "stp \<Rightarrow> nat \<Rightarrow> nat" where
  "budget s i = config_frames s i + (if tm_active (sp_hold_timer (port s i)) then 0 else 1)"

definition limited :: "stp \<Rightarrow> stp \<Rightarrow> bool" where
  "limited s t \<longleftrightarrow> length (st_ports t) = length (st_ports s)
     \<and> (\<forall>i < length (st_ports s). budget t i \<le> budget s i)"

lemma limited_refl [simp]: "limited s s"
  by (simp add: limited_def)

lemma limited_trans: "limited s t \<Longrightarrow> limited t u \<Longrightarrow> limited s u"
  unfolding limited_def by (metis order_trans)

lemma frame_type: "stp_frame (put_header h @ rest) ! 20 = bh_bpdu_type h"
  by (simp add: stp_frame_def put_header_def nth_append unat_byte wire)

lemma tcn_frame: "\<not> is_config_frame (stp_frame (put_header \<lparr>bh_protocol_id = a, bh_protocol_version = b,
    bh_bpdu_type = STP_TYPE_TCN\<rparr>))"
  using frame_type [of _ "[]"] by (simp add: is_config_frame_def ETH_HEADER_LEN_def LLC_HEADER_LEN_def
    STP_TYPE_TCN_def STP_TYPE_CONFIG_def)

lemma same_budget:
  assumes "st_sent t = st_sent s" and "length (st_ports t) = length (st_ports s)"
    and "\<And>i. i < length (st_ports s) \<Longrightarrow> sp_hold_timer (port t i) = sp_hold_timer (port s i)"
  shows "limited s t"
  using assms by (simp add: limited_def budget_def config_frames_def)

lemma limited_upd:
  assumes "\<And>p. sp_hold_timer (f p) = sp_hold_timer p"
  shows "limited s (upd_port i f s)"
proof (rule same_budget)
  show "sp_hold_timer (port (upd_port i f s) j) = sp_hold_timer (port s j)" if "j < length (st_ports s)" for j
    using that assms by (cases "i < length (st_ports s)")
      (simp_all add: port_upd_port, simp add: upd_port_def list_update_beyond)
qed simp_all

lemma limited_record [simp]:
  "limited s (t\<lparr>st_tcn_timer := a\<rparr>) = limited s t" "limited s (t\<lparr>st_hello_timer := a\<rparr>) = limited s t"
  "limited s (t\<lparr>st_topology_change_timer := a\<rparr>) = limited s t"
  "limited s (t\<lparr>st_fdb_needs_flush := d\<rparr>) = limited s t"
  "limited s (t\<lparr>st_topology_change_detected := d\<rparr>) = limited s t"
  "limited s (t\<lparr>st_topology_change := d\<rparr>) = limited s t" "limited s (t\<lparr>st_max_age := m\<rparr>) = limited s t"
  "limited s (t\<lparr>st_hello_time := m\<rparr>) = limited s t" "limited s (t\<lparr>st_forward_delay := m\<rparr>) = limited s t"
  "limited s (t\<lparr>st_first_changed_port := i\<rparr>) = limited s t" "limited s (seq_change t) = limited s t"
  "limited s (t\<lparr>st_root_port := p, st_designated_root := x, st_root_path_cost := y\<rparr>) = limited s t"
  by (simp_all add: limited_def budget_def config_frames_def seq_change_def)

text \<open>Each operation keeps within the budget.\<close>

named_theorems limited_ops \<open>operations within the budget\<close>

lemma limited_then_upd [limited_ops]:
  "(\<And>p. sp_hold_timer (f p) = sp_hold_timer p) \<Longrightarrow> limited s t \<Longrightarrow> limited s (upd_port i f t)"
  by (erule limited_trans, rule limited_upd)

lemma limited_send_config:
  assumes i: "i < length (st_ports s)" and h: "\<not> tm_active (sp_hold_timer (port s i))"
  shows "limited s (send_config i a s)"
proof -
  define c where "c = config_to_send s (port s i) a"
  define f where "f = (\<lambda>p :: stp_port. sp_hold_timer_update (stp_start_timer 0)
      (p\<lparr>sp_topology_change_ack := False, sp_config_pending := False,
         sp_tx_count := c_int (sp_tx_count p + 1)\<rparr>))"
  have eq: "send_config i a s = (if int (unat (cb_message_age c)) < st_max_age s
      then upd_port i f (s\<lparr>st_sent := st_sent s @ [(i, stp_frame (put_config c))]\<rparr>) else s)"
    using i by (simp add: send_config_def c_def [symmetric] stp_send_bpdu_def Let_def upd_port_def f_def)
  show ?thesis unfolding eq limited_def budget_def config_frames_def using i h
    by (auto simp: upd_port_def nth_list_update f_def stp_start_timer_def)
qed

lemma limited_transmit_config [limited_ops]:
  assumes "limited s t" and "i < length (st_ports t)"
  shows "limited s (stp_transmit_config i t)"
  by (rule limited_trans [OF assms(1)])
    (use assms(2) in \<open>simp add: stp_transmit_config_def limited_send_config limited_upd split: option.split\<close>)

lemma limited_tcn [limited_ops]: "limited s t \<Longrightarrow> limited s (stp_transmit_tcn t)"
proof (erule limited_trans)
  show "limited t (stp_transmit_tcn t)"
    by (auto simp: stp_transmit_tcn_def stp_send_bpdu_def limited_def budget_def config_frames_def
      upd_port_def nth_list_update tcn_frame split: option.split)
qed

lemma limited_length: "limited s t \<Longrightarrow> length (st_ports t) = length (st_ports s)"
  by (simp add: limited_def)

lemma limited_loop:
  assumes "\<And>i t. limited s t \<Longrightarrow> i < length (st_ports t) \<Longrightarrow> limited s (f i t)" and "limited s t"
  shows "limited s (for_each_enabled f t)"
  by (rule loop_inv [where P = "limited s", THEN conjunct1])
    (use assms limited_length in auto)

lemma limited_generation [limited_ops]: "limited s t \<Longrightarrow> limited s (stp_config_bpdu_generation t)"
  unfolding stp_config_bpdu_generation_def
  by (rule limited_loop) (simp_all add: limited_transmit_config)

lemma limited_detection [limited_ops]: "limited s t \<Longrightarrow> limited s (stp_topology_change_detection t)"
  by (simp add: stp_topology_change_detection_def Let_def limited_ops)

lemma limited_set_state [limited_ops]: "limited s t \<Longrightarrow> limited s (stp_set_port_state i st t)"
  by (simp add: stp_set_port_state_def Let_def limited_ops)

lemma limited_state_selection [limited_ops]: "limited s t \<Longrightarrow> limited s (stp_port_state_selection t)"
  unfolding stp_port_state_selection_def
  by (rule limited_loop) (simp_all add: select_port_state_def stp_make_forwarding_def
    stp_make_blocking_def Let_def limited_ops)

lemma limited_configuration_update [limited_ops]:
  assumes "limited s t" shows "limited s (stp_configuration_update t)"
proof -
  have "limited s (stp_root_selection t)"
    using assms by (simp add: stp_root_selection_def split: option.split)
  then have "limited s (stp_designated_port_selection (stp_root_selection t))"
    unfolding stp_designated_port_selection_def
    by (rule limited_loop [rotated]) (simp add: stp_become_designated_port_def limited_ops)
  then show ?thesis by (simp add: stp_configuration_update_def)
qed

lemma limited_received: "i < length (st_ports s) \<Longrightarrow> limited s (stp_received_bpdu i bs s)"
proof -
  assume i: "i < length (st_ports s)"
  have "limited s (stp_received_config_bpdu i c s)" for c
    using i by (simp add: stp_received_config_bpdu_def Let_def limited_ops
      stp_record_config_information_def stp_record_config_timeout_values_def
      stp_topology_change_acknowledged_def)
  moreover have "limited s (stp_received_tcn_bpdu i s)"
    using i limited_length [OF limited_detection [OF limited_refl]]
    by (simp add: stp_received_tcn_bpdu_def stp_acknowledge_topology_change_def limited_ops)
  ultimately show ?thesis
    by (simp add: stp_received_bpdu_def Let_def count_error_def count_rx_def limited_ops)
qed

text \<open>C30: Between two clock ticks a port sends at most one config BPDU, however many BPDUs of
  whatever content arrive on whatever ports, and none at all while its hold timer runs. So a
  flood of BPDUs is not amplified. This is under the assumption, which the whole model makes, that
  the callback which sends a BPDU does not call the module again before it returns; the lemma
  \<open>reentrant_callback_sends_twice\<close> below shows that it does not hold otherwise.\<close>

theorem stp_flood_not_amplified:
  assumes "\<forall>(i, bs) \<in> set received. i < length (st_ports s)" and "j < length (st_ports s)"
  defines "t \<equiv> fold (\<lambda>(i, bs). stp_received_bpdu i bs) received s"
  shows "config_frames t j \<le> config_frames s j + (if tm_active (sp_hold_timer (port s j)) then 0 else 1)"
proof -
  have "limited s (fold (\<lambda>(i, bs). stp_received_bpdu i bs) received u)" if "limited s u" for u
    using that assms(1)
  proof (induction received arbitrary: u)
    case (Cons x xs)
    then show ?case using limited_trans [OF Cons.prems(1) limited_received] limited_length [OF Cons.prems(1)]
      by (auto split: prod.split)
  qed simp
  then have "budget t j \<le> budget s j" using assms(2) by (simp add: t_def limited_def)
  then show ?thesis by (simp add: budget_def)
qed

text \<open>A port on which the root bridge answers a topology change notification at once.\<close>

definition answers :: "stp \<Rightarrow> nat \<Rightarrow> bool" where
  "answers s i \<longleftrightarrow> i < length (st_ports s) \<and> stp_is_root_bridge s \<and> sp_state (port s i) \<noteq> STP_DISABLED
     \<and> stp_is_designated_port s i \<and> \<not> tm_active (sp_hold_timer (port s i)) \<and> 0 < st_max_age s"

lemma config_frame: "is_config_frame (stp_frame (put_config (config_to_send s p a)))"
  using frame_type [of "cb_header (config_to_send s p a)"]
  by (simp add: is_config_frame_def put_config_def config_to_send_def ETH_HEADER_LEN_def LLC_HEADER_LEN_def)

lemma tcn_answered:
  assumes "answers s i"
  shows "config_frames (stp_received_bpdu i [0, 0, 0, 0x80] s) i = config_frames s i + 1
    \<and> tm_active (sp_hold_timer (port (stp_received_bpdu i [0, 0, 0, 0x80] s) i))"
proof -
  define u where "u = upd_port i (sp_topology_change_ack_update (\<lambda>_. True)) (stp_topology_change_detection s)"
  have h: "get_header [0, 0, 0, 0x80] = \<lparr>bh_protocol_id = 0, bh_protocol_version = 0, bh_bpdu_type = 0x80\<rparr>"
    by (simp add: get_header_def be_field_def be_get_def)
  have u: "st_sent u = st_sent s" "i < length (st_ports u)" "stp_is_root_bridge u" "\<not> tm_active (sp_hold_timer (port u i))"
      "0 < st_max_age u"
    using assms by (simp_all add: answers_def u_def stp_topology_change_detection_def stp_is_root_bridge_def Let_def
        seq_change_def upd_port_def)
  have r: "stp_received_bpdu i [0, 0, 0, 0x80] s = count_rx i (send_config i 0 u)"
    using assms u(3,4) by (simp add: answers_def stp_received_bpdu_def h stp_received_tcn_bpdu_def stp_acknowledge_topology_change_def
        stp_transmit_config_def u_def [symmetric] Let_def sizeof_stp_bpdu_header_def sizeof_stp_tcn_bpdu_def
        STP_PROTOCOL_ID_def STP_TYPE_CONFIG_def STP_TYPE_TCN_def)
  have a: "cb_message_age (config_to_send u (port u i) 0) = 0" by (simp add: config_to_send_def)
  show ?thesis unfolding r using u config_frame [of u "port u i" 0]
    by (simp add: count_rx_def send_config_def Let_def a stp_send_bpdu_def config_frames_def upd_port_def stp_start_timer_def)
qed

text \<open>An enabled port gets a topology change notification: it sends one config BPDU, the
  acknowledgement, and then no more, whatever arrives before the next tick.\<close>

definition flood_bridge :: stp where
  "flood_bridge = stp_port_enable 1 (stp_port_enable 0 (stp_create 2 ''br0'' 5))"

definition flood :: "(nat \<times> u8 list) list" where
  "flood = [(0, [0, 0, 0, 0x80]), (1, [0, 0, 0, 0x80]),
     (0, [0, 0, 0, 0] @ [0] @ replicate 8 255 @ [0, 0, 0, 0] @ replicate 8 255 @ [0, 1] @ [0, 0] @ [0, 20] @ [0, 2] @ [0, 15])]"

lemma flood_bridge_answers: "answers flood_bridge 0" "length (st_ports flood_bridge) = 2" "config_frames flood_bridge 0 = 0"
  unfolding flood_bridge_def by code_simp+

theorem stp_flood_not_amplified_witness:
  "let t = stp_received_bpdu 0 [0, 0, 0, 0x80] flood_bridge
   in config_frames t 0 = 1 \<and> config_frames (fold (\<lambda>(i, bs). stp_received_bpdu i bs) flood t) 0 \<le> 1"
proof -
  define t where "t = stp_received_bpdu 0 [0, 0, 0, 0x80] flood_bridge"
  have "length (st_ports t) = 2" using limited_length [OF limited_received, of 0 flood_bridge] flood_bridge_answers by (simp add: t_def)
  moreover have "config_frames t 0 = 1" "tm_active (sp_hold_timer (port t 0))"
    using tcn_answered [OF flood_bridge_answers(1)] flood_bridge_answers(3) by (simp_all add: t_def)
  ultimately show ?thesis using stp_flood_not_amplified [of flood t 0] by (simp add: t_def [symmetric] flood_def)
qed

subsection \<open>A callback that calls the module again\<close>

text \<open>\<open>send_config\<close> with the callback as a parameter, which may call the module again, as the
  comment in \<open>stp_init\<close> says it does for patch ports. The hold timer is started only
  when the callback has returned.\<close>

definition send_config_through :: "(nat \<Rightarrow> u8 list \<Rightarrow> stp \<Rightarrow> stp) \<Rightarrow> nat \<Rightarrow> int \<Rightarrow> stp \<Rightarrow> stp" where
  "send_config_through send_bpdu i message_age s =
     (let config = config_to_send s (port s i) message_age in
      if int (unat (cb_message_age config)) < st_max_age s then
        let s1 = upd_port i (\<lambda>p. p\<lparr>sp_topology_change_ack := False, sp_config_pending := False\<rparr>) s;
            frame = stp_frame (put_config config);
            s2 = send_bpdu i frame (s1\<lparr>st_sent := st_sent s1 @ [(i, frame)]\<rparr>);
            s3 = upd_port i (\<lambda>p. p\<lparr>sp_tx_count := c_int (sp_tx_count p + 1)\<rparr>) s2
        in upd_port i (sp_hold_timer_update (stp_start_timer 0)) s3
      else s)"

lemma send_config_through_quiet:
  "i < length (st_ports s) \<Longrightarrow> send_config_through (\<lambda>_ _ s. s) i age s = send_config i age s"
  by (simp add: send_config_through_def send_config_def stp_send_bpdu_def Let_def upd_port_def)

text \<open>The neighbour behind a patch port answers with a topology change notification, which the
  port acknowledges with a second config BPDU before the hold timer has been started.\<close>

lemma reentrant_callback_sends_twice:
  assumes "answers s i"
  shows "config_frames (send_config_through (\<lambda>i _. stp_received_bpdu i [0, 0, 0, 0x80]) i 0 s) i = config_frames s i + 2"
proof -
  define f where "f = stp_frame (put_config (config_to_send s (port s i) 0))"
  define s1 where "s1 = upd_port i (\<lambda>p. p\<lparr>sp_topology_change_ack := False, sp_config_pending := False\<rparr>) s"
  define s2 where "s2 = s1\<lparr>st_sent := st_sent s1 @ [(i, f)]\<rparr>"
  have "answers s2 i" using assms
    by (simp add: answers_def s2_def s1_def port_upd_port upd_port_def stp_is_root_bridge_def stp_is_designated_port_def)
  then have "config_frames (stp_received_bpdu i [0, 0, 0, 0x80] s2) i = config_frames s2 i + 1" using tcn_answered by blast
  moreover have "config_frames s2 i = config_frames s i + 1"
    using config_frame by (simp add: s2_def s1_def config_frames_def f_def)
  moreover have "cb_message_age (config_to_send s (port s i) 0) = 0" by (simp add: config_to_send_def)
  ultimately show ?thesis using assms
    by (simp add: send_config_through_def answers_def Let_def s1_def [symmetric] f_def [symmetric] s2_def [symmetric])
      (simp add: config_frames_def)
qed

lemma reentrant_callback_example:
  "config_frames (send_config_through (\<lambda>i _. stp_received_bpdu i [0, 0, 0, 0x80]) 0 0 flood_bridge) 0 = 2"
  using reentrant_callback_sends_twice [OF flood_bridge_answers(1)] flood_bridge_answers(3) by simp

end
