(* ===== verification/ConntrackProps.thy ===== *)
theory ConntrackProps
  imports Conntrack
begin

text \<open>
  The properties of the connection tracker: the order of the TCP states, the three-way
  handshake, the option parser, the expiration lists (the contract of
  \<open>struct ct_l4_proto\<close>, met by all three trackers) and the timeout policies.
\<close>

lemmas tcps_order = less_eq_ct_dpif_tcp_state_def less_ct_dpif_tcp_state_def

subsection \<open>The order of the TCP states\<close>

text \<open>The states of both ends move forward.\<close>

definition forward :: "tcp_vars \<Rightarrow> tcp_vars \<Rightarrow> bool" where
  "forward x y \<longleftrightarrow> pr_state (x_src x) \<le> pr_state (x_src y) \<and> pr_state (x_dst x) \<le> pr_state (x_dst y)"

lemma forward_trans: "forward x y \<Longrightarrow> forward y z \<Longrightarrow> forward x z"
  by (auto simp: forward_def)

lemma adjust_states [simp]:
  "x_src (tcp_adjust flags x) = x_src x" "x_dst (tcp_adjust flags x) = x_dst x"
  by (simp_all add: tcp_adjust_def Let_def)

lemma synchronize_states [simp]:
  "pr_state (x_src (tcp_synchronize x)) = pr_state (x_src x)"
  "pr_state (x_dst (tcp_synchronize x)) = pr_state (x_dst x)"
  by (simp_all add: tcp_synchronize_def Let_def)

lemma first_packet_states [simp]:
  "pr_state (x_src (tcp_first_packet flags l4 x)) = CT_DPIF_TCPS_SYN_SENT"
  "pr_state (x_dst (tcp_first_packet flags l4 x)) = pr_state (x_dst x)"
  by (simp_all add: tcp_first_packet_def tcp_answer_scale_def Let_def)

lemma prepare_states:
  "pr_state src \<le> pr_state (x_src (tcp_prepare flags l4 src dst))"
  "pr_state (x_dst (tcp_prepare flags l4 src dst)) = pr_state dst"
  by (auto simp: tcp_prepare_def Let_def split: prod.split)

lemma le_time_wait [simp]: "s \<le> CT_DPIF_TCPS_TIME_WAIT"
  by (cases s) (simp_all add: tcps_order)

lemma fin_forward: "forward x (tcp_fin_state flags x)"
  by (auto simp: forward_def tcp_fin_state_def)

lemma reset_forward: "forward x (tcp_reset_states flags x)"
  by (simp add: forward_def tcp_reset_states_def)

lemma states_forward: "forward x (tcp_update_states flags x)"
proof -
  define x1 where "x1 = (if has flags TCP_SYN \<and> pr_state (x_src x) < CT_DPIF_TCPS_SYN_SENT
      then x\<lparr>x_src := (x_src x)\<lparr>pr_state := CT_DPIF_TCPS_SYN_SENT\<rparr>\<rparr> else x)"
  define x2 where "x2 = tcp_fin_state flags x1"
  define x3 where "x3 = (if has flags TCP_ACK then
      (if pr_state (x_dst x2) = CT_DPIF_TCPS_SYN_SENT
       then x2\<lparr>x_dst := (x_dst x2)\<lparr>pr_state := CT_DPIF_TCPS_ESTABLISHED\<rparr>\<rparr>
       else if pr_state (x_dst x2) = CT_DPIF_TCPS_CLOSING
       then x2\<lparr>x_dst := (x_dst x2)\<lparr>pr_state := CT_DPIF_TCPS_FIN_WAIT_2\<rparr>\<rparr> else x2) else x2)"
  have "forward x x1" by (auto simp: x1_def forward_def)
  moreover have "forward x1 x2" by (simp add: x2_def fin_forward)
  moreover have "forward x2 x3" by (auto simp: x3_def forward_def tcps_order)
  moreover have "tcp_update_states flags x = tcp_reset_states flags x3"
    by (simp add: tcp_update_states_def Let_def x1_def [symmetric] x2_def [symmetric] x3_def)
  ultimately show ?thesis by (metis forward_trans reset_forward)
qed

lemma update_expiration_peers [simp]:
  "tc_peer0 (snd (conn_update_expiration tm now (ct, c))) = tc_peer0 c"
  "tc_peer1 (snd (conn_update_expiration tm now (ct, c))) = tc_peer1 c"
  by (simp_all add: conn_update_expiration_def Let_def)

lemma put_peers_states [simp]:
  "pr_state (tc_peer0 (put_peers reply src dst c)) = (if reply then pr_state dst else pr_state src)"
  "pr_state (tc_peer1 (put_peers reply src dst c)) = (if reply then pr_state src else pr_state dst)"
  by (simp_all add: put_peers_def)

lemma get_peers_states:
  "get_peers reply c = (src, dst) \<Longrightarrow>
    pr_state (tc_peer0 c) = (if reply then pr_state dst else pr_state src) \<and>
    pr_state (tc_peer1 c) = (if reply then pr_state src else pr_state dst)"
  by (auto simp: get_peers_def split: if_splits)

text \<open>C33: A packet never moves the TCP state of either end backwards, except that a fresh SYN
  on a connection that both ends have closed resets both to closed, and then the tracker asks
  its caller for a new connection.\<close>

theorem tcp_states_progress:
  assumes "tcp_conn_update l4 reply now (ct, c) = ((ct', c'), res)"
  shows "if res = CT_UPDATE_NEW
    then CT_DPIF_TCPS_FIN_WAIT_2 \<le> pr_state (tc_peer0 c) \<and> CT_DPIF_TCPS_FIN_WAIT_2 \<le> pr_state (tc_peer1 c)
      \<and> pr_state (tc_peer0 c') = CT_DPIF_TCPS_CLOSED \<and> pr_state (tc_peer1 c') = CT_DPIF_TCPS_CLOSED
    else pr_state (tc_peer0 c) \<le> pr_state (tc_peer0 c') \<and> pr_state (tc_peer1 c) \<le> pr_state (tc_peer1 c')"
proof -
  obtain src dst where sd: "get_peers reply c = (src, dst)" by fastforce
  note st = get_peers_states [OF sd]
  define flags where "flags = TCP_FLAGS (tcp_ctl l4)"
  define x where "x = tcp_prepare flags l4 src dst"
  define y where "y = tcp_update_states flags (tcp_synchronize x)"
  define z where "z = tcp_reset_states flags (tcp_fin_state flags (tcp_synchronize x))"
  have x: "pr_state src \<le> pr_state (x_src x)" "pr_state dst \<le> pr_state (x_dst x)"
    by (simp_all add: x_def prepare_states)
  have y: "forward (tcp_synchronize x) y" by (simp add: y_def states_forward)
  have z: "forward (tcp_synchronize x) z"
    unfolding z_def using fin_forward reset_forward by (rule forward_trans)
  have xy: "pr_state src \<le> pr_state (x_src y)" "pr_state dst \<le> pr_state (x_dst y)"
    "pr_state src \<le> pr_state (x_src z)" "pr_state dst \<le> pr_state (x_dst z)"
    using x y z by (auto simp: forward_def)
  have c': "c' = snd (fst (tcp_conn_update l4 reply now (ct, c)))" and
    r: "res = snd (tcp_conn_update l4 reply now (ct, c))" using assms by simp_all
  show ?thesis unfolding c' r tcp_conn_update_def
    by (simp add: sd flags_def [symmetric] x_def [symmetric] y_def [symmetric] z_def [symmetric]
      Let_def st x xy)
qed

subsection \<open>Segments for the examples\<close>

text \<open>A TCP header without options.\<close>

definition segment :: "u32 \<Rightarrow> u32 \<Rightarrow> u8 \<Rightarrow> u16 \<Rightarrow> u8 list" where
  "segment sq ak flags win = [0, 1, 0, 2] @ be_put 4 (unat sq) @ be_put 4 (unat ak) @ [0x50, flags]
     @ be_put 2 (unat win) @ [0, 0, 0, 0]"

lemma segment_fields:
  "tcp_seq (segment sq ak flags win) = sq" "tcp_ack (segment sq ak flags win) = ak"
  "tcp_ctl (segment sq ak flags win) = word_of_nat (0x50 * 256 + unat flags)"
  "tcp_winsz (segment sq ak flags win) = win" "length (segment sq ak flags win) = 20"
  by (simp_all add: segment_def tcp_seq_def tcp_ack_def tcp_ctl_def tcp_winsz_def be_field_def
    be_get_put_word wire) (simp_all add: be_get_def)

definition empty_ct :: conntrack where
  "empty_ct = \<lparr>ct_timeout_policies = [], ct_exp_lists = (\<lambda>tm. []), ct_tcp_seq_chk = True\<rparr>"

lemma segment_syn:
  "TCP_FLAGS (tcp_ctl (segment sq ak 2 win)) = TCP_SYN" "TCP_OFFSET (tcp_ctl (segment sq ak 2 win)) = 5"
  by (simp_all add: segment_fields TCP_FLAGS_def TCP_OFFSET_def TCP_SYN_def)

theorem tcp_states_progress_witness:
  "\<exists>ct' c' res. tcp_conn_update (segment 7 0 2 100) False 0
      (tcp_new_conn 1 (segment 7 0 2 100) 0 0 empty_ct) = ((ct', c'), res)
    \<and> (res \<noteq> CT_UPDATE_NEW \<longrightarrow> pr_state (tc_peer0 (snd (tcp_new_conn 1 (segment 7 0 2 100) 0 0 empty_ct)))
        \<le> pr_state (tc_peer0 c'))"
proof -
  obtain ct c where n: "tcp_new_conn 1 (segment 7 0 2 100) 0 0 empty_ct = (ct, c)" by fastforce
  obtain ct' c' res where u: "tcp_conn_update (segment 7 0 2 100) False 0 (ct, c) = ((ct', c'), res)"
    by (metis prod.collapse)
  show ?thesis using tcp_states_progress [OF u] u unfolding n by auto
qed

subsection \<open>The handshake\<close>

lemma sint_small:
  assumes "unat (w :: u32) < 2 ^ 31"
  shows "sint w = int (unat w)"
proof -
  have u: "uint w = int (unat w)" by simp
  have "int (unat w) < int (2 ^ 31)" using assms by (simp only: of_nat_less_iff)
  then have "uint w < 2 ^ 31" unfolding u by simp
  moreover have "0 \<le> uint w" by simp
  ultimately have "signed_take_bit 31 (uint w) = uint w"
    by (intro signed_take_bit_int_eq_self) linarith+
  then show ?thesis by (simp add: sint_uint)
qed

lemma unat_u16: "unat (w :: u16) < 65536"
  by (rule order_less_le_trans [OF unsigned_less]) simp

lemma unat_win: "unat (win_shl w 0) = unat w"
  using unat_u16 [of w] by (simp add: win_shl_def unsigned_ucast_eq take_bit_nat_eq_self)

lemma sint_win: "sint (win_shl w 0) = int (unat w)"
  using unat_u16 [of w] by (subst sint_small) (simp_all add: unat_win)

lemma sint_win_max: "0 \<le> sint (max 1 (win_shl w 0))" "0 \<le> sint (max (win_shl w 0) 1)"
  by (simp_all add: max_def sint_win)

lemma has_flags [simp]:
  "has TCP_SYN TCP_SYN" "\<not> has TCP_SYN TCP_ACK" "\<not> has TCP_SYN TCP_FIN" "\<not> has TCP_SYN TCP_RST"
  "has (TCP_SYN OR TCP_ACK) TCP_SYN" "has (TCP_SYN OR TCP_ACK) TCP_ACK"
  "\<not> has (TCP_SYN OR TCP_ACK) TCP_FIN" "\<not> has (TCP_SYN OR TCP_ACK) TCP_RST"
  "\<not> has TCP_ACK TCP_SYN" "has TCP_ACK TCP_ACK" "\<not> has TCP_ACK TCP_FIN" "\<not> has TCP_ACK TCP_RST"
  "\<not> tcp_invalid_flags TCP_SYN" "\<not> tcp_invalid_flags (TCP_SYN OR TCP_ACK)" "\<not> tcp_invalid_flags TCP_ACK"
  "TCP_SYN OR TCP_ACK \<noteq> TCP_SYN" "TCP_ACK \<noteq> TCP_SYN" "TCP_ACK AND (TCP_SYN OR TCP_ACK) \<noteq> TCP_SYN"
  "TCP_ACK AND (TCP_ACK OR TCP_RST) \<noteq> TCP_ACK OR TCP_RST" "TCP_ACK \<noteq> TCP_ACK OR TCP_RST"
  "TCP_ACK \<noteq> TCP_SYN"
  "(TCP_SYN OR TCP_ACK) AND (TCP_ACK OR TCP_RST) \<noteq> TCP_ACK OR TCP_RST"
  by (simp_all add: has_def tcp_invalid_flags_def TCP_SYN_def TCP_ACK_def TCP_FIN_def TCP_RST_def
    TCP_PSH_def TCP_URG_def)

text \<open>The peers after the SYN of the client, with its sequence number \<open>x\<close>, and after the SYN ACK
  of the server, with sequence number \<open>y\<close>.\<close>

lemma new_conn_peers:
  assumes "TCP_FLAGS (tcp_ctl l4) = TCP_SYN" and "tcp_payload_length l4 = 0" and "tcp_get_wscale l4 = 0"
    and c_def: "c = snd (tcp_new_conn a l4 now i ct)"
  shows "tc_peer0 c = \<lparr>pr_seqlo = tcp_seq l4, pr_seqhi = tcp_seq l4 + 2, pr_max_win = max (tcp_winsz l4) 1,
      pr_wscale = 0, pr_state = CT_DPIF_TCPS_SYN_SENT\<rparr>"
    and "tc_peer1 c = \<lparr>pr_seqlo = 0, pr_seqhi = 1, pr_max_win = 1, pr_wscale = 0,
      pr_state = CT_DPIF_TCPS_CLOSED\<rparr>"
  using assms(1-3)
  by (simp_all add: c_def tcp_new_conn_def Let_def conn_init_expiration_def zero_peer_def)

lemma no_scale [simp]: "\<not> has (0 :: u8) m"
  by (simp add: has_def)

lemma answer_prepared:
  assumes f: "flags = TCP_SYN OR TCP_ACK" and l4: "tcp_payload_length l4 = 0"
    and src: "src = \<lparr>pr_seqlo = 0, pr_seqhi = 1, pr_max_win = 1, pr_wscale = 0,
      pr_state = CT_DPIF_TCPS_CLOSED\<rparr>" and dst: "pr_wscale dst = 0"
  defines "x \<equiv> tcp_prepare flags l4 src dst"
  shows "x = \<lparr>x_src = \<lparr>pr_seqlo = tcp_seq l4,
        pr_seqhi = tcp_seq l4 + 1 + max 1 (win_shl (pr_max_win dst) 0),
        pr_max_win = (if 1 < tcp_winsz l4 then tcp_winsz l4 else 1), pr_wscale = 0, pr_state = CT_DPIF_TCPS_SYN_SENT\<rparr>,
      x_dst = dst, x_sws = 0, x_dws = 0, x_win = tcp_winsz l4, x_seq = tcp_seq l4, x_ack = tcp_ack l4,
      x_end = tcp_seq l4 + 1, x_check_ackskew = False\<rparr>"
  unfolding x_def tcp_prepare_def f
  by (simp add: Let_def src dst l4 tcp_scales_def tcp_first_packet_def tcp_answer_scale_def tcp_adjust_def
    tcp_segment_end_def tcps_order)

lemma answer_update:
  assumes f: "TCP_FLAGS (tcp_ctl l4) = TCP_SYN OR TCP_ACK" and l4: "tcp_payload_length l4 = 0"
    and c1: "tc_peer1 c = \<lparr>pr_seqlo = 0, pr_seqhi = 1, pr_max_win = 1, pr_wscale = 0,
      pr_state = CT_DPIF_TCPS_CLOSED\<rparr>"
    and c0: "tc_peer0 c = \<lparr>pr_seqlo = tcp_ack l4 - 1, pr_seqhi = tcp_ack l4 + 1, pr_max_win = w,
      pr_wscale = 0, pr_state = CT_DPIF_TCPS_SYN_SENT\<rparr>"
    and r_def: "r = tcp_conn_update l4 True now (ct, c)"
  shows "snd r = CT_UPDATE_VALID"
    and "pr_state (tc_peer0 (snd (fst r))) = CT_DPIF_TCPS_ESTABLISHED"
    and "pr_wscale (tc_peer0 (snd (fst r))) = 0" and "pr_seqlo (tc_peer0 (snd (fst r))) = tcp_ack l4 - 1"
    and "pr_seqhi (tc_peer0 (snd (fst r))) \<in> {tcp_ack l4 + 1, tcp_ack l4 + max (win_shl (tcp_winsz l4) 0) 1}"
    and "pr_state (tc_peer1 (snd (fst r))) = CT_DPIF_TCPS_SYN_SENT"
    and "pr_wscale (tc_peer1 (snd (fst r))) = 0" and "pr_seqlo (tc_peer1 (snd (fst r))) = tcp_seq l4 + 1"
proof -
  define x where "x = tcp_prepare (TCP_SYN OR TCP_ACK) l4 (tc_peer1 c) (tc_peer0 c)"
  have x: "x = \<lparr>x_src = \<lparr>pr_seqlo = tcp_seq l4, pr_seqhi = tcp_seq l4 + 1 + max 1 (win_shl w 0),
        pr_max_win = (if 1 < tcp_winsz l4 then tcp_winsz l4 else 1), pr_wscale = 0, pr_state = CT_DPIF_TCPS_SYN_SENT\<rparr>,
      x_dst = tc_peer0 c, x_sws = 0, x_dws = 0, x_win = tcp_winsz l4, x_seq = tcp_seq l4,
      x_ack = tcp_ack l4, x_end = tcp_seq l4 + 1, x_check_ackskew = False\<rparr>"
    unfolding x_def using answer_prepared [OF refl l4 c1, of "tc_peer0 c"] by (simp add: c0)
  have win: "tcp_in_window (TCP_SYN OR TCP_ACK) (tcp_seq l4) x"
    by (simp add: x tcp_in_window_def SEQ_GEQ_def sint_win_max sint_win c0 MAXACKWINDOW_def c_int_id)
  have r: "r = (conn_update_expiration (tcp_timeout
       (pr_state (x_src (tcp_update_states (TCP_SYN OR TCP_ACK) (tcp_synchronize x))))
       (pr_state (x_dst (tcp_update_states (TCP_SYN OR TCP_ACK) (tcp_synchronize x))))) now
     (ct, put_peers True (x_src (tcp_update_states (TCP_SYN OR TCP_ACK) (tcp_synchronize x)))
        (x_dst (tcp_update_states (TCP_SYN OR TCP_ACK) (tcp_synchronize x))) c), CT_UPDATE_VALID)"
    unfolding r_def tcp_conn_update_def
    by (simp add: get_peers_def f Let_def x_def [symmetric] win)
  show "snd r = CT_UPDATE_VALID" by (simp add: r)
  show "pr_state (tc_peer0 (snd (fst r))) = CT_DPIF_TCPS_ESTABLISHED"
    and "pr_wscale (tc_peer0 (snd (fst r))) = 0" and "pr_seqlo (tc_peer0 (snd (fst r))) = tcp_ack l4 - 1"
    and "pr_seqhi (tc_peer0 (snd (fst r))) \<in> {tcp_ack l4 + 1, tcp_ack l4 + max (win_shl (tcp_winsz l4) 0) 1}"
    and "pr_state (tc_peer1 (snd (fst r))) = CT_DPIF_TCPS_SYN_SENT"
    and "pr_wscale (tc_peer1 (snd (fst r))) = 0" and "pr_seqlo (tc_peer1 (snd (fst r))) = tcp_seq l4 + 1"
    by (simp_all add: r put_peers_def x c0 tcp_update_states_def tcp_synchronize_def tcp_fin_state_def
      tcp_reset_states_def Let_def SEQ_GT_def)
qed

lemma sint_one_plus: "0 \<le> sint (1 + max (win_shl w 0) 1)"
proof -
  have "unat (max (win_shl w 0) 1) < 65536"
    using unat_u16 [of w] by (simp add: max_def unat_win)
  then have "unat (1 + max (win_shl w 0) 1) < 2 ^ 31"
    by (subst unat_word_ariths(1)) simp
  then show ?thesis by (simp add: sint_small)
qed

lemma final_ack_update:
  assumes f: "TCP_FLAGS (tcp_ctl l4) = TCP_ACK" and l4: "tcp_payload_length l4 = 0"
    and c0: "pr_state (tc_peer0 c) = CT_DPIF_TCPS_ESTABLISHED" "pr_wscale (tc_peer0 c) = 0"
      "pr_seqlo (tc_peer0 c) = tcp_seq l4 - 1"
      "pr_seqhi (tc_peer0 c) \<in> {tcp_seq l4 + 1, tcp_seq l4 + max (win_shl w 0) 1}"
    and c1: "pr_state (tc_peer1 c) = CT_DPIF_TCPS_SYN_SENT" "pr_wscale (tc_peer1 c) = 0"
      "pr_seqlo (tc_peer1 c) = tcp_ack l4"
    and r_def: "r = tcp_conn_update l4 False now (ct, c)"
  shows "snd r = CT_UPDATE_VALID"
    and "pr_state (tc_peer0 (snd (fst r))) = CT_DPIF_TCPS_ESTABLISHED"
    and "pr_state (tc_peer1 (snd (fst r))) = CT_DPIF_TCPS_ESTABLISHED"
proof -
  define x where "x = tcp_prepare TCP_ACK l4 (tc_peer0 c) (tc_peer1 c)"
  have x: "x = \<lparr>x_src = tc_peer0 c, x_dst = tc_peer1 c, x_sws = 0, x_dws = 0, x_win = tcp_winsz l4,
      x_seq = pr_seqlo (tc_peer0 c), x_ack = tcp_ack l4, x_end = pr_seqlo (tc_peer0 c),
      x_check_ackskew = True\<rparr>"
    unfolding x_def tcp_prepare_def
    by (simp add: Let_def c0(1,2) c1(2) l4 tcp_scales_def tcp_adjust_def tcp_segment_end_def tcps_order)
  have "SEQ_GEQ (pr_seqhi (tc_peer0 c)) (pr_seqlo (tc_peer0 c))"
    using c0(4) sint_one_plus [of w] unfolding SEQ_GEQ_def c0(3)
    by (auto simp: algebra_simps sint_small)
  then have win: "tcp_in_window TCP_ACK (tcp_seq l4) x"
    by (simp add: x tcp_in_window_def SEQ_GEQ_def sint_win c1(3) MAXACKWINDOW_def c_int_id)
  have r: "r = (conn_update_expiration (tcp_timeout
       (pr_state (x_src (tcp_update_states TCP_ACK (tcp_synchronize x))))
       (pr_state (x_dst (tcp_update_states TCP_ACK (tcp_synchronize x))))) now
     (ct, put_peers False (x_src (tcp_update_states TCP_ACK (tcp_synchronize x)))
        (x_dst (tcp_update_states TCP_ACK (tcp_synchronize x))) c), CT_UPDATE_VALID)"
    unfolding r_def tcp_conn_update_def
    by (simp add: get_peers_def f Let_def x_def [symmetric] win)
  show "snd r = CT_UPDATE_VALID" by (simp add: r)
  show "pr_state (tc_peer0 (snd (fst r))) = CT_DPIF_TCPS_ESTABLISHED"
    and "pr_state (tc_peer1 (snd (fst r))) = CT_DPIF_TCPS_ESTABLISHED"
    by (simp_all add: r x c0(1) c1(1) tcp_update_states_def tcp_fin_state_def tcp_reset_states_def
      Let_def)
qed

text \<open>C34: The three-way handshake establishes a connection, for every pair of initial sequence
  numbers (also those that wrap around) and every window: after the SYN creates it and the SYN
  ACK and the ACK that match it are given to the tracker, both are accepted and both ends are
  established. The segments carry no data and no window scale option.\<close>

theorem tcp_handshake_establishes:
  assumes syn: "TCP_FLAGS (tcp_ctl syn) = TCP_SYN" "tcp_payload_length syn = 0" "tcp_get_wscale syn = 0"
    and synack: "TCP_FLAGS (tcp_ctl synack) = TCP_SYN OR TCP_ACK" "tcp_payload_length synack = 0"
      "tcp_ack synack = tcp_seq syn + 1"
    and ack: "TCP_FLAGS (tcp_ctl ack) = TCP_ACK" "tcp_payload_length ack = 0"
      "tcp_seq ack = tcp_seq syn + 1" "tcp_ack ack = tcp_seq synack + 1"
  shows "let s1 = tcp_new_conn a syn t1 i ct;
      (s2, r2) = tcp_conn_update synack True t2 s1;
      (s3, r3) = tcp_conn_update ack False t3 s2
    in r2 = CT_UPDATE_VALID \<and> r3 = CT_UPDATE_VALID
      \<and> pr_state (tc_peer0 (snd s3)) = CT_DPIF_TCPS_ESTABLISHED
      \<and> pr_state (tc_peer1 (snd s3)) = CT_DPIF_TCPS_ESTABLISHED"
proof -
  obtain ct1 c1 where s1: "tcp_new_conn a syn t1 i ct = (ct1, c1)" by fastforce
  define q where "q = tcp_conn_update synack True t2 (ct1, c1)"
  obtain ct2 c2 r2 where s2: "q = ((ct2, c2), r2)" by (metis prod.collapse)
  note p = new_conn_peers [OF syn refl, of a t1 i ct, unfolded s1 snd_conv]
  have p0: "tc_peer0 c1 = \<lparr>pr_seqlo = tcp_ack synack - 1, pr_seqhi = tcp_ack synack + 1,
      pr_max_win = max (tcp_winsz syn) 1, pr_wscale = 0, pr_state = CT_DPIF_TCPS_SYN_SENT\<rparr>"
    by (simp add: p(1) synack(3))
  note u = answer_update [OF synack(1,2) p(2) p0 q_def, unfolded s2 snd_conv fst_conv]
  have e: "tcp_seq ack = tcp_ack synack" by (simp add: synack(3) ack(3))
  define v where "v = tcp_conn_update ack False t3 (ct2, c2)"
  obtain ct3 c3 r3 where s3: "v = ((ct3, c3), r3)" by (metis prod.collapse)
  have w: "snd v = CT_UPDATE_VALID \<and> pr_state (tc_peer0 (snd (fst v))) = CT_DPIF_TCPS_ESTABLISHED
      \<and> pr_state (tc_peer1 (snd (fst v))) = CT_DPIF_TCPS_ESTABLISHED"
    using final_ack_update [OF ack(1,2) u(2,3), of "tcp_winsz synack" v t3 ct2] u
    by (simp add: e ack(4) v_def)
  show ?thesis using u(1) w unfolding s1 Let_def q_def [symmetric] s2 prod.case v_def [symmetric] s3
    by simp
qed

theorem tcp_handshake_establishes_witness:
  "pr_state (tc_peer1 (snd (fst (tcp_conn_update (segment 8 0 0x10 100) False 2
     (fst (tcp_conn_update (segment 0xffffffff 8 0x12 50) True 1
       (tcp_new_conn 1 (segment 7 0 2 100) 0 0 empty_ct))))))) = CT_DPIF_TCPS_ESTABLISHED"
proof -
  have off: "TCP_OFFSET (tcp_ctl (segment sq ak f w)) = 5" if "f \<in> {2, 0x12, 0x10}" for sq ak f w
    using that by (auto simp: segment_fields TCP_OFFSET_def)
  have l: "tcp_payload_length (segment sq ak f w) = 0" if "f \<in> {2, 0x12, 0x10}" for sq ak f w
    using off [OF that] by (simp add: tcp_payload_length_def dp_packet_get_tcp_payload_def segment_fields(5)
      TCP_HEADER_LEN_def)
  have "tcp_get_wscale (segment 7 0 2 100) = 0"
    by (simp add: tcp_get_wscale_def off wscale_options.simps)
  with tcp_handshake_establishes [of "segment 7 0 2 100" "segment 0xffffffff 8 0x12 50"
      "segment 8 0 0x10 100" 1 0 0 empty_ct 1 2] l
  show ?thesis
    by (simp add: segment_fields TCP_FLAGS_def TCP_SYN_def TCP_ACK_def Let_def split: prod.splits)
qed

subsection \<open>The option parser\<close>

text \<open>The parser depends only on the bytes before the end of the header, as far as its count of
  option bytes goes.\<close>

lemma wscale_options_local:
  assumes "\<forall>k < n. opt_byte a k = opt_byte b k" and "int i + len \<le> int n"
  shows "wscale_options a i len ws = wscale_options b i len ws"
  using assms
proof (induction a i len ws rule: wscale_options.induct)
  case (1 a i len ws)
  show ?case
  proof (cases "3 \<le> len")
    case True
    with 1(4) have "i + 2 < n" by linarith
    then have e: "opt_byte a i = opt_byte b i" "opt_byte a (i + 1) = opt_byte b (i + 1)"
        "opt_byte a (i + 2) = opt_byte b (i + 2)" using 1(3) by simp_all
    define optlen where "optlen = (if opt_byte b (i + 1) < 2 then 2 else opt_byte b (i + 1))"
    define w where "w = (if opt_byte b i = TCPOPT_WINDOW
        then min (opt_byte b (i + 2)) TCP_MAX_WSCALE OR CT_WSCALE_FLAG else ws)"
    have nop: "wscale_options a (i + 1) (len - 1) ws = wscale_options b (i + 1) (len - 1) ws"
      if "opt_byte b i \<noteq> TCPOPT_EOL" "opt_byte b i = TCPOPT_NOP"
      using 1(1) True that 1(3,4) by (simp add: e)
    have other: "wscale_options a (i + unat optlen) (len - int (unat optlen)) w
        = wscale_options b (i + unat optlen) (len - int (unat optlen)) w"
      if "opt_byte b i \<noteq> TCPOPT_EOL" "opt_byte b i \<noteq> TCPOPT_NOP"
      using 1(2) [OF True, unfolded e, OF that, of w optlen] 1(3,4)
      by (simp add: w_def optlen_def)
    show ?thesis
      unfolding wscale_options.simps [of a i] wscale_options.simps [of b i] e Let_def
        optlen_def [symmetric] w_def [symmetric] using nop other by simp
  qed (simp add: wscale_options.simps)
qed

lemma wscale_options_range:
  "ws = 0 \<or> (\<exists>n \<le> 14. ws = n OR CT_WSCALE_FLAG) \<Longrightarrow>
    wscale_options l4 i len ws = 0 \<or> (\<exists>n \<le> 14. wscale_options l4 i len ws = n OR CT_WSCALE_FLAG)"
proof (induction l4 i len ws rule: wscale_options.induct)
  case (1 l4 i len ws)
  define w where "w = (if opt_byte l4 i = TCPOPT_WINDOW
      then min (opt_byte l4 (i + 2)) TCP_MAX_WSCALE OR CT_WSCALE_FLAG else ws)"
  have w: "w = 0 \<or> (\<exists>n \<le> 14. w = n OR CT_WSCALE_FLAG)"
    using 1(3) unfolding w_def TCP_MAX_WSCALE_def by (auto intro!: exI [of _ "min (opt_byte l4 (i + 2)) 14"])
  show ?case
  proof (cases "3 \<le> len \<and> opt_byte l4 i \<noteq> TCPOPT_EOL")
    case True
    then have len: "3 \<le> len" and eol: "opt_byte l4 i \<noteq> TCPOPT_EOL" by simp_all
    note other = 1(2) [OF len eol _ w_def refl w]
    show ?thesis
      using 1(1) [OF len eol] 1(3) other len eol
      unfolding wscale_options.simps [of l4 i len] Let_def w_def [symmetric] by simp
  next
    case False
    then show ?thesis using 1(3) unfolding wscale_options.simps [of l4 i len] by auto
  qed
qed

lemma opt_byte_append: "i < length a \<Longrightarrow> opt_byte (a @ b) i = opt_byte a i"
  by (simp add: opt_byte_def nth_append)

lemma ctl_append: "14 \<le> length a \<Longrightarrow> tcp_ctl (a @ b) = tcp_ctl a"
  by (simp add: tcp_ctl_def be_field_def)

text \<open>The values of a window scale: none, unknown, or the flag with a shift of at most 14.\<close>

definition wscale_typed :: "u8 \<Rightarrow> bool" where
  "wscale_typed w \<longleftrightarrow> w = 0 \<or> w = CT_WSCALE_UNKNOWN \<or> (\<exists>n \<le> 14. w = n OR CT_WSCALE_FLAG)"

lemma get_wscale_range: "tcp_get_wscale l4 = 0 \<or> (\<exists>n \<le> 14. tcp_get_wscale l4 = n OR CT_WSCALE_FLAG)"
  unfolding tcp_get_wscale_def by (rule wscale_options_range) simp

text \<open>C38: The window scale parser reads nothing behind the TCP header: whatever follows the
  header in memory, the result is the same, for every option list, also a malformed one. The
  result is 0 or the flag with a shift of at most 14.\<close>

theorem tcp_get_wscale_stays_in_header:
  assumes "TCP_HEADER_LEN \<le> length hdr" and "unat (TCP_OFFSET (tcp_ctl hdr)) * 4 \<le> length hdr"
  shows "tcp_get_wscale (hdr @ rest) = tcp_get_wscale hdr
    \<and> (tcp_get_wscale hdr = 0 \<or> (\<exists>n \<le> 14. tcp_get_wscale hdr = n OR CT_WSCALE_FLAG))"
proof -
  have ctl: "tcp_ctl (hdr @ rest) = tcp_ctl hdr"
    using assms(1) by (intro ctl_append) (simp add: TCP_HEADER_LEN_def)
  have "\<forall>k < length hdr. opt_byte (hdr @ rest) k = opt_byte hdr k" by (simp add: opt_byte_append)
  moreover have "int TCP_HEADER_LEN + (int (unat (TCP_OFFSET (tcp_ctl hdr))) * 4 - 20) \<le> int (length hdr)"
    unfolding TCP_HEADER_LEN_def using assms(2) by linarith
  ultimately have "tcp_get_wscale (hdr @ rest) = tcp_get_wscale hdr"
    unfolding tcp_get_wscale_def ctl by (rule wscale_options_local)
  with get_wscale_range [of hdr] show ?thesis by simp
qed

theorem tcp_get_wscale_stays_in_header_witness:
  "tcp_get_wscale ([0,0, 0,0, 0,0,0,0, 0,0,0,0, 0x60,2, 0,0, 0,0, 0,0, 1,3,3,7] @ [3,3,9])
     = tcp_get_wscale [0,0, 0,0, 0,0,0,0, 0,0,0,0, 0x60,2, 0,0, 0,0, 0,0, 1,3,3,7]"
  using tcp_get_wscale_stays_in_header [of "[0,0, 0,0, 0,0,0,0, 0,0,0,0, 0x60,2, 0,0, 0,0, 0,0, 1,3,3,7]" "[3,3,9]"]
  by (simp add: TCP_HEADER_LEN_def TCP_OFFSET_def tcp_ctl_def be_field_def be_get_def)

subsection \<open>The type of the window scales\<close>

lemma wscale_typed_mask: "wscale_typed w \<Longrightarrow> unat (w AND CT_WSCALE_MASK) \<le> 14"
proof -
  have "unat ((n OR CT_WSCALE_FLAG) AND CT_WSCALE_MASK) \<le> 14" if "n \<le> 14" for n :: u8
  proof -
    have "(n OR CT_WSCALE_FLAG) AND CT_WSCALE_MASK = n AND CT_WSCALE_MASK"
      by (simp add: CT_WSCALE_FLAG_def CT_WSCALE_MASK_def bit.conj_disj_distrib2)
    also have "\<dots> \<le> 14" using word_and_le2 [of n CT_WSCALE_MASK] that by (rule order_trans)
    finally show ?thesis by (simp add: word_le_nat_alt)
  qed
  then show "wscale_typed w \<Longrightarrow> ?thesis"
    by (auto simp: wscale_typed_def CT_WSCALE_UNKNOWN_def CT_WSCALE_MASK_def)
qed

lemma get_wscale_typed [simp]: "wscale_typed (tcp_get_wscale l4)"
  using get_wscale_range [of l4] by (auto simp: wscale_typed_def)

definition conn_typed :: "conn_tcp \<Rightarrow> bool" where
  "conn_typed c \<longleftrightarrow> wscale_typed (pr_wscale (tc_peer0 c)) \<and> wscale_typed (pr_wscale (tc_peer1 c))"

lemma wscale_typed_values [simp]:
  "wscale_typed 0" "wscale_typed CT_WSCALE_UNKNOWN"
  by (simp_all add: wscale_typed_def)

lemma adjust_scales [simp]:
  "x_sws (tcp_adjust flags x) = x_sws x" "x_dws (tcp_adjust flags x) = x_dws x"
  by (simp_all add: tcp_adjust_def Let_def)

lemma synchronize_wscale [simp]:
  "pr_wscale (x_src (tcp_synchronize x)) = pr_wscale (x_src x)"
  "pr_wscale (x_dst (tcp_synchronize x)) = pr_wscale (x_dst x)"
  by (simp_all add: tcp_synchronize_def Let_def)

lemma state_changes_wscale [simp]:
  "pr_wscale (x_src (tcp_fin_state flags x)) = pr_wscale (x_src x)"
  "pr_wscale (x_dst (tcp_fin_state flags x)) = pr_wscale (x_dst x)"
  "pr_wscale (x_src (tcp_reset_states flags x)) = pr_wscale (x_src x)"
  "pr_wscale (x_dst (tcp_reset_states flags x)) = pr_wscale (x_dst x)"
  "pr_wscale (x_src (tcp_update_states flags x)) = pr_wscale (x_src x)"
  "pr_wscale (x_dst (tcp_update_states flags x)) = pr_wscale (x_dst x)"
  by (simp_all add: tcp_fin_state_def tcp_reset_states_def tcp_update_states_def Let_def)

definition vars_typed :: "tcp_vars \<Rightarrow> bool" where
  "vars_typed x \<longleftrightarrow> wscale_typed (pr_wscale (x_src x)) \<and> wscale_typed (pr_wscale (x_dst x))
     \<and> unat (x_sws x) \<le> 14 \<and> unat (x_dws x) \<le> 14"

lemma answer_scale_typed: "vars_typed x \<Longrightarrow> vars_typed (tcp_answer_scale flags l4 x)"
  by (simp add: vars_typed_def tcp_answer_scale_def Let_def wscale_typed_mask)

lemma first_packet_typed: "vars_typed x \<Longrightarrow> vars_typed (tcp_first_packet flags l4 x)"
  using answer_scale_typed [of x flags l4] by (simp add: vars_typed_def tcp_first_packet_def Let_def)

lemma scales_typed:
  "wscale_typed (pr_wscale src) \<Longrightarrow> wscale_typed (pr_wscale dst) \<Longrightarrow>
    unat (fst (tcp_scales flags src dst)) \<le> 14 \<and> unat (snd (tcp_scales flags src dst)) \<le> 14"
  by (simp add: tcp_scales_def wscale_typed_mask TCP_MAX_WSCALE_def)

lemma prepare_typed:
  assumes "wscale_typed (pr_wscale src)" "wscale_typed (pr_wscale dst)"
  shows "vars_typed (tcp_prepare flags l4 src dst)"
proof -
  define x where "x = \<lparr>x_src = src, x_dst = dst, x_sws = fst (tcp_scales flags src dst),
      x_dws = snd (tcp_scales flags src dst), x_win = tcp_winsz l4, x_seq = tcp_seq l4,
      x_ack = tcp_ack l4, x_end = tcp_segment_end flags l4, x_check_ackskew = True\<rparr>"
  have "vars_typed x" using scales_typed [OF assms, of flags] assms by (simp add: x_def vars_typed_def)
  moreover have "vars_typed (tcp_adjust flags y) = vars_typed y" for y by (simp add: vars_typed_def)
  ultimately show ?thesis using first_packet_typed [of x flags l4]
    unfolding tcp_prepare_def split_beta Let_def x_def by simp
qed

lemma get_peers_typed: "conn_typed c \<Longrightarrow> get_peers reply c = (src, dst) \<Longrightarrow>
    wscale_typed (pr_wscale src) \<and> wscale_typed (pr_wscale dst)"
  by (auto simp: conn_typed_def get_peers_def split: if_splits)

lemma put_peers_typed [simp]:
  "conn_typed (put_peers reply src dst c) \<longleftrightarrow>
    wscale_typed (pr_wscale src) \<and> wscale_typed (pr_wscale dst)"
  by (auto simp: conn_typed_def put_peers_def)

lemma update_expiration_typed [simp]:
  "conn_typed (snd (conn_update_expiration tm now (ct, c))) = conn_typed c"
  by (simp add: conn_typed_def)

lemma conn_update_typed:
  assumes "conn_typed c"
  shows "conn_typed (snd (fst (tcp_conn_update l4 reply now (ct, c))))"
proof -
  obtain src dst where sd: "get_peers reply c = (src, dst)" by fastforce
  note t = get_peers_typed [OF assms sd]
  note x = prepare_typed [of src dst "TCP_FLAGS (tcp_ctl l4)" l4, unfolded vars_typed_def]
  show ?thesis using assms t x by (simp add: tcp_conn_update_def sd Let_def)
qed

lemma new_conn_typed: "conn_typed (snd (tcp_new_conn a l4 now i ct))"
  by (simp add: conn_typed_def tcp_new_conn_def conn_init_expiration_def Let_def zero_peer_def)

text \<open>The packets of a connection, in the order in which the tracker gets them.\<close>

definition ct_packets :: "(u8 list \<Rightarrow> bool \<Rightarrow> int \<Rightarrow> conntrack \<times> 'c \<Rightarrow> (conntrack \<times> 'c) \<times> ct_update_res)
    \<Rightarrow> (u8 list \<times> bool \<times> int) list \<Rightarrow> conntrack \<times> 'c \<Rightarrow> conntrack \<times> 'c" where
  "ct_packets conn_update = fold (\<lambda>(l4, reply, now) s. fst (conn_update l4 reply now s))"

lemma packets_typed:
  "conn_typed (snd s) \<Longrightarrow> conn_typed (snd (ct_packets tcp_conn_update ps s))"
proof (induction ps arbitrary: s)
  case (Cons p ps)
  obtain l4 reply now ct c where "p = (l4, reply, now)" "s = (ct, c)" by (metis prod.exhaust)
  with Cons conn_update_typed [of c l4 reply now ct] show ?case by (simp add: ct_packets_def)
qed (simp add: ct_packets_def)

lemma two_power_le_14: "k \<le> 14 \<Longrightarrow> (2::int) ^ k \<le> 16384"
  using power_increasing [of k 14 "2::int"] by simp

lemma win_shl_exact:
  assumes "unat k \<le> 14" shows "uint (win_shl w k) = uint w * 2 ^ unat k" "uint w * 2 ^ unat k < 2 ^ 31"
proof -
  have w: "uint w < 65536" using uint_lt2p [of w] by simp
  have "uint w * 2 ^ unat k \<le> 65535 * 16384"
    using w two_power_le_14 [OF assms] by (intro mult_mono) simp_all
  then show b: "uint w * 2 ^ unat k < 2 ^ 31" by simp
  have "uint (win_shl w k) = (uint w * 2 ^ unat k) mod 2 ^ 32"
    unfolding win_shl_def unsigned_push_bit_eq by (simp add: take_bit_eq_mod push_bit_eq_mult uint_up_ucast is_up)
  with b show "uint (win_shl w k) = uint w * 2 ^ unat k" by simp
qed

text \<open>C36: The window scales are well typed: after a connection is created and any packets are
  given to the tracker, the scale of each end is none, unknown, or a flag with a shift of at
  most 14. So, whatever the next packet is, the shifts of its window test stay inside the C type
  \<open>int\<close>: the bound \<open>MAXACKWINDOW << sws\<close> and the scaled windows are the exact products.\<close>

theorem tcp_window_shifts_typed:
  "let c = snd (ct_packets tcp_conn_update ps (tcp_new_conn a l4 now i ct));
       (src, dst) = get_peers reply c;
       x = tcp_prepare flags pkt src dst
   in conn_typed c
     \<and> c_int (MAXACKWINDOW * 2 ^ unat (x_sws x)) = MAXACKWINDOW * 2 ^ unat (x_sws x)
     \<and> uint (win_shl w (x_dws x)) = uint w * 2 ^ unat (x_dws x)
     \<and> uint (win_shl w (x_sws x)) = uint w * 2 ^ unat (x_sws x)
     \<and> uint w * 2 ^ unat (x_dws x) < 2 ^ 31 \<and> uint w * 2 ^ unat (x_sws x) < 2 ^ 31"
proof -
  define c where "c = snd (ct_packets tcp_conn_update ps (tcp_new_conn a l4 now i ct))"
  have c: "conn_typed c" unfolding c_def by (rule packets_typed) (rule new_conn_typed)
  obtain src dst where sd: "get_peers reply c = (src, dst)" by fastforce
  define x where "x = tcp_prepare flags pkt src dst"
  have x: "unat (x_sws x) \<le> 14" "unat (x_dws x) \<le> 14"
    using get_peers_typed [OF c sd] prepare_typed [of src dst flags pkt] by (simp_all add: x_def vars_typed_def)
  have "MAXACKWINDOW * 2 ^ unat (x_sws x) \<le> MAXACKWINDOW * 16384"
    using two_power_le_14 [OF x(1)] by (simp add: MAXACKWINDOW_def)
  moreover have "0 \<le> MAXACKWINDOW * 2 ^ unat (x_sws x)" by (simp add: MAXACKWINDOW_def)
  moreover have "MAXACKWINDOW * 16384 < 2147483648" by (simp add: MAXACKWINDOW_def)
  ultimately have "c_int (MAXACKWINDOW * 2 ^ unat (x_sws x)) = MAXACKWINDOW * 2 ^ unat (x_sws x)"
    by (intro c_int_id) linarith+
  with c win_shl_exact [OF x(1)] win_shl_exact [OF x(2)] show ?thesis
    unfolding Let_def c_def [symmetric] sd prod.case x_def [symmetric] by simp
qed

subsection \<open>The expiration lists\<close>

definition ct_timeouts :: "ct_timeout list" where
  "ct_timeouts = [CT_TM_TCP_FIRST_PACKET, CT_TM_TCP_OPENING, CT_TM_TCP_ESTABLISHED,
     CT_TM_TCP_CLOSING, CT_TM_TCP_FIN_WAIT, CT_TM_TCP_CLOSED, CT_TM_OTHER_FIRST,
     CT_TM_OTHER_MULTIPLE, CT_TM_OTHER_BIDIR, CT_TM_ICMP_FIRST, CT_TM_ICMP_REPLY]"

text \<open>How often a connection is linked in the expiration lists.\<close>

definition exp_links :: "conntrack \<Rightarrow> nat \<Rightarrow> nat" where
  "exp_links ct a = sum_list (map (\<lambda>tm. count_list (ct_exp_lists ct tm) a) ct_timeouts)"

lemma count_list_filter_neq: "count_list (filter (\<lambda>b. b \<noteq> a) xs) x = (if x = a then 0 else count_list xs x)"
  by (induction xs) auto

lemma exp_links_remove: "exp_links (exp_list_remove a ct) b = (if b = a then 0 else exp_links ct b)"
  by (simp add: exp_links_def exp_list_remove_def ct_timeouts_def count_list_filter_neq)

lemma exp_links_push_back:
  "exp_links (exp_list_push_back tm a ct) b = exp_links ct b + (if a = b then 1 else 0)"
  by (cases tm) (simp_all add: exp_links_def exp_list_push_back_def ct_timeouts_def)

text \<open>What an update keeps: the connection's address, policy and cleaned flag, one link of the
  connection, and every link of the others.\<close>

definition keeps_links :: "conntrack \<times> 'a conn_scheme \<Rightarrow> conntrack \<times> 'a conn_scheme \<Rightarrow> bool" where
  "keeps_links s s' \<longleftrightarrow> cn_addr (snd s') = cn_addr (snd s) \<and> cn_cleaned (snd s') = cn_cleaned (snd s)
     \<and> cn_tp_id (snd s') = cn_tp_id (snd s)
     \<and> (exp_links (fst s) (cn_addr (snd s)) = 1 \<longrightarrow> exp_links (fst s') (cn_addr (snd s)) = 1)
     \<and> (\<forall>b. b \<noteq> cn_addr (snd s) \<longrightarrow> exp_links (fst s') b = exp_links (fst s) b)"

lemma update_expiration_links: "keeps_links (ct, c) (conn_update_expiration tm now (ct, c))"
  by (auto simp: keeps_links_def conn_update_expiration_def Let_def exp_links_remove exp_links_push_back)

text \<open>Several connections of one tracker: an event creates a connection at a free address or
  gives a packet to an existing one.\<close>

datatype ct_event = NewConn nat "u8 list" int u32 | Packet nat "u8 list" bool int

fun ct_event_step :: "(nat \<Rightarrow> u8 list \<Rightarrow> int \<Rightarrow> u32 \<Rightarrow> conntrack \<Rightarrow> conntrack \<times> 'c)
    \<Rightarrow> (u8 list \<Rightarrow> bool \<Rightarrow> int \<Rightarrow> conntrack \<times> 'c \<Rightarrow> (conntrack \<times> 'c) \<times> ct_update_res)
    \<Rightarrow> ct_event \<Rightarrow> conntrack \<times> (nat \<rightharpoonup> 'c) \<Rightarrow> conntrack \<times> (nat \<rightharpoonup> 'c)" where
  "ct_event_step new_conn conn_update (NewConn a l4 now i) (ct, conns) =
     (case conns a of
        None \<Rightarrow> let (ct', c) = new_conn a l4 now i ct in (ct', conns(a \<mapsto> c))
      | Some _ \<Rightarrow> (ct, conns))"
| "ct_event_step new_conn conn_update (Packet a l4 reply now) (ct, conns) =
     (case conns a of
        None \<Rightarrow> (ct, conns)
      | Some c \<Rightarrow> let (ct', c') = fst (conn_update l4 reply now (ct, c)) in (ct', conns(a \<mapsto> c')))"

definition linked_once :: "conntrack \<times> (nat \<rightharpoonup> 'a conn_scheme) \<Rightarrow> bool" where
  "linked_once s \<longleftrightarrow> (\<forall>a. case snd s a of
     None \<Rightarrow> exp_links (fst s) a = 0
   | Some c \<Rightarrow> cn_addr c = a \<and> exp_links (fst s) a = 1)"

lemma linked_once_upd:
  assumes "linked_once (ct, conns)" and "cn_addr c = a" and "exp_links ct' a = 1"
    and "\<And>b. b \<noteq> a \<Longrightarrow> exp_links ct' b = exp_links ct b"
  shows "linked_once (ct', conns(a \<mapsto> c))"
proof -
  have "case (conns(a \<mapsto> c)) b of None \<Rightarrow> exp_links ct' b = 0
    | Some c \<Rightarrow> cn_addr c = b \<and> exp_links ct' b = 1" for b
    using assms(1) [unfolded linked_once_def fst_conv snd_conv, THEN spec, of b] assms(2-4)
    by (cases "conns b"; cases "b = a") simp_all
  then show ?thesis unfolding linked_once_def fst_conv snd_conv by blast
qed

text \<open>The interface \<open>struct ct_l4_proto\<close> of a layer 4 tracker: how its operations treat the
  expiration lists, which they share with all other connections.\<close>

locale ct_l4_proto =
  fixes new_conn :: "nat \<Rightarrow> u8 list \<Rightarrow> int \<Rightarrow> u32 \<Rightarrow> conntrack \<Rightarrow> conntrack \<times> 'a conn_scheme"
    and conn_update :: "u8 list \<Rightarrow> bool \<Rightarrow> int \<Rightarrow> conntrack \<times> 'a conn_scheme
      \<Rightarrow> (conntrack \<times> 'a conn_scheme) \<times> ct_update_res"
  assumes new_links: "new_conn a l4 now i ct = (ct', c) \<Longrightarrow> cn_addr c = a
      \<and> exp_links ct' b = exp_links ct b + (if a = b then 1 else 0)"
    and update_links: "keeps_links (ct, c) (fst (conn_update l4 reply now (ct, c)))"
begin

lemma event_linked_once:
  assumes "linked_once s" shows "linked_once (ct_event_step new_conn conn_update e s)"
proof (cases e)
  case (NewConn a l4 now i)
  obtain ct conns ct' c where s: "s = (ct, conns)" and n: "new_conn a l4 now i ct = (ct', c)"
    by (metis prod.exhaust)
  have "linked_once (ct', conns(a \<mapsto> c))" if "conns a = None"
  proof (rule linked_once_upd)
    have "exp_links ct a = 0" using assms [unfolded s linked_once_def, THEN spec, of a] that by simp
    then show "exp_links ct' a = 1" using new_links [OF n, of a] by simp
  qed (use assms s new_links [OF n] in auto)
  then show ?thesis using assms by (auto simp: NewConn s n split: option.split)
next
  case (Packet a l4 reply now)
  obtain ct conns where s: "s = (ct, conns)" by fastforce
  show ?thesis
  proof (cases "conns a")
    case (Some c)
    obtain ct' c' where u: "fst (conn_update l4 reply now (ct, c)) = (ct', c')" by fastforce
    have a: "cn_addr c = a" "exp_links ct a = 1"
      using assms [unfolded s linked_once_def, THEN spec, of a] Some by simp_all
    have k: "cn_addr c' = a" "exp_links ct' a = 1" "\<And>b. b \<noteq> a \<Longrightarrow> exp_links ct' b = exp_links ct b"
      using update_links [of ct c l4 reply now] a by (simp_all add: u keeps_links_def)
    show ?thesis using linked_once_upd [OF assms [unfolded s] k] by (simp add: Packet s Some u)
  qed (use assms in \<open>simp add: Packet s\<close>)
qed

lemma events_linked_once:
  "linked_once s \<Longrightarrow> linked_once (fold (ct_event_step new_conn conn_update) es s)"
  by (induction es arbitrary: s) (simp_all add: event_linked_once)

end

lemma keeps_links_refl [simp]:
  "cn_addr c' = cn_addr c \<Longrightarrow> cn_cleaned c' = cn_cleaned c \<Longrightarrow> cn_tp_id c' = cn_tp_id c \<Longrightarrow>
    keeps_links (ct, c) (ct, c')"
  by (simp add: keeps_links_def)

lemma keeps_links_expiration:
  assumes "cn_addr c' = cn_addr c" "cn_cleaned c' = cn_cleaned c" "cn_tp_id c' = cn_tp_id c"
  shows "keeps_links (ct, c) (conn_update_expiration tm now (ct, c'))"
  using update_expiration_links [of ct c' tm now] by (simp add: keeps_links_def assms)

lemma put_peers_conn [simp]:
  "cn_addr (put_peers reply src dst c) = cn_addr c" "cn_cleaned (put_peers reply src dst c) = cn_cleaned c"
  "cn_tp_id (put_peers reply src dst c) = cn_tp_id c"
  by (simp_all add: put_peers_def)

lemma init_expiration_links:
  "exp_links (fst (conn_init_expiration tm now (ct, c))) b = exp_links ct b + (if cn_addr c = b then 1 else 0)"
  "cn_addr (snd (conn_init_expiration tm now (ct, c))) = cn_addr c"
  by (simp_all add: conn_init_expiration_def Let_def exp_links_push_back)

lemma eq_pairD: "p = (x, y) \<Longrightarrow> x = fst p \<and> y = snd p"
  by simp

interpretation tcp_l4: ct_l4_proto tcp_new_conn tcp_conn_update
proof
  fix a l4 now i ct ct' c b assume "tcp_new_conn a l4 now i ct = (ct', c)"
  then show "cn_addr c = a \<and> exp_links ct' b = exp_links ct b + (if a = b then 1 else 0)"
    by (auto dest!: eq_pairD simp: tcp_new_conn_def Let_def init_expiration_links split: prod.splits)
next
  fix ct c l4 reply now
  show "keeps_links (ct, c) (fst (tcp_conn_update l4 reply now (ct, c)))"
    by (simp add: tcp_conn_update_def Let_def keeps_links_expiration split: prod.splits)
qed

interpretation icmp_l4: ct_l4_proto icmp_new_conn icmp_conn_update
proof
  fix a l4 now i ct ct' c b assume "icmp_new_conn a l4 now i ct = (ct', c)"
  then show "cn_addr c = a \<and> exp_links ct' b = exp_links ct b + (if a = b then 1 else 0)"
    by (auto dest!: eq_pairD simp: icmp_new_conn_def init_expiration_links)
next
  fix ct c l4 reply now
  show "keeps_links (ct, c) (fst (icmp_conn_update l4 reply now (ct, c)))"
    by (simp add: icmp_conn_update_def Let_def keeps_links_expiration)
qed

interpretation other_l4: ct_l4_proto other_new_conn other_conn_update
proof
  fix a l4 now i ct ct' c b assume "other_new_conn a l4 now i ct = (ct', c)"
  then show "cn_addr c = a \<and> exp_links ct' b = exp_links ct b + (if a = b then 1 else 0)"
    by (auto dest!: eq_pairD simp: other_new_conn_def init_expiration_links)
next
  fix ct c l4 reply now
  show "keeps_links (ct, c) (fst (other_conn_update l4 reply now (ct, c)))"
    by (simp add: other_conn_update_def Let_def keeps_links_expiration)
qed

text \<open>C35: Every connection is linked in exactly one expiration list and no freed address is
  linked in any, whatever connections are created and packets tracked, in any interleaving,
  by each of the three trackers: no connection is lost to the cleaner and none is linked twice.\<close>

theorem ct_connections_linked_once:
  assumes "\<forall>tm. ct_exp_lists ct tm = []"
  shows "linked_once (fold (ct_event_step tcp_new_conn tcp_conn_update) es (ct, Map.empty))
    \<and> linked_once (fold (ct_event_step icmp_new_conn icmp_conn_update) es (ct, Map.empty))
    \<and> linked_once (fold (ct_event_step other_new_conn other_conn_update) es (ct, Map.empty))"
proof -
  show ?thesis
    by (intro conjI tcp_l4.events_linked_once icmp_l4.events_linked_once other_l4.events_linked_once)
      (use assms in \<open>simp_all add: linked_once_def exp_links_def ct_timeouts_def\<close>)
qed

theorem ct_connections_linked_once_witness:
  "linked_once (fold (ct_event_step other_new_conn other_conn_update)
     [NewConn 1 [] 0 0, NewConn 2 [] 5 0, Packet 1 [] True 9, Packet 2 [] False 12] (empty_ct, Map.empty))"
proof -
  have "\<forall>tm. ct_exp_lists empty_ct tm = []" by (simp add: empty_ct_def)
  from ct_connections_linked_once [OF this] show ?thesis by blast
qed

subsection \<open>Rejected packets\<close>

lemma put_get_peers: "get_peers reply c = (src, dst) \<Longrightarrow> put_peers reply src dst c = c"
  by (auto simp: get_peers_def put_peers_def split: if_splits)

lemma prepare_peers:
  "CT_DPIF_TCPS_SYN_SENT \<le> pr_state src \<Longrightarrow>
    x_src (tcp_prepare flags l4 src dst) = src \<and> x_dst (tcp_prepare flags l4 src dst) = dst"
  by (simp add: tcp_prepare_def Let_def split: prod.split)

lemma update_expiration_result: "fst (conn_update_expiration tm now s, r) = conn_update_expiration tm now s"
  by simp

text \<open>C37: A packet that the TCP tracker rejects changes neither the tracker nor the expiration
  of the connection, so it does not keep the connection alive; and once its sender has been
  seen before, it changes nothing of the connection.\<close>

theorem tcp_rejected_packet_harmless:
  assumes "tcp_conn_update l4 reply now (ct, c) = ((ct', c'), CT_UPDATE_INVALID)"
  shows "ct' = ct \<and> cn_expiration c' = cn_expiration c
    \<and> (CT_DPIF_TCPS_SYN_SENT \<le> pr_state (fst (get_peers reply c)) \<longrightarrow> c' = c)"
proof -
  obtain src dst where sd: "get_peers reply c = (src, dst)" by fastforce
  define x where "x = tcp_prepare (TCP_FLAGS (tcp_ctl l4)) l4 src dst"
  have "(ct' = ct \<and> c' = c) \<or> (ct' = ct \<and> c' = put_peers reply (x_src x) (x_dst x) c)"
    using assms unfolding tcp_conn_update_def by (auto simp: sd Let_def x_def split: if_splits)
  moreover have "cn_expiration (put_peers reply s d c) = cn_expiration c" for s d
    by (simp add: put_peers_def)
  ultimately show ?thesis using prepare_peers [of src "TCP_FLAGS (tcp_ctl l4)" l4 dst] put_get_peers [OF sd]
    by (auto simp: sd x_def)
qed

theorem tcp_rejected_packet_harmless_witness:
  "fst (tcp_conn_update (segment 7 0 3 100) False 5 (tcp_new_conn 2 (segment 7 0 2 100) 0 0 empty_ct))
     = tcp_new_conn 2 (segment 7 0 2 100) 0 0 empty_ct"
proof -
  obtain ct c where n: "tcp_new_conn 2 (segment 7 0 2 100) 0 0 empty_ct = (ct, c)" by fastforce
  have "c = snd (tcp_new_conn 2 (segment 7 0 2 100) 0 0 empty_ct)" by (simp add: n)
  then have "pr_state (tc_peer0 c) = CT_DPIF_TCPS_SYN_SENT"
    by (simp add: tcp_new_conn_def Let_def conn_init_expiration_def split: prod.split)
  moreover have "tcp_conn_update (segment 7 0 3 100) False 5 (ct, c) = ((ct, c), CT_UPDATE_INVALID)"
    by (simp add: tcp_conn_update_def get_peers_def segment_fields TCP_FLAGS_def tcp_invalid_flags_def
        has_def TCP_SYN_def TCP_RST_def TCP_FIN_def)
  ultimately show ?thesis using tcp_rejected_packet_harmless [of "segment 7 0 3 100" False 5 ct c ct c]
    by (simp add: n get_peers_def)
qed

subsection \<open>Timeout policies\<close>

lemma uint_mult_1000: "uint (v * 1000 :: u32) = (uint v * 1000) mod 2 ^ 32"
  by (simp add: uint_mult_lem uint_word_ariths)

text \<open>C39: A live connection expires exactly its timeout after the packet (in milliseconds, from a
  timeout in seconds) and stands last in the list of its timeout class, as long as the timeout
  is at most 4294967 seconds; a longer timeout wraps around in 32 bits and the connection
  expires early.\<close>

theorem ct_expiration_exact:
  assumes "\<not> cn_cleaned c"
  shows "let (ct', c') = conn_update_expiration tm now (ct, c); v = tp_value ct (cn_tp_id c) tm
    in last (ct_exp_lists ct' tm) = cn_addr c
      \<and> (cn_expiration c' = now + uint v * 1000 \<longleftrightarrow> v \<le> 4294967)
      \<and> cn_expiration c' \<le> now + uint v * 1000"
proof -
  define v where "v = tp_value ct (cn_tp_id c) tm"
  have "v \<le> 4294967 \<longleftrightarrow> uint v \<le> 4294967" by (simp add: word_le_def)
  also have "\<dots> \<longleftrightarrow> uint v * 1000 < 2 ^ 32" by auto
  also have "\<dots> \<longleftrightarrow> (uint v * 1000) mod 2 ^ 32 = uint v * 1000"
    using pos_mod_bound [of "2 ^ 32" "uint v * 1000"] by (auto simp del: pos_mod_bound)
  finally have "v \<le> 4294967 \<longleftrightarrow> uint (v * 1000) = uint v * 1000" by (simp only: uint_mult_1000)
  moreover have "uint (v * 1000) \<le> uint v * 1000" unfolding uint_mult_1000 by (rule zmod_le_nonneg_dividend) simp
  ultimately show ?thesis using assms
    by (simp add: conn_update_expiration_def v_def [symmetric] Let_def exp_list_push_back_def)
qed

theorem ct_expiration_exact_witness:
  "cn_expiration (snd (conn_update_expiration CT_TM_ICMP_REPLY 5 (empty_ct,
     \<lparr>cn_addr = 3, cn_expiration = 0, cn_cleaned = False, cn_tp_id = 0\<rparr>))) = 30005"
  using ct_expiration_exact [of "\<lparr>cn_addr = 3, cn_expiration = 0, cn_cleaned = False, cn_tp_id = 0\<rparr>"
      CT_TM_ICMP_REPLY 5 empty_ct]
  by (simp add: tp_value_def timeout_policy_lookup_def empty_ct_def ct_dpif_netdev_tp_def_def
      ct_dpif_tp_attrs_def Let_def split_beta)

lemma update_existing_prefix:
  assumes "n \<le> length (tp_attrs dst)"
  shows "let r = fold (\<lambda>i d. if tp_present src AND push_bit i 1 \<noteq> 0
                 then d\<lparr>tp_attrs := (tp_attrs d)[i := tp_attrs src ! i],
                        tp_present := tp_present d OR push_bit i 1\<rparr> else d) [0..<n] dst
    in tp_id r = tp_id dst \<and> length (tp_attrs r) = length (tp_attrs dst)
      \<and> (\<forall>i. tp_attrs r ! i = (if i < n \<and> bit (tp_present src) i then tp_attrs src ! i
                               else tp_attrs dst ! i))"
  using assms
proof (induction n)
  case (Suc n)
  then show ?case
    by (auto simp: Let_def nth_list_update bit_iff_and_push_bit_not_eq_0 less_Suc_eq)
qed simp

lemma update_existing_tp:
  "tp_id (update_existing_tp dst src) = tp_id dst"
  "i < length (tp_attrs dst) \<Longrightarrow> tp_attrs (update_existing_tp dst src) ! i =
     (if bit (tp_present src) i then tp_attrs src ! i else tp_attrs dst ! i)"
  using update_existing_prefix [OF order_refl, of src dst]
  by (simp_all add: update_existing_tp_def Let_def)

lemma attr_no_less: "tp_attr_no x < length ct_dpif_netdev_tp_def"
  by (cases x) (simp_all add: ct_dpif_netdev_tp_def_def ct_dpif_tp_attrs_def)

lemma lookup_create:
  "timeout_policy_lookup (timeout_policy_create tp ct) i =
    (if i = tp_id tp then Some (update_existing_tp (init_default_tp (tp_id tp)) tp)
     else timeout_policy_lookup ct i)"
  by (auto simp: timeout_policy_lookup_def timeout_policy_create_def Let_def update_existing_tp(1)
      init_default_tp_def)

lemma find_remove1: "\<not> P x \<Longrightarrow> find P (remove1 x xs) = find P xs"
  by (induction xs) auto

lemma lookup_clean: "tp_id tp \<noteq> i \<Longrightarrow>
    timeout_policy_lookup (timeout_policy_clean tp ct) i = timeout_policy_lookup ct i"
  by (simp add: timeout_policy_lookup_def timeout_policy_clean_def find_remove1)

lemma lookup_id: "timeout_policy_lookup ct i = Some tp \<Longrightarrow> tp_id tp = i"
  by (auto simp: timeout_policy_lookup_def find_Some_iff)

lemma policy_update_result:
  "\<exists>ct1. timeout_policy_update tp ct = (timeout_policy_create tp ct1, 0)
     \<and> (\<forall>i. i \<noteq> tp_id tp \<longrightarrow> timeout_policy_lookup ct1 i = timeout_policy_lookup ct i)"
proof (cases "timeout_policy_lookup ct (tp_id tp)")
  case (Some old)
  then show ?thesis using lookup_clean [of old] lookup_id [OF Some]
    by (auto simp: timeout_policy_update_def timeout_policy_delete_def)
qed (auto simp: timeout_policy_update_def)

text \<open>C40: Setting a timeout policy succeeds and takes effect: the timeout of a connection with
  that policy is the value set, for every attribute marked present, and the default for every
  other (also one that an earlier version of the policy had set); the timeouts of all other
  policies are unchanged.\<close>

theorem timeout_policy_update_takes_effect:
  "let (ct', err) = timeout_policy_update tp ct; n = tp_attr_no (tm_to_ct_dpif_tp tm)
   in err = 0 \<and> tp_value ct' i tm =
     (if i \<noteq> tp_id tp then tp_value ct i tm
      else if bit (tp_present tp) n then tp_attrs tp ! n
      else tp_default (tm_to_ct_dpif_tp tm))"
proof -
  obtain ct1 where u: "timeout_policy_update tp ct = (timeout_policy_create tp ct1, 0)"
    and l: "\<And>i. i \<noteq> tp_id tp \<Longrightarrow> timeout_policy_lookup ct1 i = timeout_policy_lookup ct i"
    using policy_update_result by blast
  have d: "ct_dpif_netdev_tp_def ! tp_attr_no a = tp_default a" for a
    by (cases a) (simp_all add: ct_dpif_netdev_tp_def_def ct_dpif_tp_attrs_def)
  have "tp_attrs (init_default_tp j) = ct_dpif_netdev_tp_def" for j by (simp add: init_default_tp_def)
  then show ?thesis
    using update_existing_tp(2) [of _ "init_default_tp (tp_id tp)" tp] attr_no_less
    by (simp add: u tp_value_def lookup_create l d)
qed

end
