(* ===== verification/HostBytes.thy ===== *)
theory HostBytes
  imports Csum
begin

text \<open>
  Memory as the host sees it: 16- and 32-bit loads in the byte order of the host (the argument
  \<open>be\<close>), stores of some bytes into a buffer, and their lemmas. The NAT program and the gateway
  actions read and write packets and messages this way.
\<close>

subsection \<open>Loads and stores\<close>

definition bytes_at :: "nat \<Rightarrow> nat \<Rightarrow> 'a list \<Rightarrow> 'a list" where
  "bytes_at off n d = take n (drop off d)"

definition put_bytes :: "nat \<Rightarrow> 'a list \<Rightarrow> 'a list \<Rightarrow> 'a list" where
  "put_bytes off bs d = take off d @ bs @ drop (off + length bs) d"

definition rd16 :: "bool \<Rightarrow> u8 list \<Rightarrow> nat \<Rightarrow> u16" where
  "rd16 be d off = load16 be (d ! off) (d ! (off + 1))"

definition rd32 :: "bool \<Rightarrow> u8 list \<Rightarrow> nat \<Rightarrow> u32" where
  "rd32 be d off =
     (if be then push_bit 16 (ucast (rd16 be d off)) OR ucast (rd16 be d (off + 2))
      else push_bit 16 (ucast (rd16 be d (off + 2))) OR ucast (rd16 be d off))"

subsection \<open>Lemmas on stores\<close>

lemma length_put_bytes [simp]: "off + length bs \<le> length d \<Longrightarrow> length (put_bytes off bs d) = length d"
  by (simp add: put_bytes_def)

lemma length_bytes_at [simp]: "off + n \<le> length d \<Longrightarrow> length (bytes_at off n d) = n"
  by (simp add: bytes_at_def)

lemma bytes_at_put_same: "off + length bs \<le> length d \<Longrightarrow> bytes_at off (length bs) (put_bytes off bs d) = bs"
  by (simp add: bytes_at_def put_bytes_def)

lemma bytes_at_put_other:
  assumes "off + length bs \<le> length d" "a + n \<le> off \<or> off + length bs \<le> a"
  shows "bytes_at a n (put_bytes off bs d) = bytes_at a n d"
proof -
  have "a + n \<le> off \<Longrightarrow> take n (drop a (take off d)) = take n (drop a d)"
    by (simp add: drop_take min_def)
  then show ?thesis using assms
    by (auto simp: bytes_at_def put_bytes_def add.commute)
qed

lemma nth_put_other:
  "off + length bs \<le> length d \<Longrightarrow> a < off \<or> off + length bs \<le> a \<Longrightarrow> put_bytes off bs d ! a = d ! a"
  by (auto simp: put_bytes_def nth_append)

lemma bytes_at_put_inside:
  assumes "off + length bs \<le> length d" "a \<le> off" "off + length bs \<le> a + n" "a + n \<le> length d"
  shows "bytes_at a n (put_bytes off bs d) = put_bytes (off - a) bs (bytes_at a n d)"
  using assms by (auto simp: bytes_at_def put_bytes_def drop_take min_def)

lemma put_bytes_split: "d = take off d @ bytes_at off n d @ drop (off + n) d"
proof -
  have "bytes_at off n d @ drop (off + n) d = drop off d"
    unfolding bytes_at_def by (simp only: add.commute [of off] append_take_drop_id flip: drop_drop)
  then show ?thesis by simp
qed

text \<open>A store at an even offset changes the sum by the difference of the field.\<close>

lemma sum16_put:
  assumes "even off" "even (length bs)" "off + length bs \<le> length d"
  shows "sum16 be (put_bytes off bs d) + sum16 be (bytes_at off (length bs) d) = sum16 be d + sum16 be bs"
proof -
  have "sum16 be d = sum16 be (take off d @ bytes_at off (length bs) d @ drop (off + length bs) d)"
    by (rule arg_cong [OF put_bytes_split])
  also have "\<dots> = sum16 be (take off d) + (sum16 be (bytes_at off (length bs) d) + sum16 be (drop (off + length bs) d))"
    using assms by (simp add: sum16_append)
  finally show ?thesis using assms by (simp add: put_bytes_def sum16_append)
qed

lemma bytes_at_two: "off + 2 \<le> length d \<Longrightarrow> bytes_at off 2 d = [d ! off, d ! (off + 1)]"
  by (auto simp: bytes_at_def list_eq_iff_nth_eq nth_append less_Suc_eq numeral_2_eq_2)

lemma sum16_rd16: "off + 2 \<le> length d \<Longrightarrow> sum16 be (bytes_at off 2 d) = unat (rd16 be d off)"
  by (simp add: bytes_at_two rd16_def)

lemma bytes_at_append: "bytes_at a (m + n) d = bytes_at a m d @ bytes_at (a + m) n d"
  by (simp add: bytes_at_def take_add add.commute)

lemma rd16_bytes: "off + 2 \<le> length d \<Longrightarrow> off + 2 \<le> length e \<Longrightarrow> bytes_at off 2 d = bytes_at off 2 e \<Longrightarrow>
    rd16 be d off = rd16 be e off"
  by (simp add: bytes_at_two rd16_def)

lemma store16_load16: "store16 be (load16 be a b) = [a, b]"
proof -
  have "unat x * 256 div 256 = unat x" for x :: u8 by simp
  have "unat (load16 True a b) div 256 = unat a" "unat (load16 True a b) mod 256 = unat b"
    "unat (load16 False a b) div 256 = unat b" "unat (load16 False a b) mod 256 = unat a"
    using unat_u8 [of a] unat_u8 [of b] by (simp_all add: unat_load16)
  then show ?thesis by (simp add: store16_def word_unat_eq_iff u16_bytes)
qed

lemma halves_hi: "ucast (drop_bit 16 (push_bit 16 (ucast h) OR ucast l :: u32)) = (h :: u16)" for l :: u16
  by (rule bit_word_eqI) (auto simp: bit_simps dest: bit_imp_le_length)

lemma halves_lo: "ucast (push_bit 16 (ucast h) OR ucast l :: u32) = (l :: u16)" for h :: u16
  by (rule bit_word_eqI) (auto simp: bit_simps)

lemma store32_rd32: "off + 4 \<le> length d \<Longrightarrow> store32 be (rd32 be d off) = bytes_at off 4 d"
proof -
  assume l: "off + 4 \<le> length d"
  have "bytes_at off 4 d = bytes_at off 2 d @ bytes_at (off + 2) 2 d"
    using bytes_at_append [of off 2 2 d] by simp
  moreover have "store32 be (rd32 be d off) = words16 be [rd16 be d off, rd16 be d (off + 2)]"
    unfolding store32_def rd32_def by (simp only: halves_hi halves_lo if_True if_False split: if_split) simp
  ultimately show ?thesis using l by (simp add: words16_def rd16_def store16_load16 bytes_at_two)
qed

lemma rd32_bytes: "off + 4 \<le> length d \<Longrightarrow> off + 4 \<le> length e \<Longrightarrow> bytes_at off 4 d = bytes_at off 4 e \<Longrightarrow>
    rd32 be d off = rd32 be e off"
proof -
  assume "off + 4 \<le> length d" "off + 4 \<le> length e" "bytes_at off 4 d = bytes_at off 4 e"
  moreover from this have "bytes_at off 2 d = bytes_at off 2 e" "bytes_at (off + 2) 2 d = bytes_at (off + 2) 2 e"
    using bytes_at_append [of off 2 2 d] bytes_at_append [of off 2 2 e] by simp_all
  ultimately have "rd16 be d off = rd16 be e off" "rd16 be d (off + 2) = rd16 be e (off + 2)"
    by (auto intro!: rd16_bytes)
  then show ?thesis unfolding rd32_def by (simp only:)
qed

end
