(* ===== verification/BpfSnat.thy ===== *)
theory BpfSnat
  imports HostBytes
begin

text \<open>
  The eBPF program for source NAT, \<open>src/bpf_snat.c\<close>: the classifiers \<open>tc_egress\<close> and
  \<open>tc_ingress\<close>, which rewrite TCP and UDP packets and ICMP errors by a table of connections.

  A packet is the bytes of the frame; a load or store of 16 or 32 bits is in the byte order of
  the host, the argument \<open>be\<close> (as in theory \<open>Csum\<close>). The helpers of the kernel and of the
  headers that are not part of the repository, the contents of the map \<open>conntrack_hash_tab\<close>
  and the error codes are the fields of the record \<open>bpf_api\<close>, an argument of every
  definition that uses them.
\<close>

subsection \<open>Data\<close>

definition bpf_ntohs :: "bool \<Rightarrow> u16 \<Rightarrow> u16" where
  "bpf_ntohs be x = (if be then x else push_bit 8 x OR drop_bit 8 x)"

record pkt_l4_info =
  l4_dport :: u16
  l4_sport :: u16
  l4_sync :: u16

record bpf_lb_conn_key =
  ck_sip :: u32
  ck_dip :: u32
  ck_vip :: u32
  ck_sport :: u16
  ck_dport :: u16
  ck_vport :: u16
  ck_proto :: u8
  ck_pad :: u8

record bpf_lb_conn_value =
  cv_ref :: u32
  cv_sip :: u32
  cv_dip :: u32
  cv_sport :: u16
  cv_dport :: u16
  cv_proto :: u8

record sk_buff =
  skb_data :: "u8 list"
  skb_mark :: u32
  skb_vlan_proto :: u32

record csum_offset =
  cs_offset :: u16
  cs_flags :: u16

text \<open>The code that is not part of the repository. A helper that changes the packet returns it
  with the value of the C function; \<open>l4_load_port\<close> returns its value and what it stored.\<close>

record bpf_api =
  bpf_skb_store_bytes :: "sk_buff \<Rightarrow> nat \<Rightarrow> u8 list \<Rightarrow> sk_buff \<times> int"
  bpf_csum_diff :: "u8 list \<Rightarrow> u8 list \<Rightarrow> u32 \<Rightarrow> u32"
  bpf_l3_csum_replace :: "sk_buff \<Rightarrow> nat \<Rightarrow> u32 \<Rightarrow> u32 \<Rightarrow> sk_buff \<times> int"
  csum_l4_offset_and_flags :: "u8 \<Rightarrow> csum_offset"
  csum_l4_replace_pseudo :: "sk_buff \<Rightarrow> nat \<Rightarrow> csum_offset \<Rightarrow> u32 \<Rightarrow> u32 \<Rightarrow> sk_buff \<times> int"
  l4_load_port :: "sk_buff \<Rightarrow> nat \<Rightarrow> int \<times> u16"
  l4_modify_port :: "sk_buff \<Rightarrow> nat \<Rightarrow> nat \<Rightarrow> csum_offset \<Rightarrow> u16 \<Rightarrow> u16 \<Rightarrow> sk_buff \<times> int"
  map_lookup_elem :: "bpf_lb_conn_key \<Rightarrow> bpf_lb_conn_value option"
  IS_ERR :: "int \<Rightarrow> bool"
  TCP_DPORT_OFF :: nat
  TCP_SPORT_OFF :: nat
  DROP_UNKNOWN_L4 :: int
  DROP_WRITE_ERROR :: int
  DROP_CSUM_L3 :: int
  DROP_CSUM_L4 :: int

definition TC_ACT_OK :: int where "TC_ACT_OK = 0"
definition TC_ACT_SHOT :: int where "TC_ACT_SHOT = 2"
definition ETH_P_802_3_MIN :: u16 where "ETH_P_802_3_MIN = 0x0600"
definition ETH_P_IP :: u16 where "ETH_P_IP = 0x0800"
definition ETH_HLEN :: nat where "ETH_HLEN = 14"
definition iphdr_size :: nat where "iphdr_size = 20"
definition ipproto_icmp :: u8 where "ipproto_icmp = 1"
definition ipproto_tcp :: u8 where "ipproto_tcp = 6"
definition ipproto_udp :: u8 where "ipproto_udp = 17"

subsection \<open>Checksums\<close>

definition bpf_csum_fold :: "u32 \<Rightarrow> u16" where
  "bpf_csum_fold c =
     (let sum = c;
          sum = (sum AND 0xffff) + drop_bit 16 sum;
          sum = (sum AND 0xffff) + drop_bit 16 sum
      in ucast (NOT sum))"

definition csum_unfold :: "u16 \<Rightarrow> u32" where
  "csum_unfold n = ucast n"

definition csum_add :: "u32 \<Rightarrow> u32 \<Rightarrow> u32" where
  "csum_add c addend = (let res = c + addend in res + (if res < addend then 1 else 0))"

definition csum_sub :: "u32 \<Rightarrow> u32 \<Rightarrow> u32" where
  "csum_sub c addend = csum_add c (NOT addend)"

definition csum_replace4 :: "u16 \<Rightarrow> u32 \<Rightarrow> u32 \<Rightarrow> u16" where
  "csum_replace4 sm from to =
     (let tmp = csum_sub (NOT (csum_unfold sm)) from
      in bpf_csum_fold (csum_add tmp to))"

subsection \<open>Parsing\<close>

definition validate_ip_data :: "sk_buff \<Rightarrow> nat \<Rightarrow> nat option" where
  "validate_ip_data skb l3_len =
     (if ETH_HLEN + l3_len > length (skb_data skb) then None else Some ETH_HLEN)"

definition extract_l4_ports :: "bpf_api \<Rightarrow> sk_buff \<Rightarrow> nat \<Rightarrow> pkt_l4_info \<Rightarrow> int \<times> pkt_l4_info" where
  "extract_l4_ports api skb l4_off pkt =
     (let (ret, dport) = l4_load_port api skb (l4_off + TCP_DPORT_OFF api); pkt = pkt\<lparr>l4_dport := dport\<rparr> in
      if IS_ERR api ret then (ret, pkt) else
      let (ret, sport) = l4_load_port api skb (l4_off + TCP_SPORT_OFF api); pkt = pkt\<lparr>l4_sport := sport\<rparr> in
      if IS_ERR api ret then (ret, pkt) else (0, pkt))"

definition extract_l4_info :: "bpf_api \<Rightarrow> sk_buff \<Rightarrow> u8 \<Rightarrow> nat \<Rightarrow> pkt_l4_info \<Rightarrow> int \<times> pkt_l4_info" where
  "extract_l4_info api skb l4proto l4_off pkt =
     (if l4proto = ipproto_tcp then
        let (ret, sync) = l4_load_port api skb (l4_off + 12) in
        if IS_ERR api ret then (ret, pkt)
        else extract_l4_ports api skb l4_off
               (pkt\<lparr>l4_sync := (if drop_bit 9 sync AND 1 \<noteq> 0 then 1 else 0)\<rparr>)
      else if l4proto = ipproto_udp then extract_l4_ports api skb l4_off pkt
      else if l4proto = ipproto_icmp then (0, pkt)
      else (DROP_UNKNOWN_L4 api, pkt))"

definition validate_ethertype :: "bool \<Rightarrow> sk_buff \<Rightarrow> u16 option" where
  "validate_ethertype be skb =
     (if ETH_HLEN > length (skb_data skb) then None
      else let proto = rd16 be (skb_data skb) 12 in
        if bpf_ntohs be proto < ETH_P_802_3_MIN then None else Some proto)"

definition ipv4_hdrlen :: "u8 list \<Rightarrow> nat \<Rightarrow> nat" where
  "ipv4_hdrlen d ip = unat (d ! ip AND 0xf) * 4"


subsection \<open>Rewriting TCP and UDP packets\<close>

text \<open>The rewriting of one address: the new partial sum, or \<open>None\<close> when the store fails. A null
  pointer is \<open>None\<close>.\<close>

definition manip_addr :: "bool \<Rightarrow> bpf_api \<Rightarrow> sk_buff \<Rightarrow> nat \<Rightarrow> u32 option \<Rightarrow> u32 option \<Rightarrow> u32
    \<Rightarrow> sk_buff \<times> u32 option" where
  "manip_addr be api skb off new_addr old_addr sm =
     (case (new_addr, old_addr) of
        (Some n, Some old) \<Rightarrow>
          if n \<noteq> old then
            let (skb, ret) = bpf_skb_store_bytes api skb off (store32 be n) in
            if ret < 0 then (skb, None)
            else (skb, Some (bpf_csum_diff api (store32 be old) (store32 be n) sm))
          else (skb, Some sm)
      | _ \<Rightarrow> (skb, Some sm))"

text \<open>The rewriting of one port: the error to return, if any.\<close>

definition manip_port :: "bpf_api \<Rightarrow> sk_buff \<Rightarrow> nat \<Rightarrow> nat \<Rightarrow> csum_offset \<Rightarrow> u16 option \<Rightarrow> u16 option
    \<Rightarrow> sk_buff \<times> int option" where
  "manip_port api skb l4_off off csum_off new_port old_port =
     (case (new_port, old_port) of
        (Some n, Some old) \<Rightarrow>
          if n \<noteq> old then
            let (skb, ret) = l4_modify_port api skb l4_off off csum_off n old in
            (skb, if IS_ERR api ret then Some ret else None)
          else (skb, None)
      | _ \<Rightarrow> (skb, None))"

definition nf_nat_manip_pkt :: "bool \<Rightarrow> bpf_api \<Rightarrow> sk_buff \<Rightarrow> u32 option \<Rightarrow> u32 option \<Rightarrow> u32 option
    \<Rightarrow> u32 option \<Rightarrow> u16 option \<Rightarrow> u16 option \<Rightarrow> u16 option \<Rightarrow> u16 option \<Rightarrow> u8 \<Rightarrow> nat \<Rightarrow> nat
    \<Rightarrow> sk_buff \<times> int" where
  "nf_nat_manip_pkt be api skb new_daddr old_daddr new_saddr old_saddr
       new_dport old_dport new_sport old_sport l4proto l3_off l4_off =
     (let csum_off = csum_l4_offset_and_flags api l4proto in
      if l4proto \<noteq> ipproto_udp \<and> l4proto \<noteq> ipproto_tcp then (skb, DROP_WRITE_ERROR api) else
      case manip_addr be api skb (l3_off + 16) new_daddr old_daddr 0 of
        (skb, None) \<Rightarrow> (skb, DROP_WRITE_ERROR api)
      | (skb, Some sm) \<Rightarrow>
      (case manip_addr be api skb (l3_off + 12) new_saddr old_saddr sm of
        (skb, None) \<Rightarrow> (skb, DROP_WRITE_ERROR api)
      | (skb, Some sm) \<Rightarrow>
      let (skb, ret) = bpf_l3_csum_replace api skb (l3_off + 10) 0 sm in
      if ret < 0 then (skb, DROP_CSUM_L3 api) else
      let (skb, ret) = (if cs_offset csum_off \<noteq> 0
                        then csum_l4_replace_pseudo api skb l4_off csum_off 0 sm else (skb, 0)) in
      if ret < 0 then (skb, DROP_CSUM_L4 api) else
      (case manip_port api skb l4_off (TCP_DPORT_OFF api) csum_off new_dport old_dport of
        (skb, Some ret) \<Rightarrow> (skb, ret)
      | (skb, None) \<Rightarrow>
      (case manip_port api skb l4_off (TCP_SPORT_OFF api) csum_off new_sport old_sport of
        (skb, Some ret) \<Rightarrow> (skb, ret)
      | (skb, None) \<Rightarrow> (skb, 0)))))"

subsection \<open>Rewriting ICMP errors\<close>

definition ICMP_DEST_UNREACH :: u8 where "ICMP_DEST_UNREACH = 3"
definition ICMP_SOURCE_QUENCH :: u8 where "ICMP_SOURCE_QUENCH = 4"
definition ICMP_TIME_EXCEEDED :: u8 where "ICMP_TIME_EXCEEDED = 11"

text \<open>Offsets in the frame of an ICMP error without IP options: the structure
  \<open>icmp_err_hdr\<close> is at 34 and has 32 bytes, its inner IP header is at 42 and the inner ports are
  at 62 and 64.\<close>

definition icmp_err_off :: nat where "icmp_err_off = 34"
definition icmp_err_hdr_size :: nat where "icmp_err_hdr_size = 32"

text \<open>The virtual address and port of the key, which the egress direction takes from the mark
  and then resets the mark.\<close>

definition key_virtual :: "int \<Rightarrow> sk_buff \<Rightarrow> bpf_lb_conn_key \<Rightarrow> sk_buff \<times> bpf_lb_conn_key" where
  "key_virtual dir skb key =
     (if dir = 1 then (skb\<lparr>skb_mark := 0\<rparr>, key\<lparr>ck_vip := skb_mark skb, ck_vport := ucast (skb_vlan_proto skb)\<rparr>)
      else (skb, key\<lparr>ck_vip := 0, ck_vport := 0\<rparr>))"

text \<open>An IP header gets its checksum anew: the field is cleared, the sum of the 20 bytes is
  folded and stored.\<close>

definition set_ip_check :: "bool \<Rightarrow> bpf_api \<Rightarrow> nat \<Rightarrow> u8 list \<Rightarrow> u8 list" where
  "set_ip_check be api ip d =
     (let d = put_bytes (ip + 10) (store16 be 0) d;
          check = bpf_csum_diff api [] (bytes_at ip iphdr_size d) 0
      in put_bytes (ip + 10) (store16 be (bpf_csum_fold check)) d)"

definition icmp_rewrite :: "bool \<Rightarrow> bpf_api \<Rightarrow> int \<Rightarrow> bpf_lb_conn_value \<Rightarrow> u8 list \<Rightarrow> u8 list" where
  "icmp_rewrite be api dir val d =
     (let (d, old, new) =
        (if dir = 0
         then (put_bytes 62 (store16 be (cv_dport val)) (put_bytes 54 (store32 be (cv_dip val)) d),
               rd16 be d 62, cv_dport val)
         else (put_bytes 64 (store16 be (cv_sport val)) (put_bytes 58 (store32 be (cv_sip val)) d),
               rd16 be d 64, cv_sport val));
          d = set_ip_check be api 42 d;
          d = put_bytes 36 (store16 be (csum_replace4 (rd16 be d 36) (ucast old) (ucast new))) d;
          d = (if dir = 0 then put_bytes 30 (store32 be (cv_dip val)) d
               else put_bytes 26 (store32 be (cv_sip val)) d)
      in set_ip_check be api ETH_HLEN d)"

definition nf_nat_icmp_reply_translation :: "bool \<Rightarrow> bpf_api \<Rightarrow> sk_buff \<Rightarrow> int \<Rightarrow> sk_buff \<times> int" where
  "nf_nat_icmp_reply_translation be api skb dir =
     (let d = skb_data skb in
      if 14 > length d then (skb, TC_ACT_OK)
      else if bpf_ntohs be (rd16 be d 12) \<noteq> ETH_P_IP then (skb, TC_ACT_OK)
      else if ETH_HLEN + iphdr_size > length d then (skb, TC_ACT_OK)
      else if d ! 23 \<noteq> ipproto_icmp then (skb, TC_ACT_OK)
      else if icmp_err_off + icmp_err_hdr_size > length d then (skb, TC_ACT_OK)
      else if d ! 34 \<noteq> ICMP_DEST_UNREACH \<and> d ! 34 \<noteq> ICMP_SOURCE_QUENCH \<and> d ! 34 \<noteq> ICMP_TIME_EXCEEDED
      then (skb, TC_ACT_OK)
      else
        let key = \<lparr>ck_sip = rd32 be d 58, ck_dip = rd32 be d 54, ck_vip = 0, ck_sport = rd16 be d 64,
                   ck_dport = rd16 be d 62, ck_vport = 0, ck_proto = d ! 51, ck_pad = 0\<rparr>;
            (skb, key) = key_virtual dir skb key in
        if ck_proto key \<noteq> ipproto_tcp \<and> ck_proto key \<noteq> ipproto_udp then (skb, TC_ACT_OK)
        else case map_lookup_elem api key of
            None \<Rightarrow> (skb, TC_ACT_OK)
          | Some val \<Rightarrow> (skb\<lparr>skb_data := icmp_rewrite be api dir val d\<rparr>, TC_ACT_OK))"

subsection \<open>The classifiers\<close>

definition nf_nat_ipv4_fn :: "bool \<Rightarrow> bpf_api \<Rightarrow> sk_buff \<Rightarrow> int \<Rightarrow> sk_buff \<times> int" where
  "nf_nat_ipv4_fn be api skb dir =
     (case validate_ethertype be skb of
        None \<Rightarrow> (skb, TC_ACT_OK)
      | Some l3proto \<Rightarrow>
      if bpf_ntohs be ETH_P_IP \<noteq> l3proto then (skb, TC_ACT_OK) else
      (case validate_ip_data skb iphdr_size of
        None \<Rightarrow> (skb, TC_ACT_OK)
      | Some ip \<Rightarrow>
        let d = skb_data skb; l4proto = d ! (ip + 9) in
        if l4proto \<noteq> ipproto_tcp \<and> l4proto \<noteq> ipproto_udp \<and> l4proto \<noteq> ipproto_icmp then (skb, TC_ACT_OK)
        else if l4proto = ipproto_icmp then nf_nat_icmp_reply_translation be api skb dir
        else
          let l4_off = ETH_HLEN + ipv4_hdrlen d ip;
              (ret, pkt) = extract_l4_info api skb l4proto l4_off \<lparr>l4_dport = 0, l4_sport = 0, l4_sync = 0\<rparr> in
          if IS_ERR api ret then (skb, TC_ACT_SHOT)
          else
            let key = \<lparr>ck_sip = rd32 be d (ip + 12), ck_dip = rd32 be d (ip + 16), ck_vip = 0,
                       ck_sport = l4_sport pkt, ck_dport = l4_dport pkt, ck_vport = 0,
                       ck_proto = l4proto, ck_pad = 0\<rparr>;
                (skb, key) = key_virtual dir skb key in
            (case map_lookup_elem api key of
               None \<Rightarrow> (skb, TC_ACT_OK)
             | Some val \<Rightarrow>
                 let (new_dip, new_dport, new_sip, new_sport) =
                   (if dir = 0 then (cv_dip val, cv_dport val, ck_sip key, ck_sport key)
                    else (ck_dip key, ck_dport key, cv_sip val, cv_sport val));
                     (skb, ret) = nf_nat_manip_pkt be api skb (Some new_dip) (Some (ck_dip key))
                       (Some new_sip) (Some (ck_sip key)) (Some new_dport) (Some (ck_dport key))
                       (Some new_sport) (Some (ck_sport key)) l4proto ETH_HLEN l4_off
                 in if ret \<noteq> 0 then (skb, TC_ACT_SHOT) else (skb, TC_ACT_OK))))"

definition tc_egress :: "bool \<Rightarrow> bpf_api \<Rightarrow> sk_buff \<Rightarrow> sk_buff \<times> int" where
  "tc_egress be api skb = nf_nat_ipv4_fn be api skb 1"

definition tc_ingress :: "bool \<Rightarrow> bpf_api \<Rightarrow> sk_buff \<Rightarrow> sk_buff \<times> int" where
  "tc_ingress be api skb = nf_nat_ipv4_fn be api skb 0"

end
