(* ===== verification/BpfIcmp.thy ===== *)
theory BpfIcmp
  imports BpfSnat
begin

text \<open>
  What the NAT program promises for ICMP errors: all checksums stay valid and the rewritten
  fields are those of the table. The first part has the lemmas on
  sums modulo 65535, which theory \<open>BpfTcp\<close> shares.
\<close>

subsection \<open>Sums modulo 65535\<close>

definition same16 :: "int \<Rightarrow> int \<Rightarrow> bool" where
  "same16 x y \<longleftrightarrow> 65535 dvd x - y"

lemma same16_combine:
  assumes "same16 a b" "same16 c e" and "x - y = (a - b) + (c - e)"
  shows "same16 x y"
  using assms unfolding same16_def by simp

lemma same16_sym: "same16 a b \<Longrightarrow> same16 b a"
  unfolding same16_def by (metis dvd_minus_iff minus_diff_eq)

lemma same16_trans: "same16 a b \<Longrightarrow> same16 b c \<Longrightarrow> same16 a c"
  by (rule same16_combine [of a b b c]) simp_all

lemma same16_shift: "x - y = a - b \<Longrightarrow> same16 a b \<Longrightarrow> same16 x y"
  by (simp add: same16_def)

lemma same16_mult: "same16 (x + 65535 * k) x"
  by (simp add: same16_def)

lemma fold16_same: "same16 (int (fold16 n)) (int n)"
proof -
  have "int (fold16 n) mod 65535 = int n mod 65535"
    using arg_cong [OF fold16_cong [of n], of int] by (simp add: of_nat_mod)
  then show ?thesis by (simp add: same16_def mod_eq_dvd_iff)
qed

lemma unat_not32: "unat (NOT x) = 4294967295 - unat x" for x :: u32
proof -
  have "NOT x = - 1 - x" by (simp add: not_eq_complement)
  then show ?thesis by (simp add: unat_sub unsigned_minus_1_eq_mask mask_eq_exp_minus_1)
qed

lemma unat_bpf_csum_fold: "unat (bpf_csum_fold p) = 65535 - fold16 (unat p)"
proof -
  define s1 where "s1 = (p AND 0xffff) + drop_bit 16 p"
  define s2 where "s2 = (s1 AND 0xffff) + drop_bit 16 s1"
  have 1: "unat s1 = unat p mod 65536 + unat p div 65536" unfolding s1_def by (rule u32_fold)
  have 2: "unat s2 = unat s1 mod 65536 + unat s1 div 65536" unfolding s2_def by (rule u32_fold)
  have fold: "fold16 (n mod 65536 + n div 65536) = fold16 n" for n
  proof (cases "n = 0")
    case False
    have "n = n mod 65536 + n div 65536 + 65535 * (n div 65536)"
      using mod_mult_div_eq [of n 65536] by linarith
    moreover have "0 < n mod 65536 + n div 65536"
    proof (rule ccontr)
      assume "\<not> 0 < n mod 65536 + n div 65536"
      then have "n mod 65536 = 0" "n div 65536 = 0" by simp_all
      with False show False using mod_mult_div_eq [of n 65536] by simp
    qed
    ultimately show ?thesis using fold16_add by metis
  qed simp
  have "unat p div 65536 < 65536" using u32_bound [of p] by (simp add: less_mult_imp_div_less)
  moreover have "unat p mod 65536 < 65536" by simp
  ultimately have "unat s1 \<le> 131070" unfolding 1 by linarith
  then have s2: "unat s2 < 65536" unfolding 2 by (cases "unat s1 < 65536") (auto simp: div_if mod_if)
  then have f: "unat s2 = fold16 (unat p)" using fold16_small [of "unat s2"] by (simp add: 1 2 fold)
  have "4294967295 - unat s2 = 65535 - unat s2 + 65536 * 65535" using s2 by simp
  then have "(4294967295 - unat s2) mod 65536 = 65535 - unat s2"
    using s2 by (simp only: mod_mult_self2 mod_less)
  then show ?thesis
    by (simp add: bpf_csum_fold_def s1_def [symmetric] s2_def [symmetric] unat_ucast_u16 unat_not32 flip: f)
qed

lemma bpf_csum_fold_same: "same16 (int (unat (bpf_csum_fold p))) (- int (unat p))"
proof -
  have "int (unat (bpf_csum_fold p)) = 65535 - int (fold16 (unat p))"
    unfolding unat_bpf_csum_fold using fold16_bounds(1) [of "unat p"] by simp
  then have "int (unat (bpf_csum_fold p)) - - int (unat p) =
      (0 + 65535 * 1 - 0) + (int (unat p) - int (fold16 (unat p)))" by linarith
  then show ?thesis by (rule same16_combine [OF same16_mult same16_sym [OF fold16_same]])
qed

lemma csum_add_same: "same16 (int (unat (csum_add a b))) (int (unat a) + int (unat b))"
proof -
  have c: "a + b < b \<longleftrightarrow> 4294967296 \<le> unat a + unat b"
    using u32_bound [of a] u32_bound [of b] by (auto simp: word_less_nat_alt unat_plus_if')
  show ?thesis
  proof (cases "4294967296 \<le> unat a + unat b")
    case True
    then have "unat (csum_add a b) = unat a + unat b - 4294967295"
      using u32_bound [of a] u32_bound [of b] c
      by (auto simp: csum_add_def Let_def unat_word_ariths mod_if)
    with True have "int (unat a) + int (unat b) = int (unat (csum_add a b)) + 65535 * 65537"
      by linarith
    then show ?thesis using same16_sym [OF same16_mult [of "int (unat (csum_add a b))" 65537]] by (simp only:)
  next
    case False
    then have "unat (csum_add a b) = unat a + unat b"
      using c by (simp add: csum_add_def Let_def unat_word_ariths)
    then show ?thesis by (simp add: same16_def)
  qed
qed

lemma not32_same: "same16 (int (unat (NOT x))) (- int (unat x))" for x :: u32
proof -
  have "int (unat (NOT x)) = - int (unat x) + 65535 * 65537"
    unfolding unat_not32 using u32_bound [of x] by linarith
  then show ?thesis by (simp only: same16_mult)
qed

text \<open>The incremental update keeps the sum of checksum and field.\<close>

lemma csum_replace4_same:
  "same16 (int (unat (csum_replace4 c frm to))) (int (unat c) + int (unat frm) - int (unat to))"
proof -
  define t where "t = csum_sub (NOT (csum_unfold c)) frm"
  have u: "unat (csum_unfold c) = unat c" by (simp add: csum_unfold_def unat_ucast_up)
  have "same16 (int (unat t)) (int (unat (NOT (csum_unfold c))) + int (unat (NOT frm)))"
    unfolding t_def csum_sub_def by (rule csum_add_same)
  then have "same16 (int (unat t)) (- int (unat c) + int (unat (NOT frm)))"
    by (rule same16_combine [OF _ not32_same [of "csum_unfold c"]]) (simp add: u)
  then have "same16 (int (unat t)) (- int (unat c) - int (unat frm))"
    by (rule same16_combine [OF _ not32_same [of frm]]) simp
  then have "same16 (int (unat (csum_add t to))) (- int (unat c) - int (unat frm) + int (unat to))"
    by (rule same16_combine [OF csum_add_same [of t to]]) simp
  then show ?thesis unfolding csum_replace4_def Let_def t_def [symmetric]
    by (rule same16_combine [OF bpf_csum_fold_same [of "csum_add t to"] same16_sym]) simp
qed

lemma csum_zero_iff:
  "length d \<le> 131072 \<Longrightarrow> csum be d = 0 \<longleftrightarrow> 0 < sum16 be d \<and> same16 (int (sum16 be d)) 0"
proof -
  assume "length d \<le> 131072"
  then have "csum be d = 0 \<longleftrightarrow> fold16 (sum16 be d) = 65535"
    using unat_csum [of d be] fold16_bounds(1) [of "sum16 be d"] by (auto simp: unat_eq_zero [symmetric] simp del: unat_eq_zero)
  also have "\<dots> \<longleftrightarrow> 0 < sum16 be d \<and> same16 (int (sum16 be d)) 0"
  proof
    assume f: "fold16 (sum16 be d) = 65535"
    then have "0 < sum16 be d" by (cases "sum16 be d = 0") (simp_all add: fold16_def)
    moreover have "same16 (int (sum16 be d)) 65535" using fold16_same [of "sum16 be d", THEN same16_sym] f by simp
    ultimately show "0 < sum16 be d \<and> same16 (int (sum16 be d)) 0"
      using same16_trans [OF _ same16_mult [of 0 1, simplified]] by simp
  next
    assume "0 < sum16 be d \<and> same16 (int (sum16 be d)) 0"
    then have p: "0 < sum16 be d" and z: "int 65535 dvd int (sum16 be d)" by (simp_all add: same16_def)
    from z have "65535 dvd sum16 be d" by (simp only: int_dvd_int_iff)
    then have "(65535 :: nat) mod 65535 = sum16 be d mod 65535" by (simp add: dvd_imp_mod_0)
    with p show "fold16 (sum16 be d) = 65535" by (intro fold16_unique [symmetric]) simp_all
  qed
  finally show ?thesis .
qed

subsection \<open>ICMP errors\<close>

text \<open>\<open>bpf_csum_diff\<close> of nothing and a buffer: the ones' complement sum of the buffer.\<close>

definition csum_diff_sums :: "bool \<Rightarrow> bpf_api \<Rightarrow> bool" where
  "csum_diff_sums be api \<longleftrightarrow>
     (\<forall>to. length to = 20 \<longrightarrow> same16 (int (unat (bpf_csum_diff api [] to 0))) (int (sum16 be to)))"

lemma put_put_same:
  "length bs = length cs \<Longrightarrow> off + length bs \<le> length d \<Longrightarrow> put_bytes off bs (put_bytes off cs d) = put_bytes off bs d"
  by (simp add: put_bytes_def)

definition ip_check :: "bool \<Rightarrow> bpf_api \<Rightarrow> nat \<Rightarrow> u8 list \<Rightarrow> u16" where
  "ip_check be api ip d =
     bpf_csum_fold (bpf_csum_diff api [] (bytes_at ip 20 (put_bytes (ip + 10) (store16 be 0) d)) 0)"

lemma set_ip_check_put:
  "ip + 20 \<le> length d \<Longrightarrow> set_ip_check be api ip d = put_bytes (ip + 10) (store16 be (ip_check be api ip d)) d"
  by (simp add: set_ip_check_def ip_check_def Let_def iphdr_size_def put_put_same)

lemma sum16_store: "sum16 be (store16 be x) = unat x"
  using sum16_store16(1) [of be x "[]"] by simp

lemma sum16_header_put:
  assumes "ip + 20 \<le> length d"
  shows "sum16 be (bytes_at ip 20 (put_bytes (ip + 10) (store16 be c) d)) + sum16 be (bytes_at (ip + 10) 2 d)
    = sum16 be (bytes_at ip 20 d) + unat c"
proof -
  have "bytes_at 10 2 (bytes_at ip 20 d) = bytes_at (ip + 10) 2 d"
    by (simp add: bytes_at_def drop_take add.commute)
  then show ?thesis using assms sum16_put [of 10 "store16 be c" "bytes_at ip 20 d" be]
    by (simp add: bytes_at_put_inside sum16_store)
qed

lemma sum16_pos: "k < length d \<Longrightarrow> d ! k \<noteq> 0 \<Longrightarrow> 0 < sum16 be d"
  by (metis nth_mem singletonD subsetD sum16_zero neq0_conv)

lemma set_ip_check_valid:
  assumes "csum_diff_sums be api" "ip + 20 \<le> length d" "k < 10" "d ! (ip + k) \<noteq> 0"
  shows "csum be (bytes_at ip 20 (set_ip_check be api ip d)) = 0"
proof -
  define c where "c = ip_check be api ip d"
  define h0 where "h0 = bytes_at ip 20 (put_bytes (ip + 10) (store16 be 0) d)"
  define h where "h = bytes_at ip 20 (put_bytes (ip + 10) (store16 be c) d)"
  have "sum16 be h = sum16 be h0 + unat c"
    using sum16_header_put [OF assms(2), of be c] sum16_header_put [OF assms(2), of be 0]
    unfolding h_def h0_def by simp
  then have s: "int (sum16 be h) = int (sum16 be h0) + int (unat c)" by (simp only: of_nat_add)
  have "same16 (int (unat c)) (- int (unat (bpf_csum_diff api [] h0 0)))"
    unfolding c_def ip_check_def h0_def by (rule bpf_csum_fold_same)
  moreover have "same16 (int (unat (bpf_csum_diff api [] h0 0))) (int (sum16 be h0))"
    using assms(1,2) unfolding csum_diff_sums_def by (simp add: h0_def)
  then have "same16 (int (sum16 be h0)) (int (unat (bpf_csum_diff api [] h0 0)))" by (rule same16_sym)
  ultimately have "same16 (int (sum16 be h)) 0" by (rule same16_combine) (use s in linarith)
  moreover have "h ! k = d ! (ip + k)"
    using assms(2,3) unfolding h_def by (simp add: bytes_at_def nth_put_other)
  then have "0 < sum16 be h" using assms(2-4) by (intro sum16_pos [of k]) (simp_all add: h_def)
  moreover have "length h \<le> 131072" using assms(2) by (simp add: h_def)
  ultimately show ?thesis using assms(2) by (simp add: csum_zero_iff set_ip_check_put c_def [symmetric] h_def [symmetric])
qed

lemma length_set_ip_check [simp]: "ip + 20 \<le> length d \<Longrightarrow> length (set_ip_check be api ip d) = length d"
  by (simp add: set_ip_check_put)

lemma bytes_at_set_ip_check:
  "ip + 20 \<le> length d \<Longrightarrow> a + n \<le> ip + 10 \<or> ip + 12 \<le> a \<Longrightarrow>
    bytes_at a n (set_ip_check be api ip d) = bytes_at a n d"
  using bytes_at_put_other [of "ip + 10" "store16 be (ip_check be api ip d)" d a n]
  by (auto simp: set_ip_check_put)

text \<open>The rewriting with its offsets as arguments: inner address, inner port, outer address.\<close>

definition icmp_rewrite_at :: "bool \<Rightarrow> bpf_api \<Rightarrow> nat \<Rightarrow> nat \<Rightarrow> nat \<Rightarrow> u32 \<Rightarrow> u16 \<Rightarrow> u8 list \<Rightarrow> u8 list" where
  "icmp_rewrite_at be api a p q addr port d =
     (let d2 = set_ip_check be api 42 (put_bytes p (store16 be port) (put_bytes a (store32 be addr) d));
          d3 = put_bytes 36 (store16 be (csum_replace4 (rd16 be d2 36) (ucast (rd16 be d p)) (ucast port))) d2
      in set_ip_check be api 14 (put_bytes q (store32 be addr) d3))"

lemma icmp_rewrite_cases:
  obtains (ingress) "dir = 0" "icmp_rewrite be api dir val d = icmp_rewrite_at be api 54 62 30 (cv_dip val) (cv_dport val) d"
  | (egress) "dir \<noteq> 0" "icmp_rewrite be api dir val d = icmp_rewrite_at be api 58 64 26 (cv_sip val) (cv_sport val) d"
  by (cases "dir = 0") (simp_all add: icmp_rewrite_def icmp_rewrite_at_def Let_def ETH_HLEN_def)

lemma set_ip_check_local:
  assumes "ip + 20 \<le> length d" "ip + 20 \<le> length e" "bytes_at ip 20 d = bytes_at ip 20 e"
  shows "bytes_at ip 20 (set_ip_check be api ip d) = bytes_at ip 20 (set_ip_check be api ip e)"
  using assms by (simp add: set_ip_check_put ip_check_def bytes_at_put_inside)

text \<open>What the rewriting leaves in the parts of the packet: the outer header, the ICMP header, the
  inner header and the rest.\<close>

lemma icmp_rewrite_parts:
  assumes "66 \<le> length d" "a \<in> {54, 58}" "p \<in> {62, 64}" "q \<in> {26, 30}"
    and e: "e = icmp_rewrite_at be api a p q addr port d" and m: "m = length d - 62"
    and c: "c = csum_replace4 (rd16 be d 36) (ucast (rd16 be d p)) (ucast port)"
  shows "length e = length d"
    and "bytes_at 34 8 e = put_bytes 2 (store16 be c) (bytes_at 34 8 d)"
    and "bytes_at 62 m e = put_bytes (p - 62) (store16 be port) (bytes_at 62 m d)"
    and "bytes_at 42 20 e = bytes_at 42 20 (set_ip_check be api 42 (put_bytes a (store32 be addr) d))"
    and "bytes_at 14 20 e = bytes_at 14 20 (set_ip_check be api 14 (put_bytes q (store32 be addr) d))"
proof -
  define d0 where "d0 = put_bytes a (store32 be addr) d"
  define d1 where "d1 = put_bytes p (store16 be port) d0"
  define d2 where "d2 = set_ip_check be api 42 d1"
  define d3 where "d3 = put_bytes 36 (store16 be c) d2"
  define d4 where "d4 = put_bytes q (store32 be addr) d3"
  have l: "length d0 = length d" "length d1 = length d" "length d2 = length d" "length d3 = length d"
    "length d4 = length d"
    using assms(1-4) by (auto simp: d0_def d1_def d2_def d3_def d4_def)
  have b0: "bytes_at x n d0 = bytes_at x n d" if "x + n \<le> 54 \<or> 62 \<le> x" for x n
    unfolding d0_def using that assms(1,2) by (intro bytes_at_put_other) auto
  have b1: "bytes_at x n d1 = bytes_at x n d0" if "x + n \<le> 62" for x n
    unfolding d1_def using that assms(1,3) l by (intro bytes_at_put_other) auto
  have b2: "bytes_at x n d2 = bytes_at x n d1" if "x + n \<le> 52 \<or> 54 \<le> x" for x n
    unfolding d2_def using that assms(1) l by (intro bytes_at_set_ip_check) auto
  have b3: "bytes_at x n d3 = bytes_at x n d2" if "x + n \<le> 36 \<or> 38 \<le> x" for x n
    unfolding d3_def using that assms(1) l by (intro bytes_at_put_other) auto
  have b4: "bytes_at x n d4 = bytes_at x n d3" if "34 \<le> x" for x n
    unfolding d4_def using that assms(1,4) l by (intro bytes_at_put_other) auto
  have "rd16 be d2 36 = rd16 be d 36" using assms(1) l by (intro rd16_bytes) (simp_all add: b2 b1 b0)
  then have e5: "e = set_ip_check be api 14 d4"
    unfolding e icmp_rewrite_at_def Let_def d0_def [symmetric] d1_def [symmetric] d2_def [symmetric]
    by (simp add: d4_def d3_def c)
  have b5: "bytes_at x n e = bytes_at x n d4" if "26 \<le> x" for x n
    unfolding e5 using that assms(1) l by (intro bytes_at_set_ip_check) auto
  show "length e = length d" unfolding e5 using assms(1) l by simp
  have "bytes_at 34 8 e = put_bytes 2 (store16 be c) (bytes_at 34 8 d2)"
    using assms(1) l bytes_at_put_inside [of 36 "store16 be c" d2 34 8] by (simp add: b5 b4 d3_def)
  then show "bytes_at 34 8 e = put_bytes 2 (store16 be c) (bytes_at 34 8 d)" by (simp add: b2 b1 b0)
  have "bytes_at 62 m e = put_bytes (p - 62) (store16 be port) (bytes_at 62 m d0)"
    using assms(1,3) m l bytes_at_put_inside [of p "store16 be port" d0 62 m] by (auto simp: b5 b4 b3 b2 d1_def)
  then show "bytes_at 62 m e = put_bytes (p - 62) (store16 be port) (bytes_at 62 m d)" by (simp add: b0)
  have "bytes_at 42 20 e = bytes_at 42 20 (set_ip_check be api 42 d1)" by (simp add: b5 b4 b3 d2_def)
  also have "\<dots> = bytes_at 42 20 (set_ip_check be api 42 d0)"
    using assms(1) l by (intro set_ip_check_local) (simp_all add: b1)
  finally show "bytes_at 42 20 e = bytes_at 42 20 (set_ip_check be api 42 (put_bytes a (store32 be addr) d))"
    unfolding d0_def .
  have "bytes_at 14 20 d4 = bytes_at 14 20 (put_bytes q (store32 be addr) d)"
    using assms(1,4) l unfolding d4_def by (subst (1 2) bytes_at_put_inside) (auto simp: b3 b2 b1 b0)
  then show "bytes_at 14 20 e = bytes_at 14 20 (set_ip_check be api 14 (put_bytes q (store32 be addr) d))"
    unfolding e5 using assms(1,4) l by (intro set_ip_check_local) auto
qed

lemma sum16_icmp_parts:
  assumes "66 \<le> length d" "m = length d - 62"
  shows "sum16 be (drop 34 d) = sum16 be (bytes_at 34 8 d) + sum16 be (bytes_at 42 20 d) + sum16 be (bytes_at 62 m d)"
proof -
  have "drop 34 d = bytes_at 34 (8 + (20 + m)) d" using assms by (simp add: bytes_at_def)
  also have "\<dots> = bytes_at 34 8 d @ bytes_at 42 20 d @ bytes_at 62 m d"
    by (simp only: bytes_at_append) simp
  finally show ?thesis using assms by (simp add: sum16_append)
qed

lemma icmp_rewrite_valid:
  assumes api: "csum_diff_sums be api" and d: "66 \<le> length d" "length d \<le> 131072"
    and apq: "a \<in> {54, 58}" "p \<in> {62, 64}" "q \<in> {26, 30}"
    and proto: "d ! 51 \<noteq> 0" "d ! 23 \<noteq> 0"
    and valid: "csum be (bytes_at 42 20 d) = 0" "csum be (drop 34 d) = 0"
    and e: "e = icmp_rewrite_at be api a p q addr port d"
  shows "csum be (bytes_at 14 20 e) = 0 \<and> csum be (bytes_at 42 20 e) = 0 \<and> csum be (drop 34 e) = 0"
proof -
  define m where "m = length d - 62"
  define c where "c = csum_replace4 (rd16 be d 36) (ucast (rd16 be d p)) (ucast port)"
  note parts = icmp_rewrite_parts [OF d(1) apq e m_def c_def]
  have "put_bytes a (store32 be addr) d ! 51 = d ! 51" "put_bytes q (store32 be addr) d ! 23 = d ! 23"
    using d(1) apq by (auto simp: nth_put_other)
  then have out: "csum be (bytes_at 14 20 e) = 0" and inn: "csum be (bytes_at 42 20 e) = 0"
    unfolding parts(4,5) using proto d(1) apq
    by (auto intro!: set_ip_check_valid [OF api, of _ _ 9])
  have i: "0 < sum16 be (bytes_at 42 20 e)" "same16 (int (sum16 be (bytes_at 42 20 e))) 0"
    "same16 (int (sum16 be (bytes_at 42 20 d))) 0" "same16 (int (sum16 be (drop 34 d))) 0"
    using inn valid d parts(1) by (simp_all add: csum_zero_iff)
  have "bytes_at 2 2 (bytes_at 34 8 d) = bytes_at 36 2 d" by (simp add: bytes_at_def drop_take)
  then have A: "sum16 be (bytes_at 34 8 e) + unat (rd16 be d 36) = sum16 be (bytes_at 34 8 d) + unat c"
    using d(1) sum16_put [of 2 "store16 be c" "bytes_at 34 8 d" be]
    by (simp add: parts(2) sum16_store flip: sum16_rd16)
  have "bytes_at (p - 62) 2 (bytes_at 62 m d) = bytes_at p 2 d"
    using apq(2) d(1) by (auto simp: bytes_at_def drop_take m_def)
  moreover have "even (p - 62)" "p - 62 + 2 \<le> m" "62 + m \<le> length d" "p + 2 \<le> length d"
    using apq(2) d(1) by (auto simp: m_def)
  ultimately have T: "sum16 be (bytes_at 62 m e) + unat (rd16 be d p) = sum16 be (bytes_at 62 m d) + unat port"
    using sum16_put [of "p - 62" "store16 be port" "bytes_at 62 m d" be]
    by (simp add: parts(3) sum16_store flip: sum16_rd16)
  have C: "same16 (int (unat c)) (int (unat (rd16 be d 36)) + int (unat (rd16 be d p)) - int (unat port))"
    using csum_replace4_same [of "rd16 be d 36" "ucast (rd16 be d p)" "ucast port"]
    by (simp only: c_def unat_ucast_up)
  note S = sum16_icmp_parts [OF d(1) m_def, of be]
    sum16_icmp_parts [of e m be, unfolded parts(1), OF d(1) m_def]
  have "same16 (int (sum16 be (drop 34 e)) - int (sum16 be (bytes_at 42 20 e)))
      (int (sum16 be (drop 34 d)) - int (sum16 be (bytes_at 42 20 d)))"
    by (rule same16_shift [OF _ C]) (use A T S in linarith)
  then have "same16 (int (sum16 be (drop 34 e)) - int (sum16 be (bytes_at 42 20 e))) 0"
    by (rule same16_trans) (rule same16_combine [OF i(4) same16_sym [OF i(3)]], simp)
  then have "same16 (int (sum16 be (drop 34 e))) 0" by (rule same16_combine [OF _ i(2)]) simp
  moreover have "0 < sum16 be (drop 34 e)" using i(1) S(2) by linarith
  ultimately have "csum be (drop 34 e) = 0" using d parts(1) by (simp add: csum_zero_iff)
  with out inn show ?thesis by simp
qed

lemma icmp_rewrite_fields:
  assumes "66 \<le> length d" "a \<in> {54, 58}" "p \<in> {62, 64}" "q \<in> {26, 30}"
    and e: "e = icmp_rewrite_at be api a p q addr port d"
  shows "bytes_at a 4 e = store32 be addr \<and> bytes_at p 2 e = store16 be port \<and> bytes_at q 4 e = store32 be addr"
proof -
  define m where "m = length d - 62"
  note parts = icmp_rewrite_parts [OF assms m_def refl]
  have inside: "bytes_at k n' (bytes_at y n f) = bytes_at (y + k) n' f" if "k + n' \<le> n" for k n' y n and f :: "u8 list"
    using that by (simp add: bytes_at_def drop_take min_def add.commute)
  have s: "bytes_at x 4 (set_ip_check be api ip (put_bytes x (store32 be addr) d)) = store32 be addr"
    if "ip + 12 \<le> x" "x + 4 \<le> ip + 20" "ip + 20 \<le> length d" for x ip
    using that bytes_at_put_same [of x "store32 be addr" d] by (simp add: bytes_at_set_ip_check)
  have 1: "bytes_at a 4 e = store32 be addr"
    using assms(1,2) arg_cong [OF parts(4), of "bytes_at (a - 42) 4"] s [of 42 a] by (auto simp: inside)
  have 2: "bytes_at q 4 e = store32 be addr"
    using assms(1,4) arg_cong [OF parts(5), of "bytes_at (q - 14) 4"] s [of 14 q] by (auto simp: inside)
  have pm: "p - 62 + 2 \<le> m" "62 + m \<le> length d" "62 + (p - 62) = p" using assms(1,3) by (auto simp: m_def)
  have "bytes_at p 2 e = store16 be port"
    using pm arg_cong [OF parts(3), of "bytes_at (p - 62) 2"] bytes_at_put_same [of "p - 62" "store16 be port" "bytes_at 62 m d"]
    by (simp add: inside)
  with 1 2 show ?thesis by simp
qed

text \<open>An ICMP error that the program handles, and the key it looks up.\<close>

definition icmp_error :: "bool \<Rightarrow> u8 list \<Rightarrow> bool" where
  "icmp_error be d \<longleftrightarrow> 66 \<le> length d \<and> bpf_ntohs be (rd16 be d 12) = ETH_P_IP \<and> d ! 23 = ipproto_icmp
     \<and> d ! 34 \<in> {ICMP_DEST_UNREACH, ICMP_SOURCE_QUENCH, ICMP_TIME_EXCEEDED}
     \<and> d ! 51 \<in> {ipproto_tcp, ipproto_udp}"

definition icmp_error_key :: "bool \<Rightarrow> int \<Rightarrow> sk_buff \<Rightarrow> bpf_lb_conn_key" where
  "icmp_error_key be dir skb = (let d = skb_data skb in
     \<lparr>ck_sip = rd32 be d 58, ck_dip = rd32 be d 54, ck_vip = (if dir = 1 then skb_mark skb else 0),
      ck_sport = rd16 be d 64, ck_dport = rd16 be d 62,
      ck_vport = (if dir = 1 then ucast (skb_vlan_proto skb) else 0), ck_proto = d ! 51, ck_pad = 0\<rparr>)"

lemma icmp_translation_hit:
  assumes "icmp_error be (skb_data skb)" "map_lookup_elem api (icmp_error_key be dir skb) = Some val"
  shows "nf_nat_icmp_reply_translation be api skb dir =
    (skb\<lparr>skb_mark := (if dir = 1 then 0 else skb_mark skb), skb_data := icmp_rewrite be api dir val (skb_data skb)\<rparr>,
     TC_ACT_OK)"
  using assms by (auto simp: nf_nat_icmp_reply_translation_def icmp_error_def icmp_error_key_def key_virtual_def
      Let_def ETH_HLEN_def iphdr_size_def icmp_err_off_def icmp_err_hdr_size_def)

text \<open>C2: An ICMP error about a connection of the table leaves the program with valid checksums: if
  the ICMP message and the IP header inside it had valid checksums, then so they have after
  the rewriting, and so has the outer IP header. The addresses and the port are those of the table:
  the source in the inner header and the outer destination on ingress, the destination in the inner
  header and the outer source on egress. The checksum of the ICMP message is updated from the port
  alone; the theorem shows that this is right because the sum of a valid IP header is zero.\<close>

theorem icmp_error_translation_valid:
  assumes "csum_diff_sums be api" and "icmp_error be (skb_data skb)" and "length (skb_data skb) \<le> 131072"
    and "csum be (bytes_at 42 20 (skb_data skb)) = 0" and "csum be (drop 34 (skb_data skb)) = 0"
    and "map_lookup_elem api (icmp_error_key be dir skb) = Some val"
    and "nf_nat_icmp_reply_translation be api skb dir = (skb', r)"
  shows "r = TC_ACT_OK \<and> csum be (bytes_at 14 20 (skb_data skb')) = 0
    \<and> csum be (bytes_at 42 20 (skb_data skb')) = 0 \<and> csum be (drop 34 (skb_data skb')) = 0
    \<and> (if dir = 0
       then bytes_at 54 4 (skb_data skb') = store32 be (cv_dip val)
          \<and> bytes_at 62 2 (skb_data skb') = store16 be (cv_dport val)
          \<and> bytes_at 30 4 (skb_data skb') = store32 be (cv_dip val)
       else bytes_at 58 4 (skb_data skb') = store32 be (cv_sip val)
          \<and> bytes_at 64 2 (skb_data skb') = store16 be (cv_sport val)
          \<and> bytes_at 26 4 (skb_data skb') = store32 be (cv_sip val))"
proof -
  define d where "d = skb_data skb"
  define e where "e = icmp_rewrite be api dir val d"
  have r: "r = TC_ACT_OK" "skb_data skb' = e"
    using assms(7) icmp_translation_hit [OF assms(2,6)] by (auto simp: e_def d_def)
  have d: "66 \<le> length d" "length d \<le> 131072" "d ! 51 \<noteq> 0" "d ! 23 \<noteq> 0"
    using assms(2,3) by (auto simp: d_def icmp_error_def ipproto_icmp_def ipproto_tcp_def ipproto_udp_def)
  note valid = icmp_rewrite_valid [OF assms(1) d(1,2) _ _ _ d(3,4) assms(4,5) [folded d_def]]
  show ?thesis
  proof (cases rule: icmp_rewrite_cases [of dir be api val d])
    case ingress
    with valid [of 54 62 30 e] icmp_rewrite_fields [of d 54 62 30 e] d(1) show ?thesis
      by (simp add: r e_def)
  next
    case egress
    with valid [of 58 64 26 e] icmp_rewrite_fields [of d 58 64 26 e] d(1) show ?thesis
      by (simp add: r e_def)
  qed
qed

subsection \<open>Reference helpers\<close>

text \<open>An implementation of the helpers by their documentation, for a given table of connections.\<close>

definition ref_csum :: "bool \<Rightarrow> sk_buff \<Rightarrow> nat \<Rightarrow> u32 \<Rightarrow> u32 \<Rightarrow> sk_buff \<times> int" where
  "ref_csum be skb off frm to =
     (if off + 2 \<le> length (skb_data skb)
      then (skb\<lparr>skb_data := put_bytes off (store16 be (csum_replace4 (rd16 be (skb_data skb) off) frm to)) (skb_data skb)\<rparr>, 0)
      else (skb, - 14))"

definition ref_store :: "sk_buff \<Rightarrow> nat \<Rightarrow> u8 list \<Rightarrow> sk_buff \<times> int" where
  "ref_store skb off bs =
     (if off + length bs \<le> length (skb_data skb) then (skb\<lparr>skb_data := put_bytes off bs (skb_data skb)\<rparr>, 0)
      else (skb, - 14))"

definition ref_api :: "bool \<Rightarrow> (bpf_lb_conn_key \<Rightarrow> bpf_lb_conn_value option) \<Rightarrow> bpf_api" where
  "ref_api be tab = \<lparr>
     bpf_skb_store_bytes = ref_store,
     bpf_csum_diff = (\<lambda>frm to seed. csum_add (csum_sub seed (csum_continue be 0 frm)) (csum_continue be 0 to)),
     bpf_l3_csum_replace = ref_csum be,
     csum_l4_offset_and_flags = (\<lambda>p. \<lparr>cs_offset = (if p = ipproto_tcp then 16 else if p = ipproto_udp then 6 else 0), cs_flags = 0\<rparr>),
     csum_l4_replace_pseudo = (\<lambda>skb l4 co. ref_csum be skb (l4 + unat (cs_offset co))),
     l4_load_port = (\<lambda>skb off. if off + 2 \<le> length (skb_data skb) then (0, rd16 be (skb_data skb) off) else (- 14, 0)),
     l4_modify_port = (\<lambda>skb l4 off co n old.
       let (skb, r) = ref_csum be skb (l4 + unat (cs_offset co)) (ucast old) (ucast n) in
       if r < 0 then (skb, r) else ref_store skb (l4 + off) (store16 be n)),
     map_lookup_elem = tab,
     IS_ERR = (\<lambda>r. r < 0), TCP_DPORT_OFF = 2, TCP_SPORT_OFF = 0,
     DROP_UNKNOWN_L4 = - 142, DROP_WRITE_ERROR = - 141, DROP_CSUM_L3 = - 153, DROP_CSUM_L4 = - 154\<rparr>"

lemma csum_sub_same: "same16 (int (unat (csum_sub a b))) (int (unat a) - int (unat b))"
  unfolding csum_sub_def by (rule same16_combine [OF csum_add_same [of a "NOT b"] not32_same [of b]]) simp

lemma ref_diff_same:
  assumes "length frm \<le> 20" "length to \<le> 20"
  shows "same16 (int (unat (bpf_csum_diff (ref_api be tab) frm to seed)))
    (int (unat seed) + int (sum16 be to) - int (sum16 be frm))"
proof -
  have c: "unat (csum_continue be 0 bs) = sum16 be bs" if "length bs \<le> 20" for bs
    using unat_csum_continue [of 0 be bs] sum16_small [of bs be] that by simp
  have "same16 (int (unat (csum_add (csum_sub seed (csum_continue be 0 frm)) (csum_continue be 0 to))))
      (int (unat seed) + int (unat (csum_continue be 0 to)) - int (unat (csum_continue be 0 frm)))"
    by (rule same16_combine [OF csum_add_same [of "csum_sub seed (csum_continue be 0 frm)" "csum_continue be 0 to"]
          csum_sub_same [of seed "csum_continue be 0 frm"]]) simp
  then show ?thesis by (simp only: c [OF assms(1)] c [OF assms(2)] ref_api_def bpf_api.simps)
qed

lemma ref_csum_diff_sums: "csum_diff_sums be (ref_api be tab)"
  unfolding csum_diff_sums_def using ref_diff_same [of "[]" _ be tab 0] by simp

definition icmp_example :: sk_buff where
  "icmp_example = \<lparr>skb_data = [0, 0, 0, 0, 0, 0, 0, 0, 0, 0, 0, 0, 8, 0, 69, 0, 0, 52, 0, 0, 0, 0, 64, 1, 102, 192, 10, 0, 0, 9, 10, 0, 0, 1, 3, 1, 248, 198, 0, 0, 0, 0, 69, 0, 0, 40, 0, 0, 0, 0, 64, 6, 102, 206, 10, 0, 0, 1, 10, 0, 0, 2, 3, 232, 0, 80], skb_mark = 0, skb_vlan_proto = 0\<rparr>"

definition conn_example :: bpf_lb_conn_value where
  "conn_example = \<lparr>cv_ref = 1, cv_sip = 0xc0a80001, cv_dip = 0xc0a80002, cv_sport = 7, cv_dport = 9, cv_proto = 6\<rparr>"

theorem icmp_error_translation_valid_witness:
  "csum True (drop 34 (skb_data (fst (nf_nat_icmp_reply_translation True
     (ref_api True (\<lambda>_. Some conn_example)) icmp_example 0)))) = 0"
proof -
  define api where "api = ref_api True (\<lambda>_. Some conn_example)"
  obtain skb' r where e: "nf_nat_icmp_reply_translation True api icmp_example 0 = (skb', r)" by fastforce
  have "icmp_error True (skb_data icmp_example)"
    by (simp add: icmp_error_def icmp_example_def bpf_ntohs_def rd16_def load16_def ETH_P_IP_def
        ipproto_icmp_def ipproto_tcp_def ICMP_DEST_UNREACH_def)
  moreover have "csum True (bytes_at 42 20 (skb_data icmp_example)) = 0" "csum True (drop 34 (skb_data icmp_example)) = 0"
    by (simp_all add: csum_zero_iff same16_def icmp_example_def bytes_at_def unat_load16)
  ultimately show ?thesis
    using icmp_error_translation_valid [OF _ _ _ _ _ _ e, of conn_example] e ref_csum_diff_sums
    by (simp add: api_def ref_api_def icmp_example_def)
qed

end
