(* ===== verification/BpfTcp.thy ===== *)
theory BpfTcp
  imports BpfIcmp
begin

text \<open>
  What the NAT program promises for TCP packets: addresses and ports are those of the table, both
  checksums stay valid, and every other byte is left alone. The helpers of the kernel are
  assumed to do what their documentation says.
\<close>

subsection \<open>TCP packets\<close>

text \<open>The sum of a region after a store inside or outside of it.\<close>

lemma region_put_inside:
  assumes "off + length bs \<le> length d" "r \<le> off" "off + length bs \<le> r + n" "r + n \<le> length d"
    and "even (off - r)" "even (length bs)"
  shows "int (sum16 be (bytes_at r n (put_bytes off bs d))) =
    int (sum16 be (bytes_at r n d)) + int (sum16 be bs) - int (sum16 be (bytes_at off (length bs) d))"
proof -
  have "bytes_at (off - r) (length bs) (bytes_at r n d) = bytes_at off (length bs) d"
    using assms by (simp add: bytes_at_def drop_take min_def)
  moreover have "sum16 be (put_bytes (off - r) bs (bytes_at r n d)) + sum16 be (bytes_at (off - r) (length bs) (bytes_at r n d))
      = sum16 be (bytes_at r n d) + sum16 be bs"
    using assms by (intro sum16_put) auto
  ultimately show ?thesis using bytes_at_put_inside [OF assms(1-4)] by simp
qed

text \<open>What the program relies on of the kernel's helpers and of the helpers of \<open>l4.h\<close> and
  \<open>csum.h\<close>: a helper that does not fail stores what its name says; checksum updates are correct
  in ones' complement arithmetic; the checksum of TCP is at offset 16.\<close>

definition csum_updated :: "bool \<Rightarrow> nat \<Rightarrow> int \<Rightarrow> u8 list \<Rightarrow> u8 list \<Rightarrow> bool" where
  "csum_updated be off diff d d' \<longleftrightarrow> off + 2 \<le> length d \<and>
     (\<exists>c. d' = put_bytes off (store16 be c) d \<and> same16 (int (unat c)) (int (unat (rd16 be d off)) - diff))"

definition store_ok :: "bpf_api \<Rightarrow> bool" where
  "store_ok api \<longleftrightarrow> (\<forall>skb off bs skb' r. bpf_skb_store_bytes api skb off bs = (skb', r) \<longrightarrow>
     r < 0 \<or> off + length bs \<le> length (skb_data skb) \<and> skb' = skb\<lparr>skb_data := put_bytes off bs (skb_data skb)\<rparr>)"

definition diff_ok :: "bool \<Rightarrow> bpf_api \<Rightarrow> bool" where
  "diff_ok be api \<longleftrightarrow> (\<forall>x y seed. same16 (int (unat (bpf_csum_diff api (store32 be x) (store32 be y) seed)))
     (int (unat seed) + int (sum16 be (store32 be y)) - int (sum16 be (store32 be x))))"

definition l3_ok :: "bool \<Rightarrow> bpf_api \<Rightarrow> bool" where
  "l3_ok be api \<longleftrightarrow> (\<forall>skb off to skb' r. bpf_l3_csum_replace api skb off 0 to = (skb', r) \<longrightarrow>
     r < 0 \<or> (\<exists>d'. csum_updated be off (int (unat to)) (skb_data skb) d' \<and> skb' = skb\<lparr>skb_data := d'\<rparr>))"

definition l4_ok :: "bool \<Rightarrow> bpf_api \<Rightarrow> bool" where
  "l4_ok be api \<longleftrightarrow> (\<forall>skb l4 to skb' r.
     csum_l4_replace_pseudo api skb l4 (csum_l4_offset_and_flags api ipproto_tcp) 0 to = (skb', r) \<longrightarrow>
     r < 0 \<or> (\<exists>d'. csum_updated be (l4 + 16) (int (unat to)) (skb_data skb) d' \<and> skb' = skb\<lparr>skb_data := d'\<rparr>))"

definition load_ok :: "bool \<Rightarrow> bpf_api \<Rightarrow> bool" where
  "load_ok be api \<longleftrightarrow> (\<forall>skb off r p. l4_load_port api skb off = (r, p) \<longrightarrow>
     IS_ERR api r \<or> off + 2 \<le> length (skb_data skb) \<and> p = rd16 be (skb_data skb) off)"

definition port_ok :: "bool \<Rightarrow> bpf_api \<Rightarrow> bool" where
  "port_ok be api \<longleftrightarrow> (\<forall>skb l4 off n old skb' r.
     l4_modify_port api skb l4 off (csum_l4_offset_and_flags api ipproto_tcp) n old = (skb', r) \<longrightarrow>
     IS_ERR api r \<or> (\<exists>d'. csum_updated be (l4 + 16) (int (unat n) - int (unat old)) (skb_data skb) d'
       \<and> l4 + off + 2 \<le> length d' \<and> skb' = skb\<lparr>skb_data := put_bytes (l4 + off) (store16 be n) d'\<rparr>))"

definition codes_ok :: "bpf_api \<Rightarrow> bool" where
  "codes_ok api \<longleftrightarrow> cs_offset (csum_l4_offset_and_flags api ipproto_tcp) = 16 \<and> TCP_DPORT_OFF api = 2
     \<and> TCP_SPORT_OFF api = 0 \<and> \<not> IS_ERR api 0
     \<and> DROP_WRITE_ERROR api < 0 \<and> DROP_CSUM_L3 api < 0 \<and> DROP_CSUM_L4 api < 0"

definition bpf_helpers_ok :: "bool \<Rightarrow> bpf_api \<Rightarrow> bool" where
  "bpf_helpers_ok be api \<longleftrightarrow> store_ok api \<and> diff_ok be api \<and> l3_ok be api \<and> l4_ok be api \<and> load_ok be api
     \<and> port_ok be api \<and> codes_ok api"

lemma helper_store: "bpf_helpers_ok be api \<Longrightarrow> bpf_skb_store_bytes api skb off bs = (skb', r) \<Longrightarrow>
    r < 0 \<or> off + length bs \<le> length (skb_data skb) \<and> skb' = skb\<lparr>skb_data := put_bytes off bs (skb_data skb)\<rparr>"
  by (auto simp: bpf_helpers_ok_def store_ok_def)

lemma helper_diff: "bpf_helpers_ok be api \<Longrightarrow> same16 (int (unat (bpf_csum_diff api (store32 be x) (store32 be y) seed)))
    (int (unat seed) + int (sum16 be (store32 be y)) - int (sum16 be (store32 be x)))"
  unfolding bpf_helpers_ok_def diff_ok_def by blast

lemma helper_l3: "bpf_helpers_ok be api \<Longrightarrow> bpf_l3_csum_replace api skb off 0 to = (skb', r) \<Longrightarrow>
    r < 0 \<or> (\<exists>d'. csum_updated be off (int (unat to)) (skb_data skb) d' \<and> skb' = skb\<lparr>skb_data := d'\<rparr>)"
  unfolding bpf_helpers_ok_def l3_ok_def by blast

lemma helper_l4: "bpf_helpers_ok be api \<Longrightarrow>
    csum_l4_replace_pseudo api skb l4 (csum_l4_offset_and_flags api ipproto_tcp) 0 to = (skb', r) \<Longrightarrow>
    r < 0 \<or> (\<exists>d'. csum_updated be (l4 + 16) (int (unat to)) (skb_data skb) d' \<and> skb' = skb\<lparr>skb_data := d'\<rparr>)"
  unfolding bpf_helpers_ok_def l4_ok_def by blast

lemma helper_load: "bpf_helpers_ok be api \<Longrightarrow> l4_load_port api skb off = (r, p) \<Longrightarrow>
    IS_ERR api r \<or> off + 2 \<le> length (skb_data skb) \<and> p = rd16 be (skb_data skb) off"
  unfolding bpf_helpers_ok_def load_ok_def by blast

lemma helper_port: "bpf_helpers_ok be api \<Longrightarrow>
    l4_modify_port api skb l4 off (csum_l4_offset_and_flags api ipproto_tcp) n old = (skb', r) \<Longrightarrow>
    IS_ERR api r \<or> (\<exists>d'. csum_updated be (l4 + 16) (int (unat n) - int (unat old)) (skb_data skb) d'
      \<and> l4 + off + 2 \<le> length d' \<and> skb' = skb\<lparr>skb_data := put_bytes (l4 + off) (store16 be n) d'\<rparr>)"
  unfolding bpf_helpers_ok_def port_ok_def by blast

lemma helper_codes: "bpf_helpers_ok be api \<Longrightarrow> codes_ok api"
  by (simp add: bpf_helpers_ok_def)

definition tcp_layout :: "nat \<Rightarrow> nat \<Rightarrow> u8 list \<Rightarrow> bool" where
  "tcp_layout l4 m d \<longleftrightarrow> 34 \<le> l4 \<and> even l4 \<and> 20 \<le> m \<and> l4 + m \<le> length d"

definition hdr_sum :: "bool \<Rightarrow> nat \<Rightarrow> u8 list \<Rightarrow> int" where
  "hdr_sum be l4 d = int (sum16 be (bytes_at 14 (l4 - 14) d))"

definition adr_sum :: "bool \<Rightarrow> u8 list \<Rightarrow> int" where
  "adr_sum be d = int (sum16 be (bytes_at 26 8 d))"

definition seg_sum :: "bool \<Rightarrow> nat \<Rightarrow> nat \<Rightarrow> u8 list \<Rightarrow> int" where
  "seg_sum be l4 m d = int (sum16 be (bytes_at l4 m d))"

lemmas part_sums = hdr_sum_def adr_sum_def seg_sum_def

text \<open>The bytes that the rewriting may change: checksum and addresses of the IP header, ports
  and checksum of the segment.\<close>

definition nat_field :: "nat \<Rightarrow> nat \<Rightarrow> bool" where
  "nat_field l4 i \<longleftrightarrow> 24 \<le> i \<and> i < 34 \<or> l4 \<le> i \<and> i < l4 + 4 \<or> i = l4 + 16 \<or> i = l4 + 17"

definition same_rest :: "nat \<Rightarrow> u8 list \<Rightarrow> u8 list \<Rightarrow> bool" where
  "same_rest l4 d d' \<longleftrightarrow> length d' = length d \<and> (\<forall>i. \<not> nat_field l4 i \<longrightarrow> d' ! i = d ! i)"

lemma same_rest_refl [simp]: "same_rest l4 d d"
  by (simp add: same_rest_def)

lemma same_rest_trans: "same_rest l4 d e \<Longrightarrow> same_rest l4 e f \<Longrightarrow> same_rest l4 d f"
  by (simp add: same_rest_def)

lemma same_rest_put:
  assumes "off + length bs \<le> length d" "\<And>i. off \<le> i \<Longrightarrow> i < off + length bs \<Longrightarrow> nat_field l4 i"
  shows "same_rest l4 d (put_bytes off bs d)"
  using assms nth_put_other [OF assms(1)] unfolding same_rest_def by (metis leI length_put_bytes)

lemma same_rest_layout: "same_rest l4 d e \<Longrightarrow> tcp_layout l4 m d \<Longrightarrow> tcp_layout l4 m e"
  by (simp add: same_rest_def tcp_layout_def)

lemma put_addr:
  assumes "tcp_layout l4 m d" "off = 26 \<or> off = 30" "length bs = 4"
  shows "hdr_sum be l4 (put_bytes off bs d) = hdr_sum be l4 d + int (sum16 be bs) - int (sum16 be (bytes_at off 4 d))"
    and "adr_sum be (put_bytes off bs d) = adr_sum be d + int (sum16 be bs) - int (sum16 be (bytes_at off 4 d))"
    and "seg_sum be l4 m (put_bytes off bs d) = seg_sum be l4 m d"
    and "same_rest l4 d (put_bytes off bs d)"
    and "x + k \<le> off \<or> off + 4 \<le> x \<Longrightarrow> bytes_at x k (put_bytes off bs d) = bytes_at x k d"
    and "bytes_at off 4 (put_bytes off bs d) = bs"
proof -
  have l: "off + length bs \<le> length d" using assms unfolding tcp_layout_def by auto
  show "hdr_sum be l4 (put_bytes off bs d) = hdr_sum be l4 d + int (sum16 be bs) - int (sum16 be (bytes_at off 4 d))"
    "adr_sum be (put_bytes off bs d) = adr_sum be d + int (sum16 be bs) - int (sum16 be (bytes_at off 4 d))"
    using region_put_inside [OF l, of 14 "l4 - 14" be] region_put_inside [OF l, of 26 8 be] assms
    by (auto simp: part_sums tcp_layout_def)
  show "seg_sum be l4 m (put_bytes off bs d) = seg_sum be l4 m d"
    using assms l unfolding part_sums tcp_layout_def by (subst bytes_at_put_other) auto
  show "same_rest l4 d (put_bytes off bs d)"
    using l assms(2,3) by (intro same_rest_put) (auto simp: nat_field_def)
  show "x + k \<le> off \<or> off + 4 \<le> x \<Longrightarrow> bytes_at x k (put_bytes off bs d) = bytes_at x k d"
    using l assms(3) by (intro bytes_at_put_other) auto
  show "bytes_at off 4 (put_bytes off bs d) = bs" using bytes_at_put_same [OF l] assms(3) by simp
qed

text \<open>One address rewritten, with the partial sum that goes with it.\<close>

definition addr_moved :: "bool \<Rightarrow> nat \<Rightarrow> nat \<Rightarrow> nat \<Rightarrow> u32 \<Rightarrow> u8 list \<Rightarrow> u32 \<Rightarrow> u8 list \<Rightarrow> u32 \<Rightarrow> bool" where
  "addr_moved be l4 m off addr d s d' s' \<longleftrightarrow> same_rest l4 d d'
     \<and> same16 (hdr_sum be l4 d' - int (unat s')) (hdr_sum be l4 d - int (unat s))
     \<and> same16 (adr_sum be d' - int (unat s')) (adr_sum be d - int (unat s))
     \<and> seg_sum be l4 m d' = seg_sum be l4 m d
     \<and> (\<forall>x k. x + k \<le> off \<or> off + 4 \<le> x \<longrightarrow> bytes_at x k d' = bytes_at x k d)
     \<and> bytes_at off 4 d' = store32 be addr"

lemma manip_addr_step:
  assumes ok: "bpf_helpers_ok be api" and lay: "tcp_layout l4 m (skb_data skb)" and off: "off = 26 \<or> off = 30"
    and call: "manip_addr be api skb off (Some nw) (Some (rd32 be (skb_data skb) off)) s = (skb', Some s')"
  shows "addr_moved be l4 m off nw (skb_data skb) s (skb_data skb') s'"
proof -
  define d where "d = skb_data skb"
  have lay: "tcp_layout l4 m d" using lay by (simp add: d_def)
  have l: "off + 4 \<le> length d" using lay off unfolding tcp_layout_def by auto
  have "(nw = rd32 be d off \<and> skb' = skb \<and> s' = s) \<or>
      (skb' = skb\<lparr>skb_data := put_bytes off (store32 be nw) d\<rparr>
       \<and> s' = bpf_csum_diff api (store32 be (rd32 be d off)) (store32 be nw) s)"
    using call helper_store [OF ok, of skb off "store32 be nw"]
    by (auto simp: manip_addr_def d_def Let_def split: if_splits prod.splits)
  then show ?thesis
  proof
    assume "nw = rd32 be d off \<and> skb' = skb \<and> s' = s"
    then show ?thesis using store32_rd32 [OF l] by (simp add: addr_moved_def same16_def d_def)
  next
    assume new: "skb' = skb\<lparr>skb_data := put_bytes off (store32 be nw) d\<rparr>
       \<and> s' = bpf_csum_diff api (store32 be (rd32 be d off)) (store32 be nw) s"
    have "same16 (int (unat s')) (int (unat s) + int (sum16 be (store32 be nw)) - int (sum16 be (bytes_at off 4 d)))"
      using helper_diff [OF ok, of "rd32 be d off" nw s] new by (simp only: store32_rd32 [OF l])
    note s' = same16_sym [OF this]
    note p = put_addr [OF lay off length_store32 [of be nw]]
    have "same16 (hdr_sum be l4 (put_bytes off (store32 be nw) d) - int (unat s')) (hdr_sum be l4 d - int (unat s))"
      "same16 (adr_sum be (put_bytes off (store32 be nw) d) - int (unat s')) (adr_sum be d - int (unat s))"
      by (rule same16_shift [OF _ s'], simp only: p(1,2), simp)+
    then show ?thesis using new p(3-6) by (simp add: addr_moved_def d_def)
  qed
qed

text \<open>A checksum update, of the header or of the segment.\<close>

lemma csum_updated_header:
  assumes "tcp_layout l4 m d" "csum_updated be 24 diff d d'"
  shows "same_rest l4 d d' \<and> same16 (hdr_sum be l4 d') (hdr_sum be l4 d - diff) \<and> adr_sum be d' = adr_sum be d
    \<and> seg_sum be l4 m d' = seg_sum be l4 m d \<and> (\<forall>x k. 26 \<le> x \<longrightarrow> bytes_at x k d' = bytes_at x k d)"
proof -
  obtain c where d': "d' = put_bytes 24 (store16 be c) d" and l: "24 + 2 \<le> length d"
    and c: "same16 (int (unat c)) (int (unat (rd16 be d 24)) - diff)"
    using assms(2) unfolding csum_updated_def by auto
  have o: "bytes_at x k d' = bytes_at x k d" if "26 \<le> x" for x k
    unfolding d' using l that by (intro bytes_at_put_other) auto
  have "hdr_sum be l4 d' = hdr_sum be l4 d + int (sum16 be (store16 be c)) - int (sum16 be (bytes_at 24 (length (store16 be c)) d))"
    unfolding part_sums d' using assms(1) l by (intro region_put_inside) (auto simp: tcp_layout_def)
  then have "hdr_sum be l4 d' = hdr_sum be l4 d + int (unat c) - int (unat (rd16 be d 24))"
    by (simp only: sum16_store sum16_store16(2) sum16_rd16 [OF l])
  then have "same16 (hdr_sum be l4 d') (hdr_sum be l4 d - diff)" by (intro same16_shift [OF _ c]) simp
  moreover have "same_rest l4 d d'" unfolding d' using l by (intro same_rest_put) (auto simp: nat_field_def)
  ultimately show ?thesis using o assms(1) by (simp add: part_sums tcp_layout_def)
qed

lemma csum_updated_segment:
  assumes "tcp_layout l4 m d" "csum_updated be (l4 + 16) diff d d'"
  shows "same_rest l4 d d' \<and> same16 (seg_sum be l4 m d') (seg_sum be l4 m d - diff) \<and> adr_sum be d' = adr_sum be d
    \<and> hdr_sum be l4 d' = hdr_sum be l4 d \<and> (\<forall>x k. x + k \<le> l4 + 16 \<longrightarrow> bytes_at x k d' = bytes_at x k d)"
proof -
  obtain c where d': "d' = put_bytes (l4 + 16) (store16 be c) d" and l: "l4 + 16 + 2 \<le> length d"
    and c: "same16 (int (unat c)) (int (unat (rd16 be d (l4 + 16))) - diff)"
    using assms(2) unfolding csum_updated_def by auto
  have o: "bytes_at x k d' = bytes_at x k d" if "x + k \<le> l4 + 16" for x k
    unfolding d' using l that by (intro bytes_at_put_other) auto
  have "seg_sum be l4 m d' = seg_sum be l4 m d + int (sum16 be (store16 be c)) - int (sum16 be (bytes_at (l4 + 16) (length (store16 be c)) d))"
    unfolding part_sums d' using assms(1) l by (intro region_put_inside) (auto simp: tcp_layout_def)
  then have "seg_sum be l4 m d' = seg_sum be l4 m d + int (unat c) - int (unat (rd16 be d (l4 + 16)))"
    by (simp only: sum16_store sum16_store16(2) sum16_rd16 [OF l])
  then have "same16 (seg_sum be l4 m d') (seg_sum be l4 m d - diff)" by (intro same16_shift [OF _ c]) simp
  moreover have "same_rest l4 d d'" unfolding d' using l by (intro same_rest_put) (auto simp: nat_field_def)
  ultimately show ?thesis using o assms(1) by (simp add: part_sums tcp_layout_def)
qed

lemma manip_port_step:
  assumes ok: "bpf_helpers_ok be api" and lay: "tcp_layout l4 m (skb_data skb)" and off: "off = 0 \<or> off = 2"
    and call: "manip_port api skb l4 off (csum_l4_offset_and_flags api ipproto_tcp) (Some n)
      (Some (rd16 be (skb_data skb) (l4 + off))) = (skb', None)"
    and d: "d = skb_data skb" "d' = skb_data skb'"
  shows "same_rest l4 d d' \<and> same16 (seg_sum be l4 m d') (seg_sum be l4 m d)
    \<and> adr_sum be d' = adr_sum be d \<and> hdr_sum be l4 d' = hdr_sum be l4 d
    \<and> (\<forall>x k. x + k \<le> l4 + off \<or> l4 + off + 2 \<le> x \<and> x + k \<le> l4 + 16 \<longrightarrow> bytes_at x k d' = bytes_at x k d)
    \<and> bytes_at (l4 + off) 2 d' = store16 be n"
proof -
  have l: "l4 + off + 2 \<le> length d" "l4 + 18 \<le> length d" using lay off unfolding tcp_layout_def d by auto
  define old where "old = rd16 be d (l4 + off)"
  have "(n = old \<and> skb' = skb) \<or> (\<exists>d1. csum_updated be (l4 + 16) (int (unat n) - int (unat old)) d d1
      \<and> skb' = skb\<lparr>skb_data := put_bytes (l4 + off) (store16 be n) d1\<rparr>)"
    using call helper_port [OF ok, of skb l4 off n old]
    by (auto simp: manip_port_def old_def d Let_def split: if_splits prod.splits)
  then show ?thesis
  proof (elim disjE exE conjE)
    assume n: "n = old" "skb' = skb"
    have "bytes_at (l4 + off) 2 d = store16 be old" using l by (simp add: old_def rd16_def store16_load16 bytes_at_two)
    with n show ?thesis by (simp add: d same16_def)
  next
    fix d1 assume u: "csum_updated be (l4 + 16) (int (unat n) - int (unat old)) d d1"
      and skb': "skb' = skb\<lparr>skb_data := put_bytes (l4 + off) (store16 be n) d1\<rparr>"
    have d': "d' = put_bytes (l4 + off) (store16 be n) d1" by (simp add: d skb')
    note u = csum_updated_segment [OF lay [folded d] u]
    then have d1: "length d1 = length d" "tcp_layout l4 m d1"
      using same_rest_layout lay d(1) by (auto simp: same_rest_def)
    have old1: "rd16 be d1 (l4 + off) = old"
      unfolding old_def using u l off d1(1) by (intro rd16_bytes) auto
    have l1: "l4 + off + length (store16 be n) \<le> length d1" "l4 + off + 2 \<le> length d1" using l d1 by simp_all
    have o: "bytes_at x k d' = bytes_at x k d1" if "x + k \<le> l4 + off \<or> l4 + off + 2 \<le> x" for x k
      unfolding d' using l1 that by (intro bytes_at_put_other) auto
    have "seg_sum be l4 m d' = seg_sum be l4 m d1 + int (sum16 be (store16 be n)) - int (sum16 be (bytes_at (l4 + off) (length (store16 be n)) d1))"
      unfolding part_sums d' using d1(2) l1 off by (intro region_put_inside) (auto simp: tcp_layout_def)
    then have "seg_sum be l4 m d' = seg_sum be l4 m d1 + int (unat n) - int (unat old)"
      by (simp only: sum16_store sum16_store16(2) sum16_rd16 [OF l1(2)] old1)
    then have seg: "same16 (seg_sum be l4 m d') (seg_sum be l4 m d)"
      using u by (intro same16_shift [of "seg_sum be l4 m d'" _ "seg_sum be l4 m d1"]) auto
    have "same_rest l4 d1 d'" unfolding d' using l1 off by (intro same_rest_put) (auto simp: nat_field_def)
    then have "same_rest l4 d d'" using u same_rest_trans by blast
    moreover have "adr_sum be d' = adr_sum be d1" "hdr_sum be l4 d' = hdr_sum be l4 d1"
      using d1(2) by (auto simp: part_sums tcp_layout_def o)
    moreover have "bytes_at (l4 + off) 2 d' = store16 be n"
      unfolding d' using bytes_at_put_same [OF l1(1)] by simp
    ultimately show ?thesis using u seg o off by (auto simp: skb' d(2))
  qed
qed

text \<open>A successful rewriting, step by step.\<close>

lemma manip_success:
  assumes ok: "bpf_helpers_ok be api" and lay: "tcp_layout l4 m d" and d: "d = skb_data skb"
    and call: "nf_nat_manip_pkt be api skb (Some nd) od (Some ns) os (Some ndp) odp (Some nsp) osp
      ipproto_tcp 14 l4 = (skb', 0)"
  obtains skb1 s1 skb2 s2 d3 d4 skb5 where
    "manip_addr be api skb 30 (Some nd) od 0 = (skb1, Some s1)"
    "manip_addr be api skb1 26 (Some ns) os s1 = (skb2, Some s2)"
    "csum_updated be 24 (int (unat s2)) (skb_data skb2) d3"
    "csum_updated be (l4 + 16) (int (unat s2)) d3 d4"
    "manip_port api (skb2\<lparr>skb_data := d4\<rparr>) l4 2 (csum_l4_offset_and_flags api ipproto_tcp) (Some ndp) odp = (skb5, None)"
    "manip_port api skb5 l4 0 (csum_l4_offset_and_flags api ipproto_tcp) (Some nsp) osp = (skb', None)"
proof -
  note c = helper_codes [OF ok, unfolded codes_ok_def]
  define co where "co = csum_l4_offset_and_flags api ipproto_tcp"
  obtain skb1 o1 where 1: "manip_addr be api skb 30 (Some nd) od 0 = (skb1, o1)" by fastforce
  obtain s1 where o1: "o1 = Some s1" using call c by (cases o1) (auto simp: nf_nat_manip_pkt_def 1 Let_def)
  obtain skb2 o2 where 2: "manip_addr be api skb1 26 (Some ns) os s1 = (skb2, o2)" by fastforce
  obtain s2 where o2: "o2 = Some s2" using call c by (cases o2) (auto simp: nf_nat_manip_pkt_def 1 o1 2 Let_def)
  obtain skb3 r3 where 3: "bpf_l3_csum_replace api skb2 24 0 s2 = (skb3, r3)" by fastforce
  have r3: "\<not> r3 < 0" using call c by (auto simp: nf_nat_manip_pkt_def 1 o1 2 o2 3 Let_def)
  obtain skb4 r4 where 4: "csum_l4_replace_pseudo api skb3 l4 co 0 s2 = (skb4, r4)" by fastforce
  have r4: "\<not> r4 < 0" using call c by (auto simp: nf_nat_manip_pkt_def 1 o1 2 o2 3 r3 co_def [symmetric] 4 Let_def)
  obtain d3 d4 where d34: "csum_updated be 24 (int (unat s2)) (skb_data skb2) d3" "skb3 = skb2\<lparr>skb_data := d3\<rparr>"
      "csum_updated be (l4 + 16) (int (unat s2)) d3 d4" "skb4 = skb2\<lparr>skb_data := d4\<rparr>"
    using helper_l3 [OF ok 3] helper_l4 [OF ok 4 [unfolded co_def]] r3 r4 by auto
  obtain skb5 o5 where 5: "manip_port api skb4 l4 2 co (Some ndp) odp = (skb5, o5)" by fastforce
  obtain skb6 o6 where 6: "manip_port api skb5 l4 0 co (Some nsp) osp = (skb6, o6)" by fastforce
  have ports: "(case o5 of Some r \<Rightarrow> (skb5, r) | None \<Rightarrow> (case o6 of Some r \<Rightarrow> (skb6, r) | None \<Rightarrow> (skb6, 0))) = (skb', 0)"
    using call c by (simp add: nf_nat_manip_pkt_def 1 o1 2 o2 3 r3 co_def [symmetric] 4 r4 5 6 Let_def)
  have err: "manip_port api t l4 off co n old = (t', Some r) \<Longrightarrow> r \<noteq> 0" for t off n old t' r
    using c by (auto simp: manip_port_def Let_def split: option.splits if_splits prod.splits)
  have "o5 = None" using ports err [of skb4 2 "Some ndp" odp skb5] 5 by (cases o5) auto
  moreover have "o6 = None" "skb6 = skb'" using ports \<open>o5 = None\<close> err [of skb5 0 "Some nsp" osp skb6] 6 by (cases o6; auto)+
  ultimately show thesis using that [OF 1 [unfolded o1] 2 [unfolded o2] d34(1,3)] 5 6
    by (simp add: d34(4) co_def)
qed

text \<open>The rewriting keeps the sum of the header and the sum of addresses and segment.\<close>

definition nat_moved :: "bool \<Rightarrow> nat \<Rightarrow> nat \<Rightarrow> u8 list \<Rightarrow> u8 list \<Rightarrow> bool" where
  "nat_moved be l4 m d d' \<longleftrightarrow> same_rest l4 d d' \<and> same16 (hdr_sum be l4 d') (hdr_sum be l4 d)
     \<and> same16 (adr_sum be d' + seg_sum be l4 m d') (adr_sum be d + seg_sum be l4 m d)"

lemma nat_moved_trans: "nat_moved be l4 m d e \<Longrightarrow> nat_moved be l4 m e f \<Longrightarrow> nat_moved be l4 m d f"
  unfolding nat_moved_def by (blast intro: same_rest_trans same16_trans)

lemma same_rest_length: "same_rest l4 d d' \<Longrightarrow> tcp_layout l4 m d \<Longrightarrow> length d' = length d \<and> tcp_layout l4 m d'"
  by (simp add: same_rest_def tcp_layout_def)

lemma manip_addresses:
  assumes ok: "bpf_helpers_ok be api" and lay: "tcp_layout l4 m d" and d: "d = skb_data skb"
    and call1: "manip_addr be api skb 30 (Some nd) (Some (rd32 be d 30)) 0 = (skb1, Some s1)"
    and call2: "manip_addr be api skb1 26 (Some ns) (Some (rd32 be d 26)) s1 = (skb2, Some s2)"
    and call3: "csum_updated be 24 (int (unat s2)) (skb_data skb2) d3"
    and call4: "csum_updated be (l4 + 16) (int (unat s2)) d3 d4"
  shows "nat_moved be l4 m d d4 \<and> bytes_at 30 4 d4 = store32 be nd \<and> bytes_at 26 4 d4 = store32 be ns
    \<and> (\<forall>x k. 34 \<le> x \<longrightarrow> x + k \<le> l4 + 16 \<longrightarrow> bytes_at x k d4 = bytes_at x k d)"
proof -
  define d1 d2 where "d1 = skb_data skb1" and "d2 = skb_data skb2"
  have lim: "34 \<le> l4" "34 \<le> length d" using lay by (auto simp: tcp_layout_def)
  have a1: "addr_moved be l4 m 30 nd d 0 d1 s1"
    unfolding d d1_def by (rule manip_addr_step [OF ok lay [unfolded d] disjI2 [OF refl] call1 [unfolded d]])
  then have l1: "length d1 = length d" "tcp_layout l4 m d1"
    using same_rest_length [OF _ lay, of d1] by (simp_all add: addr_moved_def)
  have old: "rd32 be d 26 = rd32 be d1 26" using a1 l1 lim by (intro rd32_bytes) (auto simp: addr_moved_def)
  have a2: "addr_moved be l4 m 26 ns d1 s1 d2 s2" unfolding d1_def d2_def
    by (rule manip_addr_step [OF ok l1(2) [unfolded d1_def] disjI1 [OF refl] call2 [unfolded old d1_def]])
  then have lay2: "tcp_layout l4 m d2" using same_rest_length [OF _ l1(2), of d2] by (simp add: addr_moved_def)
  note a3 = csum_updated_header [OF lay2 call3 [folded d2_def]]
  have lay3: "tcp_layout l4 m d3" using a3 same_rest_length [OF _ lay2, of d3] by simp
  note a4 = csum_updated_segment [OF lay3 call4]
  have rest: "same_rest l4 d d4" using a1 a2 a3 a4 unfolding addr_moved_def by (meson same_rest_trans)
  have h: "same16 (hdr_sum be l4 d1 - int (unat s1)) (hdr_sum be l4 d - 0)"
    "same16 (hdr_sum be l4 d2 - int (unat s2)) (hdr_sum be l4 d1 - int (unat s1))"
    "same16 (adr_sum be d1 - int (unat s1)) (adr_sum be d - 0)"
    "same16 (adr_sum be d2 - int (unat s2)) (adr_sum be d1 - int (unat s1))"
    using a1 a2 by (simp_all add: addr_moved_def)
  have "same16 (hdr_sum be l4 d3) (hdr_sum be l4 d)"
    using same16_trans [of "hdr_sum be l4 d3", OF _ same16_trans [OF h(2,1)]] a3 by simp
  moreover have "same16 (adr_sum be d4 + seg_sum be l4 m d4) (adr_sum be d + seg_sum be l4 m d)"
  proof (rule same16_combine [OF same16_trans [OF h(4,3)]])
    show "same16 (seg_sum be l4 m d4) (seg_sum be l4 m d3 - int (unat s2))" using a4 by simp
    have "seg_sum be l4 m d3 = seg_sum be l4 m d" "adr_sum be d4 = adr_sum be d2"
      using a1 a2 a3 a4 by (simp_all add: addr_moved_def)
    then show "adr_sum be d4 + seg_sum be l4 m d4 - (adr_sum be d + seg_sum be l4 m d) =
        adr_sum be d2 - int (unat s2) - (adr_sum be d - 0) + (seg_sum be l4 m d4 - (seg_sum be l4 m d3 - int (unat s2)))"
      by linarith
  qed
  moreover have "bytes_at x k d4 = bytes_at x k d" if "34 \<le> x" "x + k \<le> l4 + 16" for x k
    using a1 a2 a3 a4 that by (simp add: addr_moved_def)
  moreover have "bytes_at 30 4 d4 = store32 be nd" "bytes_at 26 4 d4 = store32 be ns"
    using a1 a2 a3 a4 lim(1) by (simp_all add: addr_moved_def)
  ultimately show ?thesis using rest a4 by (simp add: nat_moved_def)
qed

lemma manip_ports:
  assumes ok: "bpf_helpers_ok be api" and lay: "tcp_layout l4 m d" and d: "d = skb_data skb" "d' = skb_data skb'"
    and call1: "manip_port api skb l4 2 (csum_l4_offset_and_flags api ipproto_tcp) (Some ndp)
      (Some (rd16 be d (l4 + 2))) = (skb1, None)"
    and call2: "manip_port api skb1 l4 0 (csum_l4_offset_and_flags api ipproto_tcp) (Some nsp)
      (Some (rd16 be d l4)) = (skb', None)"
  shows "nat_moved be l4 m d d' \<and> bytes_at (l4 + 2) 2 d' = store16 be ndp \<and> bytes_at l4 2 d' = store16 be nsp
    \<and> (\<forall>x k. x + k \<le> l4 \<longrightarrow> bytes_at x k d' = bytes_at x k d)"
proof -
  define d1 where "d1 = skb_data skb1"
  note a1 = manip_port_step [OF ok lay [unfolded d] disjI2 [OF refl] call1 [unfolded d] d(1) d1_def]
  have l1: "length d1 = length d" "tcp_layout l4 m d1" using a1 same_rest_length [OF _ lay, of d1] by simp_all
  have "rd16 be d l4 = rd16 be d1 (l4 + 0)"
    using l1 lay a1 rd16_bytes [of l4 d d1 be] by (auto simp: tcp_layout_def)
  note a2 = manip_port_step [OF ok l1(2) [unfolded d1_def] disjI1 [OF refl] call2 [unfolded this d1_def] d1_def d(2)]
  have "same_rest l4 d d'" using a1 a2 same_rest_trans by blast
  moreover have "same16 (seg_sum be l4 m d') (seg_sum be l4 m d)" using a1 a2 same16_trans by blast
  then have "same16 (adr_sum be d' + seg_sum be l4 m d') (adr_sum be d + seg_sum be l4 m d)"
    by (rule same16_shift [rotated]) (use a1 a2 in simp)
  ultimately show ?thesis using a1 a2 by (auto simp: nat_moved_def same16_def)
qed

text \<open>A TCP packet over IPv4 with a header of at least five words, the offset of its segment and
  the key of its connection.\<close>

definition tcp_frame :: "bool \<Rightarrow> u8 list \<Rightarrow> bool" where
  "tcp_frame be d \<longleftrightarrow> bpf_ntohs be (rd16 be d 12) = ETH_P_IP \<and> d ! 23 = ipproto_tcp \<and> 20 \<le> ipv4_hdrlen d 14"

definition tcp_key :: "bool \<Rightarrow> int \<Rightarrow> sk_buff \<Rightarrow> bpf_lb_conn_key" where
  "tcp_key be dir skb = (let d = skb_data skb; l4 = 14 + ipv4_hdrlen d 14 in
     \<lparr>ck_sip = rd32 be d 26, ck_dip = rd32 be d 30, ck_vip = (if dir = 1 then skb_mark skb else 0),
      ck_sport = rd16 be d l4, ck_dport = rd16 be d (l4 + 2),
      ck_vport = (if dir = 1 then ucast (skb_vlan_proto skb) else 0), ck_proto = ipproto_tcp, ck_pad = 0\<rparr>)"

lemma ntohs_swap: "bpf_ntohs be (bpf_ntohs be x) = x"
  by (rule bit_word_eqI) (auto simp: bpf_ntohs_def bit_simps dest: bit_imp_le_length)

lemma tcp_frame_parsed:
  assumes "tcp_frame be d" "34 \<le> length d" "d = skb_data skb"
  shows "validate_ethertype be skb = Some (bpf_ntohs be ETH_P_IP)" "validate_ip_data skb iphdr_size = Some 14"
proof -
  have "rd16 be d 12 = bpf_ntohs be ETH_P_IP" using assms(1) ntohs_swap unfolding tcp_frame_def by metis
  moreover have "bpf_ntohs be (bpf_ntohs be ETH_P_IP) = ETH_P_IP" by (rule ntohs_swap)
  ultimately show "validate_ethertype be skb = Some (bpf_ntohs be ETH_P_IP)"
    using assms(2,3) by (simp add: validate_ethertype_def ETH_HLEN_def ETH_P_IP_def ETH_P_802_3_MIN_def)
  show "validate_ip_data skb iphdr_size = Some 14"
    using assms(2,3) by (simp add: validate_ip_data_def ETH_HLEN_def iphdr_size_def)
qed

lemma extract_tcp:
  assumes ok: "bpf_helpers_ok be api" and e: "extract_l4_info api skb ipproto_tcp l4 p = (r, pkt)"
  shows "IS_ERR api r \<or> l4_sport pkt = rd16 be (skb_data skb) l4 \<and> l4_dport pkt = rd16 be (skb_data skb) (l4 + 2)"
proof -
  note c = helper_codes [OF ok, unfolded codes_ok_def]
  obtain r1 p1 r2 p2 r3 p3 where l: "l4_load_port api skb (l4 + 12) = (r1, p1)"
    "l4_load_port api skb (l4 + 2) = (r2, p2)" "l4_load_port api skb (l4 + 0) = (r3, p3)" by (metis prod.exhaust)
  then show ?thesis using e c helper_load [OF ok l(2)] helper_load [OF ok l(3)]
    by (auto simp: extract_l4_info_def extract_l4_ports_def Let_def split: if_splits)
qed

text \<open>The TCP checksum of a packet whose segment has \<open>m\<close> bytes: pseudo header and segment.\<close>

definition tcp_pseudo :: "nat \<Rightarrow> nat \<Rightarrow> u8 list \<Rightarrow> u8 list" where
  "tcp_pseudo l4 m d = bytes_at 26 8 d @ [0, ipproto_tcp] @ be_put 2 m @ bytes_at l4 m d"

lemma sum16_pseudo:
  "34 \<le> length d \<Longrightarrow> int (sum16 be (tcp_pseudo l4 m d)) =
    adr_sum be d + seg_sum be l4 m d + int (sum16 be ([0, ipproto_tcp] @ be_put 2 m))"
proof -
  assume "34 \<le> length d"
  then have "sum16 be (tcp_pseudo l4 m d) = sum16 be (bytes_at 26 8 d)
      + sum16 be (([0, ipproto_tcp] @ be_put 2 m) @ bytes_at l4 m d)"
    by (simp add: tcp_pseudo_def sum16_append)
  also have "sum16 be (([0, ipproto_tcp] @ be_put 2 m) @ bytes_at l4 m d) =
      sum16 be ([0, ipproto_tcp] @ be_put 2 m) + sum16 be (bytes_at l4 m d)"
    by (rule sum16_append) simp
  finally show ?thesis by (simp add: part_sums)
qed

lemma nat_moved_valid:
  assumes mv: "nat_moved be l4 m d d'" and lay: "tcp_layout l4 m d" and len: "length d \<le> 65535"
    and p: "d ! 23 \<noteq> 0"
  shows "csum be (bytes_at 14 (l4 - 14) d) = 0 \<Longrightarrow> csum be (bytes_at 14 (l4 - 14) d') = 0"
    and "csum be (tcp_pseudo l4 m d) = 0 \<Longrightarrow> csum be (tcp_pseudo l4 m d') = 0"
proof -
  have r: "same_rest l4 d d'" using mv by (simp add: nat_moved_def)
  have l: "length d' = length d" "34 \<le> l4" "l4 + m \<le> length d" using r lay by (auto simp: same_rest_def tcp_layout_def)
  have "d' ! 23 \<noteq> 0" using r p l by (simp add: same_rest_def nat_field_def)
  then have pos: "0 < sum16 be (bytes_at 14 (l4 - 14) d')"
    using l by (intro sum16_pos [of 9]) (simp_all add: bytes_at_def)
  have "length (bytes_at 14 (l4 - 14) e) \<le> 131072" if "length e = length d" for e :: "u8 list"
    using that len by (simp add: bytes_at_def)
  note z = csum_zero_iff [OF this]
  show "csum be (bytes_at 14 (l4 - 14) d) = 0 \<Longrightarrow> csum be (bytes_at 14 (l4 - 14) d') = 0"
    using mv pos same16_trans unfolding z [OF refl] z [OF l(1)] nat_moved_def hdr_sum_def by blast
  have "length (tcp_pseudo l4 m e) \<le> 131072" if "length e = length d" for e
    using that l len by (simp add: tcp_pseudo_def bytes_at_def)
  note y = csum_zero_iff [OF this]
  have "0 < sum16 be (tcp_pseudo l4 m d')"
    using l by (intro sum16_pos [of 9]) (simp_all add: tcp_pseudo_def nth_append ipproto_tcp_def)
  moreover have "same16 (int (sum16 be (tcp_pseudo l4 m d'))) (int (sum16 be (tcp_pseudo l4 m d)))"
    by (rule same16_shift [of _ _ "adr_sum be d' + seg_sum be l4 m d'" "adr_sum be d + seg_sum be l4 m d"])
      (use mv l in \<open>simp_all add: sum16_pseudo nat_moved_def\<close>)
  ultimately show "csum be (tcp_pseudo l4 m d) = 0 \<Longrightarrow> csum be (tcp_pseudo l4 m d') = 0"
    using same16_trans unfolding y [OF refl] y [OF l(1)] by blast
qed

lemma manip_valid:
  assumes ok: "bpf_helpers_ok be api" and lay: "tcp_layout l4 m d" and d: "d = skb_data skb" "d' = skb_data skb'"
    and call: "nf_nat_manip_pkt be api skb (Some nd) (Some (rd32 be d 30)) (Some ns) (Some (rd32 be d 26))
      (Some ndp) (Some (rd16 be d (l4 + 2))) (Some nsp) (Some (rd16 be d l4)) ipproto_tcp 14 l4 = (skb', 0)"
  shows "nat_moved be l4 m d d' \<and> bytes_at 30 4 d' = store32 be nd \<and> bytes_at 26 4 d' = store32 be ns
    \<and> bytes_at (l4 + 2) 2 d' = store16 be ndp \<and> bytes_at l4 2 d' = store16 be nsp"
proof (rule manip_success [OF ok lay d(1) call], goal_cases)
  case (1 skb1 s1 skb2 s2 d3 d4 skb5)
  note a = manip_addresses [OF ok lay d(1) 1(1-4)]
  have l4: "34 \<le> l4" "l4 + 4 \<le> length d" using lay by (auto simp: tcp_layout_def)
  have len: "length d4 = length d" "tcp_layout l4 m d4"
    using a same_rest_length [OF _ lay, of d4] by (simp_all add: nat_moved_def)
  have old: "rd16 be d (l4 + 2) = rd16 be d4 (l4 + 2)" "rd16 be d l4 = rd16 be d4 l4"
    using a l4 len(1) by (auto intro!: rd16_bytes)
  have "d4 = skb_data (skb2\<lparr>skb_data := d4\<rparr>)" by simp
  note b = manip_ports [OF ok len(2) this d(2) 1(5) [unfolded old] 1(6) [unfolded old]]
  show ?case using a b l4(1) nat_moved_trans [of be l4 m d d4 d'] by simp
qed

text \<open>Helpers that fail only outside of the packet.\<close>

definition helpers_reliable :: "bpf_api \<Rightarrow> bool" where
  "helpers_reliable api \<longleftrightarrow>
     (\<forall>skb off bs. off + length bs \<le> length (skb_data skb) \<longrightarrow> 0 \<le> snd (bpf_skb_store_bytes api skb off bs))
   \<and> (\<forall>skb off to. off + 2 \<le> length (skb_data skb) \<longrightarrow> 0 \<le> snd (bpf_l3_csum_replace api skb off 0 to))
   \<and> (\<forall>skb l4 to. l4 + 18 \<le> length (skb_data skb) \<longrightarrow>
        0 \<le> snd (csum_l4_replace_pseudo api skb l4 (csum_l4_offset_and_flags api ipproto_tcp) 0 to))
   \<and> (\<forall>skb off. off + 2 \<le> length (skb_data skb) \<longrightarrow> \<not> IS_ERR api (fst (l4_load_port api skb off)))
   \<and> (\<forall>skb l4 off n old. l4 + 18 \<le> length (skb_data skb) \<longrightarrow> off \<le> 16 \<longrightarrow>
        \<not> IS_ERR api (snd (l4_modify_port api skb l4 off (csum_l4_offset_and_flags api ipproto_tcp) n old)))"

lemma reliable_calls:
  assumes "helpers_reliable api"
  shows "off + length bs \<le> length (skb_data skb) \<Longrightarrow> bpf_skb_store_bytes api skb off bs = (skb', r) \<Longrightarrow> 0 \<le> r"
    and "off + 2 \<le> length (skb_data skb) \<Longrightarrow> bpf_l3_csum_replace api skb off 0 to = (skb', r) \<Longrightarrow> 0 \<le> r"
    and "l4 + 18 \<le> length (skb_data skb) \<Longrightarrow> 
      csum_l4_replace_pseudo api skb l4 (csum_l4_offset_and_flags api ipproto_tcp) 0 to = (skb', r) \<Longrightarrow> 0 \<le> r"
    and "off + 2 \<le> length (skb_data skb) \<Longrightarrow> \<not> IS_ERR api (fst (l4_load_port api skb off))"
    and "l4 + 18 \<le> length (skb_data skb) \<Longrightarrow> off \<le> 16 \<Longrightarrow>
      l4_modify_port api skb l4 off (csum_l4_offset_and_flags api ipproto_tcp) n old = (skb', r) \<Longrightarrow> \<not> IS_ERR api r"
  using assms [unfolded helpers_reliable_def, THEN conjunct1, rule_format, of off bs skb]
    assms [unfolded helpers_reliable_def, THEN conjunct2, THEN conjunct1, rule_format, of off skb to]
    assms [unfolded helpers_reliable_def, THEN conjunct2, THEN conjunct2, THEN conjunct1, rule_format, of l4 skb to]
    assms [unfolded helpers_reliable_def, THEN conjunct2, THEN conjunct2, THEN conjunct2, THEN conjunct1, rule_format, of off skb]
    assms [unfolded helpers_reliable_def, THEN conjunct2, THEN conjunct2, THEN conjunct2, THEN conjunct2, rule_format, of l4 skb off n old]
  by simp_all

lemma reliable_addr:
  assumes ok: "bpf_helpers_ok be api" and rel: "helpers_reliable api" and l: "off + 4 \<le> length (skb_data skb)"
  shows "\<exists>skb' s'. manip_addr be api skb off (Some n) (Some old) s = (skb', Some s')
    \<and> length (skb_data skb') = length (skb_data skb)"
proof -
  obtain skb1 r where c: "bpf_skb_store_bytes api skb off (store32 be n) = (skb1, r)" by fastforce
  have "0 \<le> r" using reliable_calls(1) [OF rel _ c] l by simp
  then show ?thesis using helper_store [OF ok c] c l by (auto simp: manip_addr_def)
qed

lemma reliable_port:
  assumes ok: "bpf_helpers_ok be api" and rel: "helpers_reliable api" and l: "l4 + 18 \<le> length (skb_data skb)" "off \<le> 16"
  shows "\<exists>skb'. manip_port api skb l4 off (csum_l4_offset_and_flags api ipproto_tcp) (Some n) (Some old) = (skb', None)
    \<and> length (skb_data skb') = length (skb_data skb)"
proof -
  obtain skb1 r where c: "l4_modify_port api skb l4 off (csum_l4_offset_and_flags api ipproto_tcp) n old = (skb1, r)" by fastforce
  have "\<not> IS_ERR api r" by (rule reliable_calls(5) [OF rel l c])
  then show ?thesis using helper_port [OF ok c] c by (auto simp: manip_port_def csum_updated_def)
qed

lemma manip_reliable:
  assumes ok: "bpf_helpers_ok be api" and rel: "helpers_reliable api" and lay: "tcp_layout l4 m (skb_data skb)"
  shows "snd (nf_nat_manip_pkt be api skb (Some nd) (Some od) (Some ns) (Some os) (Some ndp) (Some odp)
    (Some nsp) (Some osp) ipproto_tcp 14 l4) = 0"
proof -
  note c = helper_codes [OF ok, unfolded codes_ok_def]
  have l: "34 \<le> length (skb_data skb)" "l4 + 18 \<le> length (skb_data skb)" using lay by (auto simp: tcp_layout_def)
  obtain skb1 s1 where 1: "manip_addr be api skb 30 (Some nd) (Some od) 0 = (skb1, Some s1)"
    "length (skb_data skb1) = length (skb_data skb)" using reliable_addr [OF ok rel, of 30 skb] l by fastforce
  obtain skb2 s2 where 2: "manip_addr be api skb1 26 (Some ns) (Some os) s1 = (skb2, Some s2)"
    "length (skb_data skb2) = length (skb_data skb)" using reliable_addr [OF ok rel, of 26 skb1] l 1(2) by fastforce
  obtain skb3 r3 where 3: "bpf_l3_csum_replace api skb2 24 0 s2 = (skb3, r3)" by fastforce
  have r3: "\<not> r3 < 0" using reliable_calls(2) [OF rel _ 3] 2(2) l(1) by simp
  have l3: "length (skb_data skb3) = length (skb_data skb)"
    using helper_l3 [OF ok 3] r3 2(2) by (auto simp: csum_updated_def)
  define co where "co = csum_l4_offset_and_flags api ipproto_tcp"
  obtain skb4 r4 where 4: "csum_l4_replace_pseudo api skb3 l4 co 0 s2 = (skb4, r4)" by fastforce
  have r4: "\<not> r4 < 0" using reliable_calls(3) [OF rel _ 4 [unfolded co_def]] l3 l(2) by simp
  have l4': "length (skb_data skb4) = length (skb_data skb)"
    using helper_l4 [OF ok 4 [unfolded co_def]] r4 l3 by (auto simp: csum_updated_def)
  obtain skb5 where 5: "manip_port api skb4 l4 2 co (Some ndp) (Some odp) = (skb5, None)"
    "length (skb_data skb5) = length (skb_data skb)"
    using reliable_port [OF ok rel, of l4 skb4 2] l l4' unfolding co_def by fastforce
  obtain skb6 where 6: "manip_port api skb5 l4 0 co (Some nsp) (Some osp) = (skb6, None)"
    using reliable_port [OF ok rel, of l4 skb5 0] l 5(2) unfolding co_def by fastforce
  show ?thesis using c by (simp add: nf_nat_manip_pkt_def 1(1) 2(1) 3 r3 co_def [symmetric] 4 r4 5(1) 6 Let_def)
qed

lemma extract_reliable:
  assumes ok: "bpf_helpers_ok be api" and rel: "helpers_reliable api" and l: "l4 + 18 \<le> length (skb_data skb)"
  shows "\<not> IS_ERR api (fst (extract_l4_info api skb ipproto_tcp l4 p))"
proof -
  note c = helper_codes [OF ok, unfolded codes_ok_def]
  have "\<not> IS_ERR api (fst (l4_load_port api skb (l4 + k)))" if "k \<le> 12" for k
    using reliable_calls(4) [OF rel] l that by simp
  from this [of 0] this [of 2] this [of 12] show ?thesis using c
    by (auto simp: extract_l4_info_def extract_l4_ports_def Let_def split: prod.splits)
qed

lemma tcp_hit:
  assumes ok: "bpf_helpers_ok be api" and f: "tcp_frame be d" and lay: "tcp_layout l4 m d"
    and d: "d = skb_data skb" and l4: "l4 = 14 + ipv4_hdrlen d 14"
    and hit: "map_lookup_elem api (tcp_key be dir skb) = Some val"
    and call: "nf_nat_ipv4_fn be api skb dir = (skb', r)"
  shows "(r = TC_ACT_SHOT \<and> \<not> helpers_reliable api) \<or> (r = TC_ACT_OK \<and> nf_nat_manip_pkt be api (skb\<lparr>skb_mark := (if dir = 1 then 0 else skb_mark skb)\<rparr>)
      (Some (if dir = 0 then cv_dip val else rd32 be d 30)) (Some (rd32 be d 30))
      (Some (if dir = 0 then rd32 be d 26 else cv_sip val)) (Some (rd32 be d 26))
      (Some (if dir = 0 then cv_dport val else rd16 be d (l4 + 2))) (Some (rd16 be d (l4 + 2)))
      (Some (if dir = 0 then rd16 be d l4 else cv_sport val)) (Some (rd16 be d l4)) ipproto_tcp 14 l4 = (skb', 0))"
proof -
  have "34 \<le> length d" using lay by (simp add: tcp_layout_def)
  note p = tcp_frame_parsed [OF f this d]
  have proto: "d ! 23 = ipproto_tcp" using f by (simp add: tcp_frame_def)
  obtain q pkt where e: "extract_l4_info api skb ipproto_tcp l4 \<lparr>l4_dport = 0, l4_sport = 0, l4_sync = 0\<rparr> = (q, pkt)" by fastforce
  note ports = extract_tcp [OF ok e]
  have np: "ipproto_tcp \<noteq> ipproto_icmp" by (simp add: ipproto_tcp_def ipproto_icmp_def)
  show ?thesis
  proof (cases "IS_ERR api q")
    case True
    then have "\<not> helpers_reliable api" using lay extract_reliable [OF ok, of l4 skb "\<lparr>l4_dport = 0, l4_sport = 0, l4_sync = 0\<rparr>"]
      by (auto simp: e tcp_layout_def d)
    with True show ?thesis using call by (simp add: nf_nat_ipv4_fn_def p proto d [symmetric] Let_def ETH_HLEN_def l4 [symmetric] e np)
  next
    case False
    define t where "t = skb\<lparr>skb_mark := (if dir = 1 then 0 else skb_mark skb)\<rparr>"
    have kv: "key_virtual dir skb \<lparr>ck_sip = rd32 be d 26, ck_dip = rd32 be d 30, ck_vip = 0, ck_sport = l4_sport pkt,
        ck_dport = l4_dport pkt, ck_vport = 0, ck_proto = ipproto_tcp, ck_pad = 0\<rparr> = (t, tcp_key be dir skb)"
      using ports False by (simp add: key_virtual_def tcp_key_def t_def Let_def d [symmetric] l4)
    have k: "ck_dip (tcp_key be dir skb) = rd32 be d 30" "ck_sip (tcp_key be dir skb) = rd32 be d 26"
      "ck_dport (tcp_key be dir skb) = rd16 be d (l4 + 2)" "ck_sport (tcp_key be dir skb) = rd16 be d l4"
      by (simp_all add: tcp_key_def Let_def d [symmetric] l4)
    have "nf_nat_ipv4_fn be api skb dir =
        (let (skb1, ret) = nf_nat_manip_pkt be api t
           (Some (if dir = 0 then cv_dip val else rd32 be d 30)) (Some (rd32 be d 30))
           (Some (if dir = 0 then rd32 be d 26 else cv_sip val)) (Some (rd32 be d 26))
           (Some (if dir = 0 then cv_dport val else rd16 be d (l4 + 2))) (Some (rd16 be d (l4 + 2)))
           (Some (if dir = 0 then rd16 be d l4 else cv_sport val)) (Some (rd16 be d l4)) ipproto_tcp 14 l4
         in if ret \<noteq> 0 then (skb1, TC_ACT_SHOT) else (skb1, TC_ACT_OK))"
      using False kv hit k
      by (cases "dir = 0") (simp_all add: nf_nat_ipv4_fn_def p proto d [symmetric] Let_def ETH_HLEN_def l4 [symmetric] e np)
    moreover have "helpers_reliable api \<Longrightarrow> tcp_layout l4 m (skb_data t)" using lay by (simp add: t_def d)
    ultimately show ?thesis using call manip_reliable [OF ok, of l4 m t] unfolding t_def [symmetric]
      by (auto simp: Let_def split: prod.splits if_splits) (metis snd_conv)+
  qed
qed

text \<open>C1: Network address translation of TCP packets is correct. When the table has the connection
  of a packet, the packet passes rewritten (it is dropped only when a helper fails inside of the
  packet): on ingress the
  destination address and port, on egress the source address and port are those of the table,
  the other pair is unchanged, and so is every byte outside of addresses, ports and checksums. A
  valid IP header checksum stays valid, and so does a valid TCP checksum.\<close>

theorem tcp_nat_correct:
  assumes "bpf_helpers_ok be api" and "tcp_frame be (skb_data skb)"
    and "l4 = 14 + ipv4_hdrlen (skb_data skb) 14"
    and "20 \<le> m" and "l4 + m \<le> length (skb_data skb)" and "length (skb_data skb) \<le> 65535"
    and "csum be (bytes_at 14 (l4 - 14) (skb_data skb)) = 0" and "csum be (tcp_pseudo l4 m (skb_data skb)) = 0"
    and "map_lookup_elem api (tcp_key be dir skb) = Some val"
    and "nf_nat_ipv4_fn be api skb dir = (skb', r)"
  shows "(r = TC_ACT_SHOT \<and> \<not> helpers_reliable api) \<or> r = TC_ACT_OK
    \<and> csum be (bytes_at 14 (l4 - 14) (skb_data skb')) = 0 \<and> csum be (tcp_pseudo l4 m (skb_data skb')) = 0
    \<and> bytes_at 30 4 (skb_data skb') = store32 be (if dir = 0 then cv_dip val else rd32 be (skb_data skb) 30)
    \<and> bytes_at 26 4 (skb_data skb') = store32 be (if dir = 0 then rd32 be (skb_data skb) 26 else cv_sip val)
    \<and> bytes_at (l4 + 2) 2 (skb_data skb') = store16 be (if dir = 0 then cv_dport val else rd16 be (skb_data skb) (l4 + 2))
    \<and> bytes_at l4 2 (skb_data skb') = store16 be (if dir = 0 then rd16 be (skb_data skb) l4 else cv_sport val)
    \<and> same_rest l4 (skb_data skb) (skb_data skb')"
proof -
  define d where "d = skb_data skb"
  define t where "t = skb\<lparr>skb_mark := (if dir = 1 then 0 else skb_mark skb)\<rparr>"
  have dt: "d = skb_data t" by (simp add: d_def t_def)
  have "20 \<le> ipv4_hdrlen d 14" using assms(2) by (simp add: tcp_frame_def d_def)
  then have lay: "tcp_layout l4 m d" using assms(3-5) by (auto simp: tcp_layout_def d_def ipv4_hdrlen_def)
  have p: "d ! 23 \<noteq> 0" using assms(2) by (simp add: tcp_frame_def ipproto_tcp_def d_def)
  consider "r = TC_ACT_SHOT" "\<not> helpers_reliable api" | "r = TC_ACT_OK" "nf_nat_manip_pkt be api t
      (Some (if dir = 0 then cv_dip val else rd32 be d 30)) (Some (rd32 be d 30))
      (Some (if dir = 0 then rd32 be d 26 else cv_sip val)) (Some (rd32 be d 26))
      (Some (if dir = 0 then cv_dport val else rd16 be d (l4 + 2))) (Some (rd16 be d (l4 + 2)))
      (Some (if dir = 0 then rd16 be d l4 else cv_sport val)) (Some (rd16 be d l4)) ipproto_tcp 14 l4 = (skb', 0)"
    using tcp_hit [OF assms(1,2) lay [unfolded d_def] refl assms(3,9,10)] unfolding d_def t_def by blast
  then show ?thesis
  proof cases
    case 2
    note mv = manip_valid [OF assms(1) lay dt refl 2(2)]
    with 2(1) assms(6-8) nat_moved_valid [OF _ lay _ p] show ?thesis
      by (simp add: nat_moved_def d_def)
  qed simp
qed

lemma ref_csum_updated:
  "ref_csum be skb off frm to = (skb', r) \<Longrightarrow> r < 0 \<or> (\<exists>d'. csum_updated be off (int (unat to) - int (unat frm)) (skb_data skb) d'
     \<and> length d' = length (skb_data skb) \<and> skb' = skb\<lparr>skb_data := d'\<rparr>)"
  using csum_replace4_same [of "rd16 be (skb_data skb) off" frm to]
  by (auto simp: ref_csum_def csum_updated_def algebra_simps split: if_splits)

lemma ref_helpers_ok: "bpf_helpers_ok be (ref_api be tab)"
proof -
  have "diff_ok be (ref_api be tab)" unfolding diff_ok_def by (intro allI ref_diff_same) simp_all
  moreover have "l3_ok be (ref_api be tab)" "l4_ok be (ref_api be tab)"
    using ref_csum_updated [of be _ _ 0] by (fastforce simp: l3_ok_def l4_ok_def ref_api_def)+
  moreover have "port_ok be (ref_api be tab)" unfolding port_ok_def
  proof (intro allI impI)
    fix skb l4 off n old skb' r
    assume a: "l4_modify_port (ref_api be tab) skb l4 off (csum_l4_offset_and_flags (ref_api be tab) ipproto_tcp) n old = (skb', r)"
    obtain skb1 r1 where c: "ref_csum be skb (l4 + 16) (ucast old) (ucast n) = (skb1, r1)" by fastforce
    show "IS_ERR (ref_api be tab) r \<or> (\<exists>d'. csum_updated be (l4 + 16) (int (unat n) - int (unat old)) (skb_data skb) d'
        \<and> l4 + off + 2 \<le> length d' \<and> skb' = skb\<lparr>skb_data := put_bytes (l4 + off) (store16 be n) d'\<rparr>)"
      using ref_csum_updated [OF c] a c
      by (auto simp: ref_api_def ref_store_def unat_ucast_up Let_def split: if_splits)
  qed
  ultimately show ?thesis
    by (auto simp: bpf_helpers_ok_def store_ok_def load_ok_def codes_ok_def ref_api_def ref_store_def split: if_splits)
qed

definition tcp_example :: sk_buff where
  "tcp_example = \<lparr>skb_data = [0, 0, 0, 0, 0, 0, 0, 0, 0, 0, 0, 0, 8, 0, 69, 0, 0, 40, 0, 0, 0, 0, 64, 6, 102, 206, 10, 0, 0, 1, 10, 0, 0, 2, 3, 232, 0, 80, 0, 0, 0, 0, 0, 0, 0, 0, 80, 2, 0, 0, 151, 168, 0, 0], skb_mark = 0, skb_vlan_proto = 0\<rparr>"

lemma ref_reliable: "helpers_reliable (ref_api be tab)"
  unfolding helpers_reliable_def by (auto simp: ref_api_def ref_store_def ref_csum_def Let_def ipproto_tcp_def)

theorem tcp_nat_correct_witness:
  "bytes_at 26 4 (skb_data (fst (nf_nat_ipv4_fn True (ref_api True (\<lambda>_. Some conn_example)) tcp_example 1)))
     = store32 True 0xc0a80001"
proof -
  define api where "api = ref_api True (\<lambda>_. Some conn_example)"
  obtain skb' r where e: "nf_nat_ipv4_fn True api tcp_example 1 = (skb', r)" by fastforce
  have h: "ipv4_hdrlen (skb_data tcp_example) 14 = 20" by (simp add: ipv4_hdrlen_def tcp_example_def)
  have f: "tcp_frame True (skb_data tcp_example)"
    using h by (simp add: tcp_frame_def tcp_example_def bpf_ntohs_def rd16_def load16_def ETH_P_IP_def ipproto_tcp_def)
  have len: "length (skb_data tcp_example) = 54" by (simp add: tcp_example_def)
  have c: "csum True (bytes_at 14 (34 - 14) (skb_data tcp_example)) = 0"
    by (simp add: csum_zero_iff same16_def tcp_example_def bytes_at_def unat_load16)
  have "be_put 2 20 = [0, 20]" by (simp add: numeral_2_eq_2)
  then have "tcp_pseudo 34 20 (skb_data tcp_example) = [10, 0, 0, 1, 10, 0, 0, 2, 0, 6, 0, 20, 3, 232, 0, 80, 0, 0, 0, 0, 0, 0, 0, 0, 80, 2, 0, 0, 151, 168, 0, 0]"
    by (simp add: tcp_example_def tcp_pseudo_def bytes_at_def ipproto_tcp_def)
  then have p: "csum True (tcp_pseudo 34 20 (skb_data tcp_example)) = 0"
    by (simp add: csum_zero_iff same16_def unat_load16)
  have l: "map_lookup_elem api (tcp_key True 1 tcp_example) = Some conn_example" by (simp add: api_def ref_api_def)
  have "34 = 14 + ipv4_hdrlen (skb_data tcp_example) 14" "20 \<le> (20 :: nat)" "34 + 20 \<le> length (skb_data tcp_example)"
    "length (skb_data tcp_example) \<le> 65535" by (simp_all add: h len)
  note r = tcp_nat_correct [OF ref_helpers_ok [of True "\<lambda>_. Some conn_example", folded api_def] f this c p l e]
  have "bytes_at 26 4 (skb_data skb') = store32 True (cv_sip conn_example)"
    using r ref_reliable [of True "\<lambda>_. Some conn_example", folded api_def] by auto
  then show ?thesis unfolding api_def [symmetric] e by (simp add: conn_example_def)
qed

end
