(* ===== verification/OfpText.thy ===== *)
theory OfpText
  imports Prelude
begin

text \<open>
  The text the gateway's actions and commands are written in: lists of key-value pairs
  (\<open>lib/ofp-parse.c\<close>), Ethernet addresses (\<open>str_to_mac\<close> there, on \<open>ovs_scan\<close> of
  \<open>lib/util.c\<close>), and the numbers that \<open>atoi\<close> reads and \<open>printf\<close> writes.

  A C string is the list of its characters before the terminating null; a pointer into a string
  is the rest of it. A substring that the code makes by writing a null byte is a value of its
  own.
\<close>

subsection \<open>Key-value pairs\<close>

definition char_tab :: char where "char_tab = CHR 0x09"
definition char_lf :: char where "char_lf = CHR 0x0A"
definition char_cr :: char where "char_cr = CHR 0x0D"

definition pair_delims :: string where
  "pair_delims = [CHR '','', CHR '' '', char_tab, char_cr, char_lf]"

text \<open>The inner loop of \<open>parse_value\<close>, which skips a parenthesized group: the number of
  characters and whether the string ended first.\<close>

fun parse_group :: "int \<Rightarrow> string \<Rightarrow> nat \<times> bool" where
  "parse_group level [] = (0, True)"
| "parse_group level (c # s) =
     (let level = (if c = CHR ''('' then level + 1 else if c = CHR '')'' then level - 1 else level)
      in if level > 0 then (let (n, ended) = parse_group level s in (n + 1, ended)) else (1, False))"

lemma parse_group_progress: "parse_group level (c # s) = (n, False) \<Longrightarrow> 0 < n"
  by (auto simp: Let_def split: if_splits prod.splits)

function parse_value :: "string \<Rightarrow> string \<Rightarrow> nat" where
  "parse_value delimiters s =
     (case s of
        [] \<Rightarrow> 0
      | c # s' \<Rightarrow>
          if c \<in> set delimiters then 0
          else if c = CHR ''('' then
            (case parse_group 0 s of (n, ended) \<Rightarrow> if ended then n else n + parse_value delimiters (drop n s))
          else 1 + parse_value delimiters s')"
  by pat_completeness auto
termination
proof (relation "measure (\<lambda>(delimiters, s). length s)", goal_cases)
  case (2 delimiters s c s' n ended)
  then have "0 < n" using parse_group_progress [of 0 c s' n] by simp
  with 2 show ?case by simp
qed simp_all

declare parse_value.simps [simp del]

definition key_delims :: string where
  "key_delims = [CHR '':'', CHR ''='', CHR ''(''] @ pair_delims"

text \<open>The key, the value and the rest of the string, or nothing at its end.\<close>

definition ofputil_parse_key_value :: "string \<Rightarrow> (string \<times> string \<times> string) option" where
  "ofputil_parse_key_value s0 =
     (let s = dropWhile (\<lambda>c. c \<in> set pair_delims) s0 in
      if s = [] then None
      else
        let key = takeWhile (\<lambda>c. c \<notin> set key_delims) s;
            after = drop (length key) s
        in case after of
             [] \<Rightarrow> Some (key, [], [])
           | key_delim # s1 \<Rightarrow>
               if key_delim = CHR '':'' \<or> key_delim = CHR ''='' then
                 let n = parse_value pair_delims s1 in Some (key, take n s1, drop (n + 1) s1)
               else if key_delim = CHR ''('' then
                 let n = parse_value [CHR '')''] s1;
                     n = (if take 3 (drop n s1) = [CHR '')'', CHR ''-'', CHR ''>'']
                          then n + parse_value pair_delims (drop n s1) else n)
                 in Some (key, take n s1, drop (n + 1) s1)
               else Some (key, [], s1))"

lemma key_value_shorter:
  "ofputil_parse_key_value s = Some (k, v, rest) \<Longrightarrow> length rest < length s"
proof -
  assume a: "ofputil_parse_key_value s = Some (k, v, rest)"
  define t where "t = dropWhile (\<lambda>c. c \<in> set pair_delims) s"
  have t: "length t \<le> length s" by (simp add: t_def length_dropWhile_le)
  define key where "key = takeWhile (\<lambda>c. c \<notin> set key_delims) t"
  have "t \<noteq> []" using a unfolding ofputil_parse_key_value_def Let_def t_def [symmetric] by auto
  then show ?thesis
  proof (cases "drop (length key) t")
    case Nil
    with a \<open>t \<noteq> []\<close> t show ?thesis
      unfolding ofputil_parse_key_value_def Let_def t_def [symmetric] key_def [symmetric] by auto
  next
    case (Cons d s1)
    have "length (drop (length key) t) = Suc (length s1)" by (simp only: Cons) simp
    then have "length s1 < length t" by simp
    with a Cons t \<open>t \<noteq> []\<close> show ?thesis
      unfolding ofputil_parse_key_value_def Let_def t_def [symmetric] key_def [symmetric]
      by (auto split: if_splits)
  qed
qed

text \<open>The loop \<open>while (ofputil_parse_key_value(...))\<close>: all pairs of a string.\<close>

function key_values :: "string \<Rightarrow> (string \<times> string) list" where
  "key_values s = (case ofputil_parse_key_value s of
     None \<Rightarrow> []
   | Some (k, v, rest) \<Rightarrow> (k, v) # key_values rest)"
  by pat_completeness auto
termination
  by (relation "measure length") (auto simp: key_value_shorter)

declare key_values.simps [simp del]

subsection \<open>Numbers\<close>

text \<open>\<open>hexit_value\<close>; no value for a character that is no digit.\<close>

definition hexit_value :: "char \<Rightarrow> nat option" where
  "hexit_value c =
     (let x = of_char c :: nat in
      if 48 \<le> x \<and> x \<le> 57 then Some (x - 48)
      else if 97 \<le> x \<and> x \<le> 102 then Some (x - 97 + 10)
      else if 65 \<le> x \<and> x \<le> 70 then Some (x - 65 + 10)
      else None)"

definition isspace :: "char \<Rightarrow> bool" where
  "isspace c \<longleftrightarrow> c = CHR '' '' \<or> c \<in> set [char_tab, char_lf, CHR 0x0B, CHR 0x0C, char_cr]"

definition skip_spaces :: "string \<Rightarrow> string" where
  "skip_spaces s = dropWhile isspace s"

text \<open>The loop over the digits: value, number of digits and rest. The value wraps around in
  \<open>uintmax_t\<close>.\<close>

fun scan_digits :: "nat \<Rightarrow> u64 \<Rightarrow> nat \<Rightarrow> string \<Rightarrow> u64 \<times> nat \<times> string" where
  "scan_digits base value n [] = (value, n, [])"
| "scan_digits base value n (c # s) = (case hexit_value c of
     Some d \<Rightarrow> if d < base then scan_digits base (value * word_of_nat base + word_of_nat d) (n + 1) s
               else (value, n, c # s)
   | None \<Rightarrow> (value, n, c # s))"

text \<open>\<open>scan_int\<close> without a field width.\<close>

definition scan_int :: "nat \<Rightarrow> string \<Rightarrow> (u64 \<times> string) option" where
  "scan_int base s =
     (let negative = (take 1 s = ''-'');
          s = (if take 1 s = ''-'' \<or> take 1 s = ''+'' then drop 1 s else s);
          (base, s) = (if (base = 0 \<or> base = 16) \<and> (take 2 s = ''0x'' \<or> take 2 s = ''0X'') then (16, drop 2 s)
                       else (if base = 0 then (if take 1 s = ''0'' then 8 else 10) else base, s));
          (value, n_digits, s) = scan_digits base 0 0 s
      in if n_digits = 0 then None else Some (if negative then - value else value, s))"

text \<open>\<open>ovs_scan\<close> of one \<open>%\<close>\<open>x\<close> conversion with \<open>hh\<close>, and of a literal colon before it.\<close>

definition scan_hex8 :: "string \<Rightarrow> (u8 \<times> string) option" where
  "scan_hex8 s = map_option (\<lambda>(v, s). (ucast v, s)) (scan_int 16 (skip_spaces s))"

fun scan_mac :: "nat \<Rightarrow> string \<Rightarrow> u8 list option" where
  "scan_mac 0 s = Some []"
| "scan_mac (Suc n) s = (case scan_hex8 s of
     None \<Rightarrow> None
   | Some (b, s1) \<Rightarrow>
       if n = 0 then Some [b]
       else (case s1 of
          [] \<Rightarrow> None
        | c # s2 \<Rightarrow> if c = CHR '':'' then map_option (\<lambda>bs. b # bs) (scan_mac n s2) else None))"

definition str_to_mac :: "string \<Rightarrow> eth_addr option" where
  "str_to_mac s = map_option (\<lambda>bs. word_of_nat (be_get bs)) (scan_mac 6 s)"

text \<open>\<open>atoi\<close> as \<open>(int) strtol(s, NULL, 10)\<close>: \<open>long\<close> has 64 bits and saturates.\<close>

fun dec_digits :: "int \<Rightarrow> string \<Rightarrow> int" where
  "dec_digits v [] = v"
| "dec_digits v (c # s) = (case hexit_value c of
     Some d \<Rightarrow> if d < 10 then dec_digits (v * 10 + int d) s else v
   | None \<Rightarrow> v)"

definition atoi :: "string \<Rightarrow> int" where
  "atoi s0 =
     (let s = skip_spaces s0;
          v = (if take 1 s = ''-'' then - dec_digits 0 (drop 1 s)
               else if take 1 s = ''+'' then dec_digits 0 (drop 1 s) else dec_digits 0 s)
      in c_int (max (- (2 ^ 63)) (min (2 ^ 63 - 1) v)))"

text \<open>Numbers as \<open>printf\<close> writes them, in decimal or hexadecimal.\<close>

definition digit_char :: "nat \<Rightarrow> char" where
  "digit_char d = (if d < 10 then char_of (48 + d) else char_of (87 + d))"

fun num_string :: "nat \<Rightarrow> nat \<Rightarrow> string" where
  "num_string base n = (if n < base \<or> base < 2 then [digit_char n] else num_string base (n div base) @ [digit_char (n mod base)])"

declare num_string.simps [simp del]

definition put_u32 :: "u32 \<Rightarrow> string" where "put_u32 x = num_string 10 (unat x)"
definition put_x32 :: "u32 \<Rightarrow> string" where "put_x32 x = num_string 16 (unat x)"
definition put_02x8 :: "u8 \<Rightarrow> string" where
  "put_02x8 b = [digit_char (unat b div 16), digit_char (unat b mod 16)]"

definition put_mac :: "eth_addr \<Rightarrow> string" where
  "put_mac a = (case be_put 6 (unat a) of
     [] \<Rightarrow> []
   | b # bs \<Rightarrow> put_02x8 b @ concat (map (\<lambda>b. CHR '':'' # put_02x8 b) bs))"

subsection \<open>What is written reads back\<close>

lemma of_digit_char: "d < 16 \<Longrightarrow> of_char (digit_char d) = (if d < 10 then 48 + d else 87 + d)"
  by (auto simp: digit_char_def)

lemma hexit_digit [simp]: "d < 16 \<Longrightarrow> hexit_value (digit_char d) = Some d"
  by (auto simp: hexit_value_def of_digit_char Let_def)

lemma hexit_special [simp]:
  "hexit_value CHR '':'' = None" "hexit_value CHR '','' = None" "hexit_value CHR ''x'' = None"
  "hexit_value CHR ''X'' = None" "hexit_value CHR ''-'' = None" "hexit_value CHR ''+'' = None"
  by (simp_all add: hexit_value_def)

definition hexits :: "string \<Rightarrow> bool" where
  "hexits s \<longleftrightarrow> (\<forall>c \<in> set s. hexit_value c \<noteq> None)"

lemma hexits_simps [simp]: "hexits []" "hexits (c # s) \<longleftrightarrow> hexit_value c \<noteq> None \<and> hexits s"
  "hexits (s @ t) \<longleftrightarrow> hexits s \<and> hexits t"
  by (auto simp: hexits_def)

lemma hexits_num_string: "2 \<le> base \<Longrightarrow> base \<le> 16 \<Longrightarrow> hexits (num_string base n)"
proof (induction base n rule: num_string.induct)
  case (1 base n)
  have "base \<noteq> 0 \<Longrightarrow> n mod base < 16" using 1(3) by (meson less_le_trans mod_less_divisor neq0_conv)
  with 1 show ?case by (subst num_string.simps) (auto simp: less_le_trans)
qed

lemma num_string_nonempty [simp]: "num_string base n \<noteq> []"
  by (subst num_string.simps) simp

text \<open>A character of a number is no space, sign or delimiter.\<close>

lemma hexit_not_special: "hexit_value c \<noteq> None \<Longrightarrow> \<not> isspace c \<and> c \<notin> set pair_delims \<and> c \<notin> set '':=()-+''"
  by (auto simp: hexit_value_def isspace_def pair_delims_def char_tab_def char_lf_def char_cr_def)

lemma dec_digits_snoc:
  "dec_digits v (s @ [c]) = dec_digits v s \<or>
    (\<exists>d < 10. hexit_value c = Some d \<and> dec_digits v (s @ [c]) = dec_digits v s * 10 + int d)"
  by (induction v s rule: dec_digits.induct) (auto split: option.split)

lemma dec_digits_dec:
  "\<forall>x \<in> set s. \<exists>d < 10. hexit_value x = Some d \<Longrightarrow> hexit_value c = Some d \<Longrightarrow> d < 10 \<Longrightarrow>
    dec_digits v (s @ [c]) = dec_digits v s * 10 + int d"
  by (induction v s rule: dec_digits.induct) auto

lemma dec_string_digits: "\<forall>x \<in> set (num_string 10 n). \<exists>d < 10. hexit_value x = Some d"
proof (induction "10 :: nat" n rule: num_string.induct)
  case (1 n)
  then show ?case by (subst num_string.simps) (auto intro: exI [of _ n])
qed

lemma dec_digits_num_string: "dec_digits 0 (num_string 10 n) = int n"
proof (induction "10 :: nat" n rule: num_string.induct)
  case (1 n)
  show ?case
  proof (cases "n < 10")
    case False
    then have "dec_digits 0 (num_string 10 n) = int (n div 10) * 10 + int (n mod 10)"
      using 1 dec_digits_dec [OF dec_string_digits, of "digit_char (n mod 10)" "n mod 10" 0 "n div 10"]
      by (simp add: num_string.simps [of _ n])
    moreover have "int n = int (n div 10) * 10 + int (n mod 10)"
      by (simp only: of_nat_div of_nat_mod of_nat_numeral div_mult_mod_eq)
    ultimately show ?thesis by simp
  qed (simp add: num_string.simps)
qed

text \<open>Read as a decimal number, a hexadecimal number of at least ten is smaller.\<close>

lemma dec_digits_hex: "0 \<le> dec_digits 0 (num_string 16 n) \<and> dec_digits 0 (num_string 16 n) \<le> int n
    \<and> (10 \<le> n \<longrightarrow> dec_digits 0 (num_string 16 n) < int n)"
proof (induction "16 :: nat" n rule: num_string.induct)
  case (1 n)
  show ?case
  proof (cases "n < 16")
    case False
    then have IH: "0 \<le> dec_digits 0 (num_string 16 (n div 16))" "dec_digits 0 (num_string 16 (n div 16)) \<le> int (n div 16)"
      using 1 by simp_all
    have m: "1 \<le> n div 16" "n = n div 16 * 16 + n mod 16" using False by (simp_all add: Suc_le_eq div_greater_zero_iff)
    have "dec_digits 0 (num_string 16 n) = dec_digits 0 (num_string 16 (n div 16)) \<or>
        dec_digits 0 (num_string 16 n) = dec_digits 0 (num_string 16 (n div 16)) * 10 + int (n mod 16)"
      using dec_digits_snoc [of 0 "num_string 16 (n div 16)" "digit_char (n mod 16)"] False
      by (auto simp: num_string.simps [of _ n])
    then show ?thesis using IH m by (elim disjE) linarith+
  qed (auto simp: num_string.simps)
qed

lemma hexit_first: "hexits s \<Longrightarrow> s \<noteq> [] \<Longrightarrow>
    skip_spaces s = s \<and> take 1 s \<noteq> ''-'' \<and> take 1 s \<noteq> ''+''"
  using hexit_not_special [of "hd s"] by (cases s) (auto simp: skip_spaces_def)

lemma atoi_hexits: "hexits s \<Longrightarrow> s \<noteq> [] \<Longrightarrow> atoi s = c_int (max (- (2 ^ 63)) (min (2 ^ 63 - 1) (dec_digits 0 s)))"
  using hexit_first [of s] by (simp add: atoi_def)

lemma word_of_c_int: "(word_of_int (c_int x) :: u32) = word_of_int x"
proof -
  have "c_int x mod 2 ^ 32 = x mod 2 ^ 32" unfolding c_int_def by (simp add: mod_diff_left_eq)
  then show ?thesis by (simp add: word_of_int_eq_iff take_bit_eq_mod)
qed

lemma clamp_small: "0 \<le> v \<Longrightarrow> v < 2 ^ 32 \<Longrightarrow> max (- (2 ^ 63)) (min (2 ^ 63 - 1) v) = (v :: int)"
  by (simp add: max_def min_def)

lemma atoi_put_u32: "word_of_int (atoi (put_u32 x)) = x"
proof -
  have "uint x < 2 ^ 32" using uint_lt2p [of x] by simp
  then have "atoi (put_u32 x) = c_int (int (unat x))"
    using clamp_small [of "int (unat x)"] by (simp add: put_u32_def atoi_hexits hexits_num_string dec_digits_num_string)
  then show ?thesis by (simp add: word_of_c_int)
qed

lemma atoi_put_x32: "word_of_int (atoi (put_x32 x)) = x \<longleftrightarrow> unat x < 10"
proof -
  define v where "v = dec_digits 0 (num_string 16 (unat x))"
  note b = dec_digits_hex [of "unat x", folded v_def]
  have "uint x < 2 ^ 32" using uint_lt2p [of x] by simp
  then have v: "0 \<le> v" "v < 2 ^ 32" using b by simp_all
  have "word_of_int (atoi (put_x32 x)) = (word_of_int v :: u32)"
    using clamp_small [OF v] by (simp add: put_x32_def atoi_hexits hexits_num_string v_def [symmetric] word_of_c_int)
  also have "\<dots> = x \<longleftrightarrow> v = int (unat x)"
    using v by (simp add: word_uint_eq_iff uint_word_of_int)
  also have "\<dots> \<longleftrightarrow> unat x < 10"
  proof
    assume "unat x < 10"
    then show "v = int (unat x)" by (simp add: v_def num_string.simps)
  qed (use b in \<open>auto simp: not_less [symmetric]\<close>)
  finally show ?thesis .
qed

lemma scan_digits_two:
  assumes "t = [] \<or> hexit_value (hd t) = None"
  shows "scan_digits 16 0 0 (put_02x8 b @ t) = (ucast b, 2, t)"
proof -
  have "unat b div 16 < 16" "unat b mod 16 < 16" using unat_u8 [of b] by (auto simp: less_mult_imp_div_less)
  moreover have "scan_digits 16 v n t = (v, n, t)" for v n using assms by (cases t) auto
  moreover have "(word_of_nat (unat b div 16) * 16 + word_of_nat (unat b mod 16) :: u64) = ucast b"
  proof -
    have "(word_of_nat (unat b div 16 * 16 + unat b mod 16) :: u64) = ucast b" by (simp only: div_mult_mod_eq) simp
    then show ?thesis by (simp only: of_nat_add of_nat_mult of_nat_numeral)
  qed
  ultimately show ?thesis by (simp add: put_02x8_def)
qed

lemma ucast_up_down: "(ucast (ucast b :: u64) :: u8) = b" for b :: u8
  by (simp add: ucast_up_ucast_id is_up)

lemma scan_hex8_put:
  assumes "t = [] \<or> hexit_value (hd t) = None"
  shows "scan_hex8 (put_02x8 b @ t) = Some (b, t)"
proof -
  have h: "hexits (put_02x8 b)" using unat_u8 [of b] by (auto simp: put_02x8_def less_mult_imp_div_less)
  then have f: "skip_spaces (put_02x8 b @ t) = put_02x8 b @ t"
    using hexit_not_special [of "hd (put_02x8 b)"] by (auto simp: skip_spaces_def put_02x8_def)
  have "digit_char (unat b mod 16) \<noteq> CHR ''x''" "digit_char (unat b mod 16) \<noteq> CHR ''X''"
    by (metis hexit_special(3,4) hexit_digit option.distinct(1) mod_less_divisor zero_less_numeral)+
  then have g: "take 1 (put_02x8 b @ t) \<noteq> ''-''" "take 1 (put_02x8 b @ t) \<noteq> ''+''"
    "take 2 (put_02x8 b @ t) \<noteq> ''0x''" "take 2 (put_02x8 b @ t) \<noteq> ''0X''"
    using h by (auto simp: put_02x8_def numeral_2_eq_2)
  show ?thesis
    by (simp only: scan_hex8_def f scan_int_def g Let_def if_False simp_thms scan_digits_two [OF assms] prod.case)
      (simp add: scan_digits_two [OF assms] ucast_up_down)
qed

lemma scan_mac_put:
  "bs \<noteq> [] \<Longrightarrow> t = [] \<or> hexit_value (hd t) = None \<Longrightarrow>
    scan_mac (length bs) (put_02x8 (hd bs) @ concat (map (\<lambda>b. CHR '':'' # put_02x8 b) (tl bs)) @ t) = Some bs"
proof (induction bs)
  case (Cons b bs)
  show ?case
  proof (cases bs)
    case Nil
    with Cons show ?thesis by (simp add: scan_hex8_put)
  next
    case (Cons b' bs')
    with Cons.IH Cons.prems show ?thesis by (simp add: scan_hex8_put)
  qed
qed simp

lemma str_to_mac_put: "str_to_mac (put_mac a) = Some a"
proof -
  define bs where "bs = be_put 6 (unat a)"
  have l: "length bs = 6" by (simp add: bs_def)
  then have n: "bs \<noteq> []" by auto
  have "put_mac a = put_02x8 (hd bs) @ concat (map (\<lambda>b. CHR '':'' # put_02x8 b) (tl bs)) @ []"
    using n by (cases bs) (simp_all add: put_mac_def bs_def [symmetric])
  then have "scan_mac 6 (put_mac a) = Some bs" using scan_mac_put [OF n, of "[]"] l by simp
  moreover have "unat a < 281474976710656" using unsigned_less [of a, where ?'a = nat] by simp
  ultimately show ?thesis by (simp add: str_to_mac_def bs_def be_get_put)
qed

text \<open>Pairs that read back: the key has no delimiter, the value none that ends it and no
  parenthesis.\<close>

definition plain_key :: "string \<Rightarrow> bool" where
  "plain_key k \<longleftrightarrow> k \<noteq> [] \<and> (\<forall>c \<in> set k. c \<notin> set key_delims \<and> c \<noteq> CHR '')'')"

definition plain_value :: "string \<Rightarrow> bool" where
  "plain_value v \<longleftrightarrow> (\<forall>c \<in> set v. c \<notin> set pair_delims \<and> c \<noteq> CHR ''('' \<and> c \<noteq> CHR '')'')"

lemma parse_value_until:
  "\<forall>c \<in> set v. c \<notin> set delims \<and> c \<noteq> CHR ''('' \<Longrightarrow> t = [] \<or> hd t \<in> set delims \<Longrightarrow>
    parse_value delims (v @ t) = length v"
proof (induction v)
  case Nil
  then show ?case by (cases t) (simp_all add: parse_value.simps)
next
  case (Cons c v)
  then show ?case by (subst parse_value.simps) simp
qed

definition put_pair :: "string \<times> string \<Rightarrow> string" where
  "put_pair p = fst p @ ''='' @ snd p"

lemma parse_plain_pair:
  assumes "plain_key k" "plain_value v" "t = [] \<or> hd t \<in> set pair_delims" "set w \<subseteq> set pair_delims"
  shows "ofputil_parse_key_value (w @ put_pair (k, v) @ t) = Some (k, v, drop 1 t)"
proof -
  define s where "s = put_pair (k, v) @ t"
  have "set pair_delims \<subseteq> set key_delims" by (auto simp: key_delims_def)
  then have "\<forall>c \<in> set k. c \<notin> set pair_delims" using assms(1) by (auto simp: plain_key_def)
  then have d: "dropWhile (\<lambda>c. c \<in> set pair_delims) (w @ s) = s"
    using assms(1,4) by (cases k) (auto simp: s_def put_pair_def plain_key_def dropWhile_append2 subset_iff)
  have k: "takeWhile (\<lambda>c. c \<notin> set key_delims) s = k"
    using assms(1) by (simp add: s_def put_pair_def plain_key_def takeWhile_append2) (simp add: key_delims_def)
  have a: "drop (length k) s = CHR ''='' # v @ t" "s \<noteq> []" by (simp_all add: s_def put_pair_def)
  show ?thesis unfolding s_def [symmetric] ofputil_parse_key_value_def Let_def d k
    using a parse_value_until [of v pair_delims t] assms(2,3) by (simp add: plain_value_def)
qed

text \<open>A list of pairs with commas between them, and possibly one before the first.\<close>

fun put_pairs :: "(string \<times> string) list \<Rightarrow> string" where
  "put_pairs [] = []"
| "put_pairs [p] = put_pair p"
| "put_pairs (p # ps) = put_pair p @ '','' @ put_pairs ps"

lemma put_pairs_Cons: "put_pairs (p # ps) = put_pair p @ (if ps = [] then [] else '','' @ put_pairs ps)"
  by (cases ps) simp_all

lemma comma_delim [simp]: "CHR '','' \<in> set pair_delims"
  by (simp add: pair_delims_def)

lemma key_values_put_pairs:
  "\<forall>p \<in> set ps. plain_key (fst p) \<and> plain_value (snd p) \<Longrightarrow> set w \<subseteq> set pair_delims \<Longrightarrow>
    key_values (w @ put_pairs ps) = ps"
proof (induction ps arbitrary: w)
  case Nil
  then have "dropWhile (\<lambda>c. c \<in> set pair_delims) w = []" by (auto simp: dropWhile_eq_Nil_conv)
  then show ?case by (simp add: key_values.simps ofputil_parse_key_value_def)
next
  case (Cons p ps)
  define t where "t = (if ps = [] then [] else '','' @ put_pairs ps)"
  have "t = [] \<or> hd t \<in> set pair_delims" "drop 1 t = put_pairs ps" by (simp_all add: t_def)
  then have "ofputil_parse_key_value (w @ put_pairs (p # ps)) = Some (fst p, snd p, put_pairs ps)"
    using parse_plain_pair [of "fst p" "snd p" t w] Cons.prems by (simp add: put_pairs_Cons t_def [symmetric])
  then show ?case using Cons.IH [of "[]"] Cons.prems by (subst key_values.simps) simp
qed

end
