(* ===== verification/Gateway.thy ===== *)
theory Gateway
  imports OfpText HostBytes
begin

text \<open>
  The gateway's own code: the OpenFlow actions \<open>config_gw\<close> and \<open>handle_gw\<close>
  (\<open>lib/ofp-actions.c\<close>) and their translation to datapath actions
  (\<open>ofproto/ofproto-dpif-xlate.c\<close>, \<open>lib/odp-util.c\<close>, \<open>datapath/flow_netlink.c\<close>,
  \<open>datapath/actions.c\<close>, \<open>lib/odp-execute.c\<close>).

  The code copies most members without changing their byte order, so a message holds the
  memory of the host; \<open>be\<close> tells whether the host is big-endian. Log output is left out.
\<close>

subsection \<open>The actions\<close>

record config_gw =
  param1 :: u32
  param2 :: u32
  param3 :: eth_addr
  param4 :: u32
  param5 :: u32
  param6 :: eth_addr
  param7 :: u32
  param8 :: u32
  param9 :: eth_addr

record handle_gw =
  pipeline1 :: u32
  pipeline2 :: u32
  pipeline3 :: u32
  pipeline4 :: u32
  pipeline5 :: u32

datatype ofpact = Config_gw config_gw | Handle_gw handle_gw

text \<open>A new \<open>struct ofpact\<close> is cleared.\<close>

definition zero_config_gw :: config_gw where
  "zero_config_gw = \<lparr>param1 = 0, param2 = 0, param3 = 0, param4 = 0, param5 = 0, param6 = 0,
     param7 = 0, param8 = 0, param9 = 0\<rparr>"

definition zero_handle_gw :: handle_gw where
  "zero_handle_gw = \<lparr>pipeline1 = 0, pipeline2 = 0, pipeline3 = 0, pipeline4 = 0, pipeline5 = 0\<rparr>"

definition eth_put :: "eth_addr \<Rightarrow> u8 list" where "eth_put a = be_put 6 (unat a)"
definition eth_rd :: "u8 list \<Rightarrow> nat \<Rightarrow> eth_addr" where "eth_rd d off = word_of_nat (be_field off 6 d)"

definition OFPAT_CONFIG_GW :: nat where "OFPAT_CONFIG_GW = 51"
definition OFPAT_HANDLE_GW :: nat where "OFPAT_HANDLE_GW = 52"

text \<open>The header that \<open>ofpact_put_raw\<close> writes before an action that has no vendor and no
  argument.\<close>

definition ofpact_put_raw :: "nat \<Rightarrow> nat \<Rightarrow> u8 list" where
  "ofpact_put_raw type min_length = be_put 2 type @ be_put 2 min_length"

definition encode_CONFIG_GW :: "bool \<Rightarrow> config_gw \<Rightarrow> u8 list" where
  "encode_CONFIG_GW be a = ofpact_put_raw OFPAT_CONFIG_GW 56
     @ store32 be (param1 a) @ store32 be (param2 a) @ eth_put (param3 a) @ [0, 0]
     @ store32 be (param4 a) @ store32 be (param5 a) @ eth_put (param6 a) @ [0, 0]
     @ store32 be (param7 a) @ store32 be (param8 a) @ eth_put (param9 a) @ replicate 6 0"

definition decode_OFPAT_RAW_CONFIG_GW :: "bool \<Rightarrow> u8 list \<Rightarrow> config_gw" where
  "decode_OFPAT_RAW_CONFIG_GW be d = \<lparr>
     param1 = rd32 be d 4, param2 = rd32 be d 8, param3 = eth_rd d 12,
     param4 = rd32 be d 20, param5 = rd32 be d 24, param6 = eth_rd d 28,
     param7 = rd32 be d 36, param8 = rd32 be d 40, param9 = eth_rd d 44\<rparr>"

definition encode_HANDLE_GW :: "bool \<Rightarrow> handle_gw \<Rightarrow> u8 list" where
  "encode_HANDLE_GW be a = ofpact_put_raw OFPAT_HANDLE_GW 24
     @ store32 be (pipeline1 a) @ store32 be (pipeline2 a) @ store32 be (pipeline3 a)
     @ store32 be (pipeline4 a) @ store32 be (pipeline5 a)"

definition decode_OFPAT_RAW_HANDLE_GW :: "bool \<Rightarrow> u8 list \<Rightarrow> handle_gw" where
  "decode_OFPAT_RAW_HANDLE_GW be d = \<lparr>pipeline1 = rd32 be d 4, pipeline2 = rd32 be d 8,
     pipeline3 = rd32 be d 12, pipeline4 = rd32 be d 16, pipeline5 = rd32 be d 20\<rparr>"

definition check_CONFIG_GW :: "config_gw \<Rightarrow> int" where "check_CONFIG_GW a = 0"
definition check_HANDLE_GW :: "handle_gw \<Rightarrow> int" where "check_HANDLE_GW a = 0"

fun encode_ofpact :: "bool \<Rightarrow> ofpact \<Rightarrow> u8 list" where
  "encode_ofpact be (Config_gw a) = encode_CONFIG_GW be a"
| "encode_ofpact be (Handle_gw a) = encode_HANDLE_GW be a"

subsection \<open>The decoder of a list of actions\<close>

datatype ofperr = OFPERR_OFPBAC_BAD_LEN | OFPERR_OFPBAC_BAD_VENDOR | OFPERR_OFPBAC_BAD_VENDOR_TYPE
  | OFPERR_OFPBAC_BAD_TYPE

text \<open>An entry of the table of actions, which the build generates: the range of its length and
  its decoder, which gets the message and so also the argument of an action that has one. The
  table maps vendor and type to entries.\<close>

record 'a raw_instance =
  ri_min_length :: nat
  ri_max_length :: nat
  ri_decode :: "u8 list \<Rightarrow> ofperr + 'a"

definition OFPAT_VENDOR :: nat where "OFPAT_VENDOR = 0xffff"
definition NX_VENDOR_ID :: nat where "NX_VENDOR_ID = 0x00002320"
definition ONF_VENDOR_ID :: nat where "ONF_VENDOR_ID = 0x4f4e4600"

definition ofpact_decode_raw :: "(nat \<times> nat \<Rightarrow> 'a raw_instance option) \<Rightarrow> u8 list \<Rightarrow> ofperr + 'a raw_instance" where
  "ofpact_decode_raw tab d =
     (if length d < 8 then Inl OFPERR_OFPBAC_BAD_LEN
      else
        let lookup = (\<lambda>vendor type. case tab (vendor, type) of
              Some inst \<Rightarrow> Inr inst
            | None \<Rightarrow> Inl (if vendor \<noteq> 0 then OFPERR_OFPBAC_BAD_VENDOR_TYPE else OFPERR_OFPBAC_BAD_TYPE))
        in if be_field 0 2 d = OFPAT_VENDOR then
             let vendor = be_field 4 4 d in
             if vendor = NX_VENDOR_ID \<or> vendor = ONF_VENDOR_ID then
               if length d < 16 then Inl OFPERR_OFPBAC_BAD_LEN else lookup vendor (be_field 8 2 d)
             else Inl OFPERR_OFPBAC_BAD_VENDOR
           else lookup 0 (be_field 0 2 d))"

definition ofpact_pull_raw :: "(nat \<times> nat \<Rightarrow> 'a raw_instance option) \<Rightarrow> u8 list
    \<Rightarrow> ofperr + ('a raw_instance \<times> u8 list)" where
  "ofpact_pull_raw tab d = (case ofpact_decode_raw tab d of
     Inl e \<Rightarrow> Inl e
   | Inr inst \<Rightarrow>
       let len = be_field 2 2 d in
       if len > length d then Inl OFPERR_OFPBAC_BAD_LEN
       else if len < ri_min_length inst \<or> len > ri_max_length inst then Inl OFPERR_OFPBAC_BAD_LEN
       else if len mod 8 \<noteq> 0 then Inl OFPERR_OFPBAC_BAD_LEN
       else Inr (inst, drop len d))"

text \<open>The loop may not end for a table with an action of length zero.\<close>

partial_function (option) ofpacts_decode :: "(nat \<times> nat \<Rightarrow> 'a raw_instance option) \<Rightarrow> u8 list \<Rightarrow> 'a list
    \<Rightarrow> (ofperr + 'a list) option" where
  "ofpacts_decode tab d ofpacts =
     (if d = [] then Some (Inr ofpacts)
      else case ofpact_pull_raw tab d of
          Inl e \<Rightarrow> Some (Inl e)
        | Inr (inst, rest) \<Rightarrow>
            (case ri_decode inst d of
               Inl e \<Rightarrow> Some (Inl e)
             | Inr a \<Rightarrow> ofpacts_decode tab rest (ofpacts @ [a])))"

subsection \<open>Text\<close>

text \<open>An action that is parsed from text: an error (the message of \<open>str_to_mac\<close>) or the action.
  A key that is none of the parameters is ignored.\<close>

fun parse_config_gw_pair :: "string \<times> string \<Rightarrow> config_gw \<Rightarrow> string + config_gw" where
  "parse_config_gw_pair (name, value) a =
     (let mac = (\<lambda>set. case str_to_mac value of
            None \<Rightarrow> Inl (''invalid mac address '' @ value)
          | Some m \<Rightarrow> Inr (set m))
      in if name = ''param1'' then Inr (a\<lparr>param1 := word_of_int (atoi value)\<rparr>)
      else if name = ''param2'' then Inr (a\<lparr>param2 := word_of_int (atoi value)\<rparr>)
      else if name = ''param3'' then mac (\<lambda>m. a\<lparr>param3 := m\<rparr>)
      else if name = ''param4'' then Inr (a\<lparr>param4 := word_of_int (atoi value)\<rparr>)
      else if name = ''param5'' then Inr (a\<lparr>param5 := word_of_int (atoi value)\<rparr>)
      else if name = ''param6'' then mac (\<lambda>m. a\<lparr>param6 := m\<rparr>)
      else if name = ''param7'' then Inr (a\<lparr>param7 := word_of_int (atoi value)\<rparr>)
      else if name = ''param8'' then Inr (a\<lparr>param8 := word_of_int (atoi value)\<rparr>)
      else if name = ''param9'' then mac (\<lambda>m. a\<lparr>param9 := m\<rparr>)
      else Inr a)"

fun parse_pairs :: "('p \<Rightarrow> 'a \<Rightarrow> 'e + 'a) \<Rightarrow> 'p list \<Rightarrow> 'a \<Rightarrow> 'e + 'a" where
  "parse_pairs f [] a = Inr a"
| "parse_pairs f (p # ps) a = (case f p a of Inl e \<Rightarrow> Inl e | Inr b \<Rightarrow> parse_pairs f ps b)"

definition parse_CONFIG_GW :: "string \<Rightarrow> string + config_gw" where
  "parse_CONFIG_GW arg = parse_pairs parse_config_gw_pair (key_values arg) zero_config_gw"

text \<open>The tests \<open>param3.ea != 0\<close> compare the address of an array, so they hold always.\<close>

definition format_config_gw_args :: "config_gw \<Rightarrow> string" where
  "format_config_gw_args a =
     (if param1 a \<noteq> 0 then ''param1='' @ put_u32 (param1 a) else [])
   @ (if param2 a \<noteq> 0 then '',param2='' @ put_u32 (param2 a) else [])
   @ '',param3='' @ put_mac (param3 a)
   @ (if param4 a \<noteq> 0 then '',param4='' @ put_u32 (param4 a) else [])
   @ (if param5 a \<noteq> 0 then '',param5='' @ put_u32 (param5 a) else [])
   @ '',param6='' @ put_mac (param6 a)
   @ (if param7 a \<noteq> 0 then '',param7='' @ put_u32 (param7 a) else [])
   @ (if param8 a \<noteq> 0 then '',param8='' @ put_u32 (param8 a) else [])
   @ '',param9='' @ put_mac (param9 a)"

definition format_CONFIG_GW :: "config_gw \<Rightarrow> string" where
  "format_CONFIG_GW a = ''config_gw('' @ format_config_gw_args a @ '')''"

fun parse_handle_gw_pair :: "string \<times> string \<Rightarrow> handle_gw \<Rightarrow> string + handle_gw" where
  "parse_handle_gw_pair (name, value) a =
     (if name = ''pipeline1'' then Inr (a\<lparr>pipeline1 := word_of_int (atoi value)\<rparr>)
      else if name = ''pipeline2'' then Inr (a\<lparr>pipeline2 := word_of_int (atoi value)\<rparr>)
      else if name = ''pipeline3'' then Inr (a\<lparr>pipeline3 := word_of_int (atoi value)\<rparr>)
      else if name = ''pipeline4'' then Inr (a\<lparr>pipeline4 := word_of_int (atoi value)\<rparr>)
      else if name = ''pipeline5'' then Inr (a\<lparr>pipeline5 := word_of_int (atoi value)\<rparr>)
      else Inr a)"

definition parse_HANDLE_GW :: "string \<Rightarrow> string + handle_gw" where
  "parse_HANDLE_GW arg = parse_pairs parse_handle_gw_pair (key_values arg) zero_handle_gw"

definition format_handle_gw_args :: "(u32 \<Rightarrow> string) \<Rightarrow> handle_gw \<Rightarrow> string" where
  "format_handle_gw_args put a =
     (if pipeline1 a \<noteq> 0 then ''pipeline1='' @ put (pipeline1 a) else [])
   @ (if pipeline2 a \<noteq> 0 then '',pipeline2='' @ put (pipeline2 a) else [])
   @ (if pipeline3 a \<noteq> 0 then '',pipeline3='' @ put (pipeline3 a) else [])
   @ (if pipeline4 a \<noteq> 0 then '',pipeline4='' @ put (pipeline4 a) else [])
   @ (if pipeline5 a \<noteq> 0 then '',pipeline5='' @ put (pipeline5 a) else [])"

definition format_HANDLE_GW :: "handle_gw \<Rightarrow> string" where
  "format_HANDLE_GW a = ''handle_gw('' @ format_handle_gw_args put_x32 a @ '')''"

subsection \<open>Datapath actions\<close>

datatype ovs_action_attr = OVS_ACTION_ATTR_CONFIG_GW | OVS_ACTION_ATTR_HANDLE_GW

text \<open>The structures \<open>ovs_action_config_gw\<close> (48 bytes with the padding after each address) and
  \<open>ovs_action_handle_gw\<close> (20 bytes) in a cleared netlink attribute.\<close>

definition compose_config_gw_action :: "bool \<Rightarrow> config_gw \<Rightarrow> ovs_action_attr \<times> u8 list" where
  "compose_config_gw_action be a = (OVS_ACTION_ATTR_CONFIG_GW,
     store32 be (param1 a) @ store32 be (param2 a) @ eth_put (param3 a) @ [0, 0]
     @ store32 be (param4 a) @ store32 be (param5 a) @ eth_put (param6 a) @ [0, 0]
     @ store32 be (param7 a) @ store32 be (param8 a) @ eth_put (param9 a) @ [0, 0])"

definition compose_handle_gw_action :: "bool \<Rightarrow> handle_gw \<Rightarrow> ovs_action_attr \<times> u8 list" where
  "compose_handle_gw_action be a = (OVS_ACTION_ATTR_HANDLE_GW,
     store32 be (pipeline1 a) @ store32 be (pipeline2 a) @ store32 be (pipeline3 a)
     @ store32 be (pipeline4 a) @ store32 be (pipeline5 a))"

fun xlate_gw :: "bool \<Rightarrow> ofpact \<Rightarrow> ovs_action_attr \<times> u8 list" where
  "xlate_gw be (Config_gw a) = compose_config_gw_action be a"
| "xlate_gw be (Handle_gw a) = compose_handle_gw_action be a"

fun odp_action_len :: "ovs_action_attr \<Rightarrow> nat" where
  "odp_action_len OVS_ACTION_ATTR_CONFIG_GW = 48"
| "odp_action_len OVS_ACTION_ATTR_HANDLE_GW = 20"

definition EINVAL :: int where "EINVAL = 22"

text \<open>The kernel copies an action whose payload has the length of its type.\<close>

definition ovs_nla_copy_actions :: "ovs_action_attr \<times> u8 list \<Rightarrow> int + (ovs_action_attr \<times> u8 list)" where
  "ovs_nla_copy_actions act = (if length (snd act) \<noteq> odp_action_len (fst act) then Inl (- EINVAL) else Inr act)"

text \<open>The members of the structures in the payload, as an action reads them.\<close>

definition ovs_action_config_gw :: "bool \<Rightarrow> u8 list \<Rightarrow> config_gw" where
  "ovs_action_config_gw be d = \<lparr>
     param1 = rd32 be d 0, param2 = rd32 be d 4, param3 = eth_rd d 8,
     param4 = rd32 be d 16, param5 = rd32 be d 20, param6 = eth_rd d 24,
     param7 = rd32 be d 32, param8 = rd32 be d 36, param9 = eth_rd d 40\<rparr>"

definition ovs_action_handle_gw :: "bool \<Rightarrow> u8 list \<Rightarrow> handle_gw" where
  "ovs_action_handle_gw be d = \<lparr>pipeline1 = rd32 be d 0, pipeline2 = rd32 be d 4,
     pipeline3 = rd32 be d 8, pipeline4 = rd32 be d 12, pipeline5 = rd32 be d 16\<rparr>"

text \<open>The actions themselves do nothing yet, in the kernel and in userspace.\<close>

definition do_config_gw_action :: "'skb \<Rightarrow> config_gw \<Rightarrow> 'skb \<times> int" where
  "do_config_gw_action skb a = (skb, 0)"

definition do_handle_gw_action :: "'skb \<Rightarrow> handle_gw \<Rightarrow> 'skb \<times> int" where
  "do_handle_gw_action skb a = (skb, 0)"

definition dp_config_gw_action :: "'packet \<Rightarrow> config_gw \<Rightarrow> 'packet" where
  "dp_config_gw_action packet a = packet"

definition dp_handle_gw_action :: "'packet \<Rightarrow> handle_gw \<Rightarrow> 'packet" where
  "dp_handle_gw_action packet a = packet"

fun odp_execute_gw :: "bool \<Rightarrow> ovs_action_attr \<times> u8 list \<Rightarrow> 'packet list \<Rightarrow> 'packet list" where
  "odp_execute_gw be (OVS_ACTION_ATTR_CONFIG_GW, d) batch =
     map (\<lambda>packet. dp_config_gw_action packet (ovs_action_config_gw be d)) batch"
| "odp_execute_gw be (OVS_ACTION_ATTR_HANDLE_GW, d) batch =
     map (\<lambda>packet. dp_handle_gw_action packet (ovs_action_handle_gw be d)) batch"

definition ntohl :: "bool \<Rightarrow> u32 \<Rightarrow> u32" where
  "ntohl be x = (if be then x else word_of_nat (be_get (store32 be x)))"

definition format_odp_config_gw_action :: "bool \<Rightarrow> config_gw \<Rightarrow> string" where
  "format_odp_config_gw_action be a = ''config_gw('' @
     (if param1 a \<noteq> 0 then ''param1='' @ put_u32 (param1 a) else [])
   @ (if param2 a \<noteq> 0 then '',param2='' @ put_x32 (ntohl be (param2 a)) else [])
   @ '',param3='' @ put_mac (param3 a)
   @ (if param4 a \<noteq> 0 then '',param4='' @ put_u32 (param4 a) else [])
   @ (if param5 a \<noteq> 0 then '',param5='' @ put_x32 (ntohl be (param5 a)) else [])
   @ '',param6='' @ put_mac (param6 a)
   @ (if param7 a \<noteq> 0 then '',param7='' @ put_u32 (param7 a) else [])
   @ (if param8 a \<noteq> 0 then '',param8='' @ put_x32 (ntohl be (param8 a)) else [])
   @ '',param9='' @ put_mac (param9 a) @ '')''"

definition format_odp_handle_gw_action :: "bool \<Rightarrow> handle_gw \<Rightarrow> string" where
  "format_odp_handle_gw_action be a =
     ''handle_gw('' @ format_handle_gw_args (\<lambda>x. put_x32 (ntohl be x)) a @ '')''"

end
