(* ===== verification/GatewayProps.thy ===== *)
theory GatewayProps
  imports Gateway
begin

text \<open>
  What holds of the gateway's actions: text, OpenFlow message and datapath action carry the same
  parameters, on hosts of either byte order.
\<close>

subsection \<open>Wire formats\<close>

named_theorems host_wire \<open>reading back what was stored in host byte order\<close>

lemma rd16_skip: "length xs \<le> off \<Longrightarrow> rd16 be (xs @ ys) off = rd16 be ys (off - length xs)"
  by (simp add: rd16_def nth_append Suc_diff_le)

lemma rd32_skip [host_wire]: "length xs \<le> off \<Longrightarrow> rd32 be (xs @ ys) off = rd32 be ys (off - length xs)"
  by (simp add: rd32_def rd16_skip Suc_diff_le)

lemma rd32_Cons [host_wire]: "0 < off \<Longrightarrow> rd32 be (x # ys) off = rd32 be ys (off - 1)"
  using rd32_skip [of "[x]" off be ys] by simp

lemma rd16_here: "rd16 be (store16 be x @ ys) 0 = x"
  by (rule store16_bytes [of be x]) (simp add: rd16_def)

lemma halves_join: "push_bit 16 (ucast (ucast (drop_bit 16 x) :: u16)) OR ucast (ucast x :: u16) = x" for x :: u32
  by (rule bit_word_eqI) (auto simp: bit_simps)

lemma rd32_here [host_wire]: "rd32 be (store32 be x @ ys) 0 = x"
proof -
  have "rd16 be (words16 be [u, v] @ ys) 0 = u" "rd16 be (words16 be [u, v] @ ys) (Suc (Suc 0)) = v" for u v
    using rd16_here [of be u] rd16_skip [of "store16 be u" "Suc (Suc 0)" be "store16 be v @ ys"] rd16_here [of be v]
    by (simp_all add: words16_simps)
  then show ?thesis by (cases be) (simp_all add: rd32_def store32_def halves_join)
qed

lemma rd32_last [host_wire]: "rd32 be (store32 be x) 0 = x"
  using rd32_here [of be x "[]"] by simp

lemma length_eth_put [host_wire, simp]: "length (eth_put a) = 6"
  by (simp add: eth_put_def)

lemma eth_rd_skip [host_wire]: "length xs \<le> off \<Longrightarrow> eth_rd (xs @ ys) off = eth_rd ys (off - length xs)"
  by (simp add: eth_rd_def be_field_skip)

lemma eth_rd_Cons [host_wire]: "0 < off \<Longrightarrow> eth_rd (x # ys) off = eth_rd ys (off - 1)"
  using eth_rd_skip [of "[x]" off ys] by simp

lemma eth_rd_here [host_wire]: "eth_rd (eth_put a @ ys) 0 = a"
proof -
  have "unat a < 256 ^ 6" using unsigned_less [of a, where ?'a = nat] by simp
  then show ?thesis by (simp add: eth_rd_def be_field_here eth_put_def be_get_put)
qed

lemma length_put_raw [host_wire]: "length (ofpact_put_raw t n) = 4"
  by (simp add: ofpact_put_raw_def)

interpretation config_gw_wire: wire_format 56 "encode_CONFIG_GW be" "decode_OFPAT_RAW_CONFIG_GW be"
  by unfold_locales (simp_all add: encode_CONFIG_GW_def decode_OFPAT_RAW_CONFIG_GW_def host_wire)

interpretation handle_gw_wire: wire_format 24 "encode_HANDLE_GW be" "decode_OFPAT_RAW_HANDLE_GW be"
  by unfold_locales (simp_all add: encode_HANDLE_GW_def decode_OFPAT_RAW_HANDLE_GW_def host_wire)

interpretation config_gw_action: wire_format 48 "\<lambda>a. snd (compose_config_gw_action be a)" "ovs_action_config_gw be"
  by unfold_locales (simp_all add: compose_config_gw_action_def ovs_action_config_gw_def host_wire)

interpretation handle_gw_action: wire_format 20 "\<lambda>a. snd (compose_handle_gw_action be a)" "ovs_action_handle_gw be"
  by unfold_locales (simp_all add: compose_handle_gw_action_def ovs_action_handle_gw_def host_wire)

subsection \<open>From the controller to the datapath\<close>

text \<open>The entries of the gateway's actions in the generated table.\<close>

definition gw_table :: "bool \<Rightarrow> (nat \<times> nat \<Rightarrow> ofpact raw_instance option) \<Rightarrow> bool" where
  "gw_table be tab \<longleftrightarrow>
     tab (0, 51) = Some \<lparr>ri_min_length = 56, ri_max_length = 56, ri_decode = (\<lambda>d. Inr (Config_gw (decode_OFPAT_RAW_CONFIG_GW be d)))\<rparr>
   \<and> tab (0, 52) = Some \<lparr>ri_min_length = 24, ri_max_length = 24, ri_decode = (\<lambda>d. Inr (Handle_gw (decode_OFPAT_RAW_HANDLE_GW be d)))\<rparr>"

lemma encode_header:
  "be_field 0 2 (encode_CONFIG_GW be a @ ds) = 51" "be_field 2 2 (encode_CONFIG_GW be a @ ds) = 56"
  "be_field 0 2 (encode_HANDLE_GW be b @ ds) = 52" "be_field 2 2 (encode_HANDLE_GW be b @ ds) = 24"
  by (simp_all add: encode_CONFIG_GW_def encode_HANDLE_GW_def ofpact_put_raw_def OFPAT_CONFIG_GW_def
      OFPAT_HANDLE_GW_def wire)

lemma pull_ofpact:
  assumes "gw_table be tab"
  shows "\<exists>inst. ofpact_pull_raw tab (encode_ofpact be a @ ds) = Inr (inst, ds) \<and> ri_decode inst (encode_ofpact be a @ ds) = Inr a"
  using assms
  by (cases a) (simp_all add: ofpact_pull_raw_def ofpact_decode_raw_def gw_table_def Let_def encode_header OFPAT_VENDOR_def
      config_gw_wire.enc_width handle_gw_wire.enc_width config_gw_wire.dec_enc handle_gw_wire.dec_enc)

lemma encode_nonempty: "encode_ofpact be a \<noteq> []"
  by (cases a) (auto simp: encode_CONFIG_GW_def encode_HANDLE_GW_def ofpact_put_raw_def numeral_2_eq_2)

lemma decode_ofpacts:
  assumes "gw_table be tab"
  shows "ofpacts_decode tab (concat (map (encode_ofpact be) as)) acc = Some (Inr (acc @ as))"
proof (induction as arbitrary: acc)
  case Nil
  then show ?case by (simp add: ofpacts_decode.simps)
next
  case (Cons a as)
  obtain inst where "ofpact_pull_raw tab (encode_ofpact be a @ concat (map (encode_ofpact be) as)) = Inr (inst, concat (map (encode_ofpact be) as))"
    "ri_decode inst (encode_ofpact be a @ concat (map (encode_ofpact be) as)) = Inr a"
    using pull_ofpact [OF assms] by blast
  then show ?case using Cons [of "acc @ [a]"] encode_nonempty [of be a]
    by (subst ofpacts_decode.simps) simp
qed

text \<open>What the datapath reads from a translated action.\<close>

fun datapath_action :: "bool \<Rightarrow> ovs_action_attr \<times> u8 list \<Rightarrow> ofpact" where
  "datapath_action be (OVS_ACTION_ATTR_CONFIG_GW, d) = Config_gw (ovs_action_config_gw be d)"
| "datapath_action be (OVS_ACTION_ATTR_HANDLE_GW, d) = Handle_gw (ovs_action_handle_gw be d)"

lemma xlate_accepted: "ovs_nla_copy_actions (xlate_gw be a) = Inr (xlate_gw be a) \<and> datapath_action be (xlate_gw be a) = a"
proof (cases a)
  case (Config_gw c)
  then show ?thesis using config_gw_action.enc_width [of be c] config_gw_action.dec_enc [of be c "[]"]
    by (simp add: ovs_nla_copy_actions_def compose_config_gw_action_def)
next
  case (Handle_gw h)
  then show ?thesis using handle_gw_action.enc_width [of be h] handle_gw_action.dec_enc [of be h "[]"]
    by (simp add: ovs_nla_copy_actions_def compose_handle_gw_action_def)
qed

text \<open>C3: The gateway's actions reach the datapath as the controller sent them, on hosts of either
  byte order: decoding an encoded list of actions ends without an error and gives the list back,
  and each translated action is accepted by the kernel and carries the parameters of the OpenFlow
  action. The table of actions is generated by the build; of it the theorem assumes the
  two entries of the gateway.\<close>

theorem gw_actions_reach_datapath:
  assumes "gw_table be tab"
  shows "ofpacts_decode tab (concat (map (encode_ofpact be) as)) [] = Some (Inr as)
    \<and> map (\<lambda>a. ovs_nla_copy_actions (xlate_gw be a)) as = map (Inr \<circ> xlate_gw be) as
    \<and> map (datapath_action be \<circ> xlate_gw be) as = as"
  using decode_ofpacts [OF assms, of as "[]"] by (simp add: xlate_accepted comp_def)

theorem gw_actions_reach_datapath_witness:
  "let tab = (\<lambda>k. if k = (0, 51) then Some \<lparr>ri_min_length = 56, ri_max_length = 56,
          ri_decode = (\<lambda>d. Inr (Config_gw (decode_OFPAT_RAW_CONFIG_GW False d)))\<rparr>
        else if k = (0, 52) then Some \<lparr>ri_min_length = 24, ri_max_length = 24,
          ri_decode = (\<lambda>d. Inr (Handle_gw (decode_OFPAT_RAW_HANDLE_GW False d)))\<rparr> else None)
   in ofpacts_decode tab (concat (map (encode_ofpact False) [Handle_gw zero_handle_gw, Config_gw zero_config_gw])) []
     = Some (Inr [Handle_gw zero_handle_gw, Config_gw zero_config_gw])"
  unfolding Let_def by (rule gw_actions_reach_datapath [THEN conjunct1]) (simp add: gw_table_def)

subsection \<open>Text\<close>

lemma put_pairs_commas:
  "concat (map (\<lambda>p. '','' @ put_pair p) ps) = (if ps = [] then [] else '','' @ put_pairs ps)"
  by (induction ps) (auto simp: put_pairs_Cons)

definition pair_if :: "string \<Rightarrow> (u32 \<Rightarrow> string) \<Rightarrow> u32 \<Rightarrow> (string \<times> string) list" where
  "pair_if k put v = (if v \<noteq> 0 then [(k, put v)] else [])"

definition config_gw_pairs :: "config_gw \<Rightarrow> (string \<times> string) list" where
  "config_gw_pairs a = pair_if ''param2'' put_u32 (param2 a) @ [(''param3'', put_mac (param3 a))]
     @ pair_if ''param4'' put_u32 (param4 a) @ pair_if ''param5'' put_u32 (param5 a)
     @ [(''param6'', put_mac (param6 a))]
     @ pair_if ''param7'' put_u32 (param7 a) @ pair_if ''param8'' put_u32 (param8 a)
     @ [(''param9'', put_mac (param9 a))]"

lemma format_config_gw_pairs:
  "format_config_gw_args a =
    (if param1 a = 0 then '','' else []) @ put_pairs (pair_if ''param1'' put_u32 (param1 a) @ config_gw_pairs a)"
proof -
  have "format_config_gw_args a = (if param1 a \<noteq> 0 then ''param1='' @ put_u32 (param1 a) else [])
      @ concat (map (\<lambda>p. '','' @ put_pair p) (config_gw_pairs a))"
    by (simp add: format_config_gw_args_def config_gw_pairs_def pair_if_def put_pair_def)
  moreover have "config_gw_pairs a \<noteq> []" by (simp add: config_gw_pairs_def)
  ultimately have "format_config_gw_args a = (if param1 a \<noteq> 0 then ''param1='' @ put_u32 (param1 a) else [])
      @ '','' @ put_pairs (config_gw_pairs a)" by (simp only: put_pairs_commas if_False)
  with \<open>config_gw_pairs a \<noteq> []\<close> show ?thesis by (simp add: pair_if_def put_pairs_Cons put_pair_def)
qed

lemma hexits_plain: "hexits s \<Longrightarrow> plain_value s"
  unfolding hexits_def plain_value_def using hexit_not_special by fastforce

lemma plain_u32: "plain_value (put_u32 x)" "plain_value (put_x32 x)"
  by (simp_all add: hexits_plain put_u32_def put_x32_def hexits_num_string)

lemma plain_mac: "plain_value (put_mac a)"
proof -
  have "hexits (put_02x8 b)" for b using unat_u8 [of b] by (auto simp: put_02x8_def less_mult_imp_div_less)
  then have "plain_value (put_02x8 b)" for b by (rule hexits_plain)
  then show ?thesis
    by (auto simp: put_mac_def plain_value_def pair_delims_def char_tab_def char_lf_def char_cr_def split: list.split)
qed

lemma plain_param_keys:
  "plain_key ''config_gw''"
  "plain_key ''param1''" "plain_key ''param2''" "plain_key ''param3''" "plain_key ''param4''" "plain_key ''param5''"
  "plain_key ''param6''" "plain_key ''param7''" "plain_key ''param8''" "plain_key ''param9''"
  "plain_key ''pipeline1''" "plain_key ''pipeline2''" "plain_key ''pipeline3''" "plain_key ''pipeline4''" "plain_key ''pipeline5''"
  by (simp_all add: plain_key_def key_delims_def pair_delims_def char_tab_def char_lf_def char_cr_def)

lemmas plain_pairs = plain_param_keys plain_u32 plain_mac

lemma parse_pairs_Cons: "parse_pairs f ([p] @ ps) a = (case f p a of Inl e \<Rightarrow> Inl e | Inr b \<Rightarrow> parse_pairs f ps b)"
  by simp

lemma parse_pair_if:
  assumes "f (k, put v) a = Inr b" "v = 0 \<Longrightarrow> b = a"
  shows "parse_pairs f (pair_if k put v @ ps) a = parse_pairs f ps b"
  using assms by (cases "v = 0") (simp_all add: pair_if_def)

lemma parse_config_gw_fields:
  "param1 a = 0 \<Longrightarrow> parse_pairs parse_config_gw_pair (pair_if ''param1'' put_u32 v @ ps) a = parse_pairs parse_config_gw_pair ps (a\<lparr>param1 := v\<rparr>)"
  "param2 a = 0 \<Longrightarrow> parse_pairs parse_config_gw_pair (pair_if ''param2'' put_u32 v @ ps) a = parse_pairs parse_config_gw_pair ps (a\<lparr>param2 := v\<rparr>)"
  "param4 a = 0 \<Longrightarrow> parse_pairs parse_config_gw_pair (pair_if ''param4'' put_u32 v @ ps) a = parse_pairs parse_config_gw_pair ps (a\<lparr>param4 := v\<rparr>)"
  "param5 a = 0 \<Longrightarrow> parse_pairs parse_config_gw_pair (pair_if ''param5'' put_u32 v @ ps) a = parse_pairs parse_config_gw_pair ps (a\<lparr>param5 := v\<rparr>)"
  "param7 a = 0 \<Longrightarrow> parse_pairs parse_config_gw_pair (pair_if ''param7'' put_u32 v @ ps) a = parse_pairs parse_config_gw_pair ps (a\<lparr>param7 := v\<rparr>)"
  "param8 a = 0 \<Longrightarrow> parse_pairs parse_config_gw_pair (pair_if ''param8'' put_u32 v @ ps) a = parse_pairs parse_config_gw_pair ps (a\<lparr>param8 := v\<rparr>)"
  by (rule parse_pair_if; cases a; simp add: atoi_put_u32)+

lemma parse_config_gw_macs:
  "parse_pairs parse_config_gw_pair ([(''param3'', put_mac m)] @ ps) a = parse_pairs parse_config_gw_pair ps (a\<lparr>param3 := m\<rparr>)"
  "parse_pairs parse_config_gw_pair ([(''param6'', put_mac m)] @ ps) a = parse_pairs parse_config_gw_pair ps (a\<lparr>param6 := m\<rparr>)"
  "parse_pairs parse_config_gw_pair ([(''param9'', put_mac m)]) a = Inr (a\<lparr>param9 := m\<rparr>)"
  by (simp_all add: str_to_mac_put)

definition no_parens :: "string \<Rightarrow> bool" where
  "no_parens s \<longleftrightarrow> CHR ''('' \<notin> set s \<and> CHR '')'' \<notin> set s"

lemma parse_call:
  assumes "plain_key k" "no_parens v"
  shows "ofputil_parse_key_value (k @ ''('' @ v @ '')'') = Some (k, v, [])"
proof -
  define s where "s = k @ ''('' @ v @ '')''"
  have "set pair_delims \<subseteq> set key_delims" by (auto simp: key_delims_def)
  then have "\<forall>c \<in> set k. c \<notin> set pair_delims" using assms(1) by (auto simp: plain_key_def)
  then have d: "dropWhile (\<lambda>c. c \<in> set pair_delims) s = s"
    using assms(1) by (cases k) (auto simp: s_def plain_key_def)
  have k: "takeWhile (\<lambda>c. c \<notin> set key_delims) s = k"
    using assms(1) by (simp add: s_def plain_key_def takeWhile_append2) (simp add: key_delims_def)
  have a: "drop (length k) s = CHR ''('' # v @ '')''" "s \<noteq> []" by (simp_all add: s_def)
  have "parse_value '')'' (v @ '')'') = length v" using assms(2) unfolding no_parens_def by (intro parse_value_until) auto
  then show ?thesis unfolding s_def [symmetric] ofputil_parse_key_value_def Let_def d k using a by simp
qed

lemma no_parens_append [simp]: "no_parens (s @ t) \<longleftrightarrow> no_parens s \<and> no_parens t"
  by (auto simp: no_parens_def)

lemma plain_no_parens: "plain_key k \<Longrightarrow> no_parens k" "plain_value v \<Longrightarrow> no_parens v"
  by (auto simp: plain_key_def plain_value_def no_parens_def key_delims_def)

lemma no_parens_delims: "no_parens '',''" "no_parens ''=''" "no_parens []"
  by (simp_all add: no_parens_def)

lemma put_pairs_no_parens:
  "\<forall>p \<in> set ps. plain_key (fst p) \<and> plain_value (snd p) \<Longrightarrow> no_parens (put_pairs ps)"
proof (induction ps)
  case (Cons p ps)
  then have "no_parens (put_pair p)" by (simp only: put_pair_def no_parens_append no_parens_delims plain_no_parens list.set_intros)
  moreover have "no_parens (put_pairs ps)" using Cons by simp
  ultimately show ?case by (cases "ps = []") (simp_all only: put_pairs_Cons no_parens_append no_parens_delims if_True if_False simp_thms)
qed (simp add: no_parens_def)

text \<open>C4: The text of a \<open>config_gw\<close> action parses back to the action, for all values of all
  parameters: the parser of key-value pairs finds the name and the arguments, and the arguments
  give every parameter back, although the text of an action without \<open>param1\<close> begins with a
  comma.\<close>

theorem config_gw_text_round_trip:
  "ofputil_parse_key_value (format_CONFIG_GW a) = Some (''config_gw'', format_config_gw_args a, [])
   \<and> parse_CONFIG_GW (format_config_gw_args a) = Inr a"
proof
  define ps where "ps = pair_if ''param1'' put_u32 (param1 a) @ config_gw_pairs a"
  have plain: "\<forall>p \<in> set ps. plain_key (fst p) \<and> plain_value (snd p)"
    by (auto simp: ps_def config_gw_pairs_def pair_if_def plain_pairs)
  have "key_values (format_config_gw_args a) = ps"
    unfolding format_config_gw_pairs ps_def [symmetric] using plain by (intro key_values_put_pairs) auto
  then show "parse_CONFIG_GW (format_config_gw_args a) = Inr a"
    by (simp add: parse_CONFIG_GW_def ps_def config_gw_pairs_def parse_config_gw_fields parse_config_gw_macs zero_config_gw_def
        str_to_mac_put del: append_Cons append_Nil)
  have "no_parens (format_config_gw_args a)"
    unfolding format_config_gw_pairs ps_def [symmetric] using put_pairs_no_parens [OF plain]
    by (cases "param1 a = 0") (simp_all only: no_parens_append no_parens_delims if_True if_False simp_thms)
  then show "ofputil_parse_key_value (format_CONFIG_GW a) = Some (''config_gw'', format_config_gw_args a, [])"
    unfolding format_CONFIG_GW_def using parse_call [of "''config_gw''" "format_config_gw_args a"] plain_param_keys
    by simp
qed

definition handle_gw_pairs :: "handle_gw \<Rightarrow> (string \<times> string) list" where
  "handle_gw_pairs a = pair_if ''pipeline2'' put_x32 (pipeline2 a) @ pair_if ''pipeline3'' put_x32 (pipeline3 a)
     @ pair_if ''pipeline4'' put_x32 (pipeline4 a) @ pair_if ''pipeline5'' put_x32 (pipeline5 a)"

lemma handle_gw_key_values:
  "key_values (format_handle_gw_args put_x32 a) = pair_if ''pipeline1'' put_x32 (pipeline1 a) @ handle_gw_pairs a"
proof -
  define ps where "ps = handle_gw_pairs a"
  have plain: "\<forall>p \<in> set ps. plain_key (fst p) \<and> plain_value (snd p)"
    by (auto simp: ps_def handle_gw_pairs_def pair_if_def plain_pairs)
  have "format_handle_gw_args put_x32 a = (if pipeline1 a \<noteq> 0 then ''pipeline1='' @ put_x32 (pipeline1 a) else [])
      @ concat (map (\<lambda>p. '','' @ put_pair p) ps)"
    by (simp add: format_handle_gw_args_def ps_def handle_gw_pairs_def pair_if_def put_pair_def)
  also have "\<dots> = (if pipeline1 a = 0 \<and> ps \<noteq> [] then '','' else [])
      @ put_pairs (pair_if ''pipeline1'' put_x32 (pipeline1 a) @ ps)"
    by (simp only: put_pairs_commas) (simp add: pair_if_def put_pairs_Cons put_pair_def)
  finally show ?thesis unfolding ps_def [symmetric]
    by (simp only:) (rule key_values_put_pairs, use plain in \<open>auto simp: pair_if_def plain_pairs\<close>)
qed

lemma parse_handle_gw_fields:
  "pipeline1 a = 0 \<Longrightarrow> parse_pairs parse_handle_gw_pair (pair_if ''pipeline1'' put_x32 v @ ps) a =
    parse_pairs parse_handle_gw_pair ps (a\<lparr>pipeline1 := (if v = 0 then 0 else word_of_int (atoi (put_x32 v)))\<rparr>)"
  "pipeline2 a = 0 \<Longrightarrow> parse_pairs parse_handle_gw_pair (pair_if ''pipeline2'' put_x32 v @ ps) a =
    parse_pairs parse_handle_gw_pair ps (a\<lparr>pipeline2 := (if v = 0 then 0 else word_of_int (atoi (put_x32 v)))\<rparr>)"
  "pipeline3 a = 0 \<Longrightarrow> parse_pairs parse_handle_gw_pair (pair_if ''pipeline3'' put_x32 v @ ps) a =
    parse_pairs parse_handle_gw_pair ps (a\<lparr>pipeline3 := (if v = 0 then 0 else word_of_int (atoi (put_x32 v)))\<rparr>)"
  "pipeline4 a = 0 \<Longrightarrow> parse_pairs parse_handle_gw_pair (pair_if ''pipeline4'' put_x32 v @ ps) a =
    parse_pairs parse_handle_gw_pair ps (a\<lparr>pipeline4 := (if v = 0 then 0 else word_of_int (atoi (put_x32 v)))\<rparr>)"
  "pipeline5 a = 0 \<Longrightarrow> parse_pairs parse_handle_gw_pair (pair_if ''pipeline5'' put_x32 v) a =
    Inr (a\<lparr>pipeline5 := (if v = 0 then 0 else word_of_int (atoi (put_x32 v)))\<rparr>)"
  by (cases a; cases "v = 0"; simp add: pair_if_def)+

text \<open>C5: The text of a \<open>handle_gw\<close> action parses back to the action exactly when every pipeline
  number is below ten: the formatter writes hexadecimal digits without a prefix and the parser
  reads them as decimal.\<close>

theorem handle_gw_text_round_trip_iff:
  "parse_HANDLE_GW (format_handle_gw_args put_x32 a) = Inr a \<longleftrightarrow>
    unat (pipeline1 a) < 10 \<and> unat (pipeline2 a) < 10 \<and> unat (pipeline3 a) < 10
    \<and> unat (pipeline4 a) < 10 \<and> unat (pipeline5 a) < 10"
proof -
  define r :: "u32 \<Rightarrow> u32" where "r v = (if v = 0 then 0 else word_of_int (atoi (put_x32 v)))" for v
  have r: "r v = v \<longleftrightarrow> unat v < 10" for v by (cases "v = 0") (simp_all add: r_def atoi_put_x32)
  have "parse_HANDLE_GW (format_handle_gw_args put_x32 a) = Inr \<lparr>pipeline1 = r (pipeline1 a), pipeline2 = r (pipeline2 a),
      pipeline3 = r (pipeline3 a), pipeline4 = r (pipeline4 a), pipeline5 = r (pipeline5 a)\<rparr>"
    by (simp add: parse_HANDLE_GW_def handle_gw_key_values handle_gw_pairs_def parse_handle_gw_fields
        zero_handle_gw_def r_def [symmetric])
  then show ?thesis by (cases a) (simp add: r)
qed

end
