(* ===== verification/GatewayCtl.thy ===== *)
theory GatewayCtl
  imports GatewayProps
begin

text \<open>
  The command \<open>dpctl set-gateway-params\<close> and its way into the kernel: the command
  (\<open>lib/dpctl.c\<close>), the netlink request (\<open>lib/dpif-netlink.c\<close>, \<open>lib/netlink.c\<close>)
  and the handler of the datapath (\<open>datapath/datapath.c\<close>).

  The search for datapaths and the netlink socket are parameters. The kernel only logs what it
  receives, so its state is the features of each datapath and its log.
\<close>

subsection \<open>Parameters as text\<close>

record dp_config_gw =
  cfg_param1 :: u32
  cfg_param2 :: u32
  cfg_param3 :: eth_addr

fun gw_dpif_parse_pair :: "string \<times> string \<Rightarrow> dp_config_gw \<Rightarrow> string + dp_config_gw" where
  "gw_dpif_parse_pair (key, value) c =
     (if value = [] then Inl (''field '' @ key @ '' missing value'')
      else if key = ''param1'' then Inr (c\<lparr>cfg_param1 := word_of_int (atoi value)\<rparr>)
      else if key = ''param2'' then Inr (c\<lparr>cfg_param2 := word_of_int (atoi value)\<rparr>)
      else if key = ''param3'' then
        (case str_to_mac value of
           None \<Rightarrow> Inl (''failed to parse field '' @ key)
         | Some ethaddr \<Rightarrow> Inr (c\<lparr>cfg_param3 := ethaddr\<rparr>))
      else Inl (''invalid field: '' @ key))"

text \<open>The structure that is filled is a local variable of the caller without a value.\<close>

definition gw_dpif_parse_params :: "string \<Rightarrow> dp_config_gw \<Rightarrow> string + dp_config_gw" where
  "gw_dpif_parse_params s c = parse_pairs gw_dpif_parse_pair (key_values s) c"

definition gw_dpif_push_params :: "dp_config_gw list \<Rightarrow> dp_config_gw \<Rightarrow> dp_config_gw list" where
  "gw_dpif_push_params params_list c = params_list @ [c]"

subsection \<open>The netlink request\<close>

datatype ovs_datapath_attr = OVS_DP_ATTR_NAME | OVS_DP_ATTR_USER_FEATURES | OVS_DP_ATTR_GW_OPERATIONS
  | OVS_DP_ATTR_GW_PARAMS

record dp_request =
  req_ifindex :: int
  req_attrs :: "(ovs_datapath_attr \<times> u8 list) list"

definition EOPNOTSUPP :: int where "EOPNOTSUPP = 95"
definition ENODEV :: int where "ENODEV = 19"
definition ENOMEM :: int where "ENOMEM = 12"

definition nl_attr_oversized :: "nat \<Rightarrow> bool" where
  "nl_attr_oversized payload_size \<longleftrightarrow> payload_size > 65535 - 4"

definition nl_msg_put_u32 :: "bool \<Rightarrow> dp_request \<Rightarrow> ovs_datapath_attr \<Rightarrow> u32 \<Rightarrow> dp_request" where
  "nl_msg_put_u32 be req type v = req\<lparr>req_attrs := req_attrs req @ [(type, store32 be v)]\<rparr>"

text \<open>Data that is put into a message is padded to a multiple of four bytes.\<close>

definition nl_msg_put :: "u8 list \<Rightarrow> u8 list \<Rightarrow> u8 list" where
  "nl_msg_put msg d = msg @ d @ replicate ((4 - length d mod 4) mod 4) 0"

text \<open>The attribute that begins with \<open>nl_msg_start_nested\<close> and has the given content; an
  attribute that is too long fails an assertion.\<close>

definition nl_msg_end_nested :: "dp_request \<Rightarrow> ovs_datapath_attr \<Rightarrow> u8 list \<Rightarrow> dp_request option" where
  "nl_msg_end_nested req type d =
     (if nl_attr_oversized (length d) then None else Some (req\<lparr>req_attrs := req_attrs req @ [(type, d)]\<rparr>))"

text \<open>A \<open>struct ovs_dp_config_gw\<close>, whose two bytes of padding are not set.\<close>

definition put_dp_config_gw :: "bool \<Rightarrow> u8 \<times> u8 \<Rightarrow> dp_config_gw \<Rightarrow> u8 list" where
  "put_dp_config_gw be pad c = store32 be (cfg_param1 c) @ store32 be (cfg_param2 c) @ eth_put (cfg_param3 c) @ [fst pad, snd pad]"

definition ovs_dp_config_gw :: "bool \<Rightarrow> u8 list \<Rightarrow> dp_config_gw" where
  "ovs_dp_config_gw be d = \<lparr>cfg_param1 = rd32 be d 0, cfg_param2 = rd32 be d 4, cfg_param3 = eth_rd d 8\<rparr>"

text \<open>An open datapath of \<open>dpif-netlink\<close>: its interface index. The socket sends a request to
  the kernel, in the state \<open>k\<close>, and returns the error number of the answer.\<close>

definition dpif_netlink_gw_set_params ::
    "bool \<Rightarrow> u8 \<times> u8 \<Rightarrow> int \<Rightarrow> ('k \<Rightarrow> dp_request \<Rightarrow> 'k \<times> int) \<Rightarrow> int \<Rightarrow> u32 option \<Rightarrow> dp_config_gw list \<Rightarrow> 'k
      \<Rightarrow> ('k \<times> int) option" where
  "dpif_netlink_gw_set_params be pad family nl_transact ifindex operation params_list k =
     (if family < 0 then Some (k, EOPNOTSUPP)
      else
        let request = \<lparr>req_ifindex = ifindex, req_attrs = []\<rparr>;
            request = (case operation of None \<Rightarrow> request
                       | Some v \<Rightarrow> nl_msg_put_u32 be request OVS_DP_ATTR_GW_OPERATIONS v);
            request = (if params_list \<noteq> [] then
                         nl_msg_end_nested request OVS_DP_ATTR_GW_PARAMS
                           (foldl (\<lambda>msg c. nl_msg_put msg (put_dp_config_gw be pad c)) [] params_list)
                       else Some request)
        in map_option (nl_transact k) request)"

subsection \<open>The command\<close>

text \<open>The operation \<open>gw_set_params\<close> of the class of the datapath, where it has one.\<close>

definition gw_dpif_set_params ::
    "('d \<Rightarrow> u32 option \<Rightarrow> dp_config_gw list \<Rightarrow> 'k \<Rightarrow> ('k \<times> int) option) option
      \<Rightarrow> 'd \<Rightarrow> u32 option \<Rightarrow> dp_config_gw list \<Rightarrow> 'k \<Rightarrow> ('k \<times> int) option" where
  "gw_dpif_set_params gw_set_params dpif operation params_list k =
     (case gw_set_params of Some f \<Rightarrow> f dpif operation params_list k | None \<Rightarrow> Some (k, EOPNOTSUPP))"

record 'd dpctl_env =
  dp_exists :: "string \<Rightarrow> bool"
  get_one_dp :: "string option"
  parsed_dpif_open :: "string \<Rightarrow> int + 'd"

definition dp_arg_exists :: "'d dpctl_env \<Rightarrow> string list \<Rightarrow> bool" where
  "dp_arg_exists env argv \<longleftrightarrow> length argv > 1 \<and> dp_exists env (argv ! 1)"

definition opt_dpif_open :: "'d dpctl_env \<Rightarrow> string list \<Rightarrow> nat \<Rightarrow> (int \<times> string) + 'd" where
  "opt_dpif_open env argv max_args =
     (let dpname = (if dp_arg_exists env argv then Some (argv ! 1)
                    else if length argv \<noteq> max_args then get_one_dp env else None)
      in case dpname of
           None \<Rightarrow> Inl (EINVAL, ''datapath not found'')
         | Some name \<Rightarrow> (case parsed_dpif_open env name of
              Inl error \<Rightarrow> Inl (error, ''opening datapath'')
            | Inr dpif \<Rightarrow> Inr dpif))"

text \<open>The loop over the arguments; \<open>junk n\<close> is the value of the local variable in round \<open>n\<close>.\<close>

fun parse_param_args :: "(nat \<Rightarrow> dp_config_gw) \<Rightarrow> nat \<Rightarrow> string list \<Rightarrow> dp_config_gw list \<Rightarrow> string + dp_config_gw list" where
  "parse_param_args junk n [] params_list = Inr params_list"
| "parse_param_args junk n (a # args) params_list =
     (case gw_dpif_parse_params a (junk n) of
        Inl message \<Rightarrow> Inl message
      | Inr c \<Rightarrow> parse_param_args junk (n + 1) args (gw_dpif_push_params params_list c))"

text \<open>The result is the state of the kernel, the exit code and the error message, or \<open>None\<close>
  for a crash: a failed assertion, or \<open>argv[argc]\<close> given to \<open>strncmp\<close>.\<close>

definition operation_prefix :: string where "operation_prefix = ''operation=''"

definition dpctl_set_gateway_params ::
    "'d dpctl_env \<Rightarrow> ('d \<Rightarrow> u32 option \<Rightarrow> dp_config_gw list \<Rightarrow> 'k \<Rightarrow> ('k \<times> int) option) option
      \<Rightarrow> (nat \<Rightarrow> dp_config_gw) \<Rightarrow> string list \<Rightarrow> 'k \<Rightarrow> ('k \<times> int \<times> string option) option" where
  "dpctl_set_gateway_params env gw_set_params junk argv k =
     (let i = (if dp_arg_exists env argv then 2 else 1) in
      case opt_dpif_open env argv 0x7fffffff of
        Inl (error, message) \<Rightarrow> Some (k, error, Some message)
      | Inr dpif \<Rightarrow>
          if i \<ge> length argv then None
          else
            let is_operation = (take 10 (argv ! i) = operation_prefix);
                operation = (if is_operation
                  then map_option (\<lambda>(v, s). ucast v :: u32) (scan_int 10 (skip_spaces (drop 10 (argv ! i)))) else None)
            in if is_operation \<and> operation = None then Some (k, EINVAL, Some ''invalid operation'')
               else case parse_param_args junk 0 (drop (if is_operation then i + 1 else i) argv) [] of
                      Inl message \<Rightarrow> Some (k, EINVAL, Some message)
                    | Inr params_list \<Rightarrow>
                        (case gw_dpif_set_params gw_set_params dpif operation params_list k of
                           None \<Rightarrow> None
                         | Some (k', error) \<Rightarrow>
                             Some (k', error, if error = 0 then None else Some ''failed to set conntrack limit'')))"

subsection \<open>The kernel\<close>

datatype gw_event = Gw_operation u32 | Gw_params dp_config_gw | Gw_unknown_bytes nat

record datapath =
  dp_user_features :: u32
  dp_log :: "gw_event list"

text \<open>The loop of \<open>ovs_gw_set_params\<close>: the structures it reads and the number of bytes left.\<close>

fun gw_set_params_loop :: "bool \<Rightarrow> u8 list \<Rightarrow> nat \<Rightarrow> dp_config_gw list \<times> nat" where
  "gw_set_params_loop be mem rem =
     (if rem \<ge> 16 then (let (cs, r) = gw_set_params_loop be (drop 16 mem) (rem - 16)
                        in (ovs_dp_config_gw be mem # cs, r))
      else ([], rem))"

declare gw_set_params_loop.simps [simp del]

text \<open>The loop runs over the aligned length of the attribute; \<open>pad\<close> is the memory after it.\<close>

definition ovs_gw_set_params :: "bool \<Rightarrow> u8 list \<Rightarrow> u8 list \<Rightarrow> gw_event list" where
  "ovs_gw_set_params be pad nla =
     (let (cs, r) = gw_set_params_loop be (nla @ pad) ((length nla + 3) div 4 * 4)
      in map Gw_params cs @ (if r \<noteq> 0 then [Gw_unknown_bytes r] else []))"

definition ovs_dp_change :: "bool \<Rightarrow> u8 list \<Rightarrow> datapath \<Rightarrow> (ovs_datapath_attr \<Rightarrow> u8 list option) \<Rightarrow> datapath" where
  "ovs_dp_change be pad dp a =
     (let dp = (case a OVS_DP_ATTR_USER_FEATURES of
                  Some d \<Rightarrow> dp\<lparr>dp_user_features := rd32 be d 0\<rparr> | None \<Rightarrow> dp)
      in case a OVS_DP_ATTR_GW_OPERATIONS of
           None \<Rightarrow> dp
         | Some d \<Rightarrow> dp\<lparr>dp_log := dp_log dp @ [Gw_operation (rd32 be d 0)]
             @ (case a OVS_DP_ATTR_GW_PARAMS of Some nla \<Rightarrow> ovs_gw_set_params be pad nla | None \<Rightarrow> [])\<rparr>)"

text \<open>The datapath of a request: the one whose local port has the name, if it has a name, else
  the one of the interface index. Datapaths are known by their index; \<open>by_name\<close> finds the index
  for the content of a name attribute.\<close>

definition lookup_datapath :: "(u8 list \<Rightarrow> int option) \<Rightarrow> (int \<rightharpoonup> datapath) \<Rightarrow> int \<Rightarrow> (ovs_datapath_attr \<Rightarrow> u8 list option) \<Rightarrow> int option" where
  "lookup_datapath by_name dps ifindex a =
     (let i = (case a OVS_DP_ATTR_NAME of None \<Rightarrow> Some ifindex | Some name \<Rightarrow> by_name name)
      in case i of None \<Rightarrow> None | Some i \<Rightarrow> if dps i = None then None else Some i)"

definition ovs_dp_cmd_set :: "bool \<Rightarrow> bool \<Rightarrow> (u8 list \<Rightarrow> int option) \<Rightarrow> u8 list \<Rightarrow> (int \<rightharpoonup> datapath) \<Rightarrow> int
    \<Rightarrow> (ovs_datapath_attr \<Rightarrow> u8 list option) \<Rightarrow> (int \<rightharpoonup> datapath) \<times> int" where
  "ovs_dp_cmd_set alloc be by_name pad dps ifindex a =
     (if \<not> alloc then (dps, - ENOMEM)
      else case lookup_datapath by_name dps ifindex a of
             None \<Rightarrow> (dps, - ENODEV)
           | Some i \<Rightarrow> (dps(i \<mapsto> ovs_dp_change be pad (the (dps i)) a), 0))"

subsection \<open>From the command line to the kernel\<close>

interpretation dp_config_gw_wire: wire_format 16 "put_dp_config_gw be pad" "ovs_dp_config_gw be"
  by unfold_locales (simp_all add: put_dp_config_gw_def ovs_dp_config_gw_def host_wire)

lemma nl_msg_put_config: "nl_msg_put msg (put_dp_config_gw be pad c) = msg @ put_dp_config_gw be pad c"
  by (simp add: nl_msg_put_def dp_config_gw_wire.enc_width)

lemma nl_msg_put_configs:
  "foldl (\<lambda>msg c. nl_msg_put msg (put_dp_config_gw be pad c)) msg cs = msg @ concat (map (put_dp_config_gw be pad) cs)"
  by (induction cs arbitrary: msg) (simp_all add: nl_msg_put_config)

lemma length_configs: "length (concat (map (put_dp_config_gw be pad) cs)) = 16 * length cs"
  by (induction cs) (simp_all add: dp_config_gw_wire.enc_width)

text \<open>The kernel reads the structures of a request, whatever the padding in and after them.\<close>

lemma gw_set_params_loop_configs:
  "gw_set_params_loop be (concat (map (put_dp_config_gw be pad) cs) @ mem) (16 * length cs) = (cs, 0)"
proof (induction cs)
  case (Cons c cs)
  then show ?case
    by (subst gw_set_params_loop.simps) (simp add: dp_config_gw_wire.dec_enc dp_config_gw_wire.enc_width)
qed (simp add: gw_set_params_loop.simps)

lemma ovs_gw_set_params_configs:
  "ovs_gw_set_params be mem (concat (map (put_dp_config_gw be pad) cs)) = map Gw_params cs"
proof -
  have "(16 * length cs + 3) div 4 * 4 = 16 * length cs" by simp
  then show ?thesis by (simp only: ovs_gw_set_params_def length_configs gw_set_params_loop_configs) simp
qed

text \<open>The text of a set of parameters.\<close>

definition params_text :: "dp_config_gw \<Rightarrow> string" where
  "params_text c = put_pairs [(''param1'', put_u32 (cfg_param1 c)), (''param2'', put_u32 (cfg_param2 c)),
     (''param3'', put_mac (cfg_param3 c))]"

lemma text_nonempty: "put_u32 x \<noteq> []" "put_mac m \<noteq> []"
proof -
  show "put_u32 x \<noteq> []" by (simp add: put_u32_def)
  have "length (be_put 6 (unat m)) \<noteq> 0" using length_eth_put [of m] by (simp add: eth_put_def)
  then have "be_put 6 (unat m) \<noteq> []" by (simp only: length_0_conv simp_thms)
  then show "put_mac m \<noteq> []" by (cases "be_put 6 (unat m)") (simp_all add: put_mac_def put_02x8_def)
qed

lemma parse_params_text: "gw_dpif_parse_params (params_text c) junk = Inr c"
proof -
  have "key_values (params_text c) = [(''param1'', put_u32 (cfg_param1 c)), (''param2'', put_u32 (cfg_param2 c)),
     (''param3'', put_mac (cfg_param3 c))]"
    unfolding params_text_def by (rule key_values_put_pairs [of _ "[]", unfolded append_Nil]) (simp_all add: plain_pairs)
  then show ?thesis
    by (cases c) (simp add: gw_dpif_parse_params_def text_nonempty atoi_put_u32 str_to_mac_put)
qed

lemma parse_params_texts: "parse_param_args junk n (map params_text cs) acc = Inr (acc @ cs)"
  by (induction cs arbitrary: n acc) (simp_all add: parse_params_text gw_dpif_push_params_def)

lemma scan_digits_dec:
  "\<forall>x \<in> set s. \<exists>d < 10. hexit_value x = Some d \<Longrightarrow>
    scan_digits 10 (word_of_int v) n s = (word_of_int (dec_digits v s), n + length s, [])"
proof (induction s arbitrary: v n)
  case (Cons c s)
  then obtain d where d: "d < 10" "hexit_value c = Some d" by auto
  have "(word_of_int v * 10 + word_of_nat d :: u64) = word_of_int (v * 10 + int d)" by simp
  then show ?case using Cons d by (simp del: of_int_add of_int_mult of_int_of_nat_eq)
qed simp

lemma scan_operation: "scan_int 10 (skip_spaces (put_u32 x)) = Some (ucast x, [])"
proof -
  have h: "hexits (put_u32 x)" by (simp add: put_u32_def hexits_num_string)
  have s: "scan_digits 10 0 0 (put_u32 x) = (ucast x, length (put_u32 x), [])"
    using scan_digits_dec [OF dec_string_digits, of 0 0 "unat x"]
    by (simp add: put_u32_def dec_digits_num_string)
  show ?thesis using hexit_first [OF h text_nonempty(1)] text_nonempty(1) [of x]
    by (simp add: scan_int_def s)
qed

text \<open>The netlink socket and the attribute parser of the kernel: a request reaches the handler
  with its attributes by type, and the handler's error number comes back.\<close>

definition netlink_delivers :: "bool \<Rightarrow> ((int \<rightharpoonup> datapath) \<Rightarrow> dp_request \<Rightarrow> (int \<rightharpoonup> datapath) \<times> int) \<Rightarrow> bool" where
  "netlink_delivers be nl_transact \<longleftrightarrow> (\<exists>by_name pad. \<forall>dps req. nl_transact dps req =
     (let (dps', err) = ovs_dp_cmd_set True be by_name pad dps (req_ifindex req) (map_of (rev (req_attrs req)))
      in (dps', - err)))"

lemma set_params_delivered:
  assumes "netlink_delivers be nl_transact" "0 \<le> family" "length cs \<le> 4095" "dps ifindex = Some old"
  shows "dpif_netlink_gw_set_params be pad family nl_transact ifindex (Some op) cs dps
    = Some (dps(ifindex \<mapsto> old\<lparr>dp_log := dp_log old @ Gw_operation op # map Gw_params cs\<rparr>), 0)"
proof -
  obtain by_name mem where n: "\<And>dps req. nl_transact dps req =
     (let (dps', err) = ovs_dp_cmd_set True be by_name mem dps (req_ifindex req) (map_of (rev (req_attrs req))) in (dps', - err))"
    using assms(1) unfolding netlink_delivers_def by blast
  have "\<not> nl_attr_oversized (16 * length cs)" using assms(3) by (simp add: nl_attr_oversized_def)
  with assms(2,4) show ?thesis
    by (cases "cs = []") (simp_all add: Let_def dpif_netlink_gw_set_params_def nl_msg_put_u32_def nl_msg_end_nested_def nl_msg_put_configs length_configs
        n ovs_dp_cmd_set_def lookup_datapath_def ovs_dp_change_def ovs_gw_set_params_configs rd32_last)
qed

text \<open>C6: The parameters of the command reach the kernel: for a command line with an optional
  datapath, an operation and the text of up to 4095 sets of parameters, the command ends without
  an error and the kernel reads exactly the operation and these sets, in their order,
  whatever the uninitialized memory held that the code passes along. The bound is the largest
  content of a netlink attribute.\<close>

theorem dpctl_params_reach_kernel:
  assumes "netlink_delivers be nl_transact" "0 \<le> family" "length cs \<le> 4095"
    "dp = [] \<Longrightarrow> \<not> dp_exists env (operation_prefix @ put_u32 op)" "\<forall>d \<in> set dp. dp_exists env d" "length dp \<le> 1"
    "parsed_dpif_open env (if dp = [] then the (get_one_dp env) else hd dp) = Inr ifindex"
    "dp = [] \<Longrightarrow> get_one_dp env \<noteq> None" "dps ifindex = Some old"
  shows "dpctl_set_gateway_params env (Some (dpif_netlink_gw_set_params be pad family nl_transact)) junk
      (''set-gateway-params'' # dp @ (operation_prefix @ put_u32 op) # map params_text cs) dps
    = Some (dps(ifindex \<mapsto> old\<lparr>dp_log := dp_log old @ Gw_operation op # map Gw_params cs\<rparr>), 0, None)"
proof -
  define argv where "argv = ''set-gateway-params'' # dp @ (operation_prefix @ put_u32 op) # map params_text cs"
  define i :: nat where "i = (if dp_arg_exists env argv then 2 else 1)"
  have dp: "dp_arg_exists env argv \<longleftrightarrow> dp \<noteq> []" using assms(4,5) by (cases dp) (auto simp: dp_arg_exists_def argv_def)
  then have i: "i = Suc (length dp)" using assms(6) by (cases dp) (auto simp: i_def)
  then have a: "argv ! i = operation_prefix @ put_u32 op" "drop (i + 1) argv = map params_text cs" "i < length argv"
    by (simp_all add: argv_def nth_append)
  have "length argv \<noteq> 0x7fffffff" using assms(3,6) by (simp add: argv_def)
  then have o: "opt_dpif_open env argv 0x7fffffff = Inr ifindex"
    using assms(7,8) dp by (cases dp) (auto simp: opt_dpif_open_def argv_def)
  have p: "length operation_prefix = 10" by (simp add: operation_prefix_def)
  have "(ucast (ucast op :: u64) :: u32) = op" by (simp add: ucast_up_ucast_id is_up)
  then show ?thesis
    unfolding argv_def [symmetric] dpctl_set_gateway_params_def Let_def i_def [symmetric] o
    using a by (simp add: p scan_operation parse_params_texts gw_dpif_set_params_def set_params_delivered [where old = old] assms(1-3,9))
qed

theorem dpctl_params_reach_kernel_witness:
  "let env = \<lparr>dp_exists = (\<lambda>d. d = ''br0''), get_one_dp = None, parsed_dpif_open = (\<lambda>_. Inr 7)\<rparr>;
       deliver = (\<lambda>dps req. let (dps', err) = ovs_dp_cmd_set True False (\<lambda>_. None) [] dps (req_ifindex req)
                                    (map_of (rev (req_attrs req))) in (dps', - err))
   in dpctl_set_gateway_params env (Some (dpif_netlink_gw_set_params False (1, 2) 20 deliver)) (\<lambda>_. \<lparr>cfg_param1 = 9, cfg_param2 = 9, cfg_param3 = 9\<rparr>)
      [''set-gateway-params'', ''br0'', operation_prefix @ put_u32 3,
       params_text \<lparr>cfg_param1 = 1, cfg_param2 = 2, cfg_param3 = 3\<rparr>] [7 \<mapsto> \<lparr>dp_user_features = 0, dp_log = []\<rparr>]
     = Some ([7 \<mapsto> \<lparr>dp_user_features = 0, dp_log = [Gw_operation 3, Gw_params \<lparr>cfg_param1 = 1, cfg_param2 = 2, cfg_param3 = 3\<rparr>]\<rparr>],
         0, None)"
  unfolding Let_def
  using dpctl_params_reach_kernel [of False "\<lambda>dps req. (case ovs_dp_cmd_set True False (\<lambda>_. None) [] dps (req_ifindex req)
      (map_of (rev (req_attrs req))) of (dps', err) \<Rightarrow> (dps', - err))" 20 "[\<lparr>cfg_param1 = 1, cfg_param2 = 2, cfg_param3 = 3\<rparr>]"
      "[''br0'']" "\<lparr>dp_exists = (\<lambda>d. d = ''br0''), get_one_dp = None, parsed_dpif_open = (\<lambda>_. Inr 7)\<rparr>" 3 7
      "[7 \<mapsto> \<lparr>dp_user_features = 0, dp_log = []\<rparr>]" "\<lparr>dp_user_features = 0, dp_log = []\<rparr>" "(1, 2)" "\<lambda>_. \<lparr>cfg_param1 = 9, cfg_param2 = 9, cfg_param3 = 9\<rparr>"]
  by (auto simp: netlink_delivers_def Let_def)

end
