(* ===== verification/MacLearningRef.thy ===== *)
theory MacLearningRef
  imports MacLearning
begin

text \<open>
  The reference count of a MAC learning table (\<open>mac_learning_ref\<close>, \<open>mac_learning_unref\<close> in
  \<open>lib/mac-learning.c\<close>, \<open>struct ovs_refcount\<close> in \<open>lib/ovs-atomic.h\<close>): the last reference
  destroys the table, and nothing of it is left then.
\<close>

record 'p ml_object =
  ref_cnt :: u32
  ml_content :: "'p mac_learning"

definition ovs_refcount_init :: u32 where "ovs_refcount_init = 1"

definition ml_object_create :: "nat \<Rightarrow> 'p ml_object" where
  "ml_object_create idle = \<lparr>ref_cnt = ovs_refcount_init, ml_content = mac_learning_create idle\<rparr>"

text \<open>The new count; without an old reference an assertion fails.\<close>

definition ovs_refcount_ref :: "u32 \<Rightarrow> u32 option" where
  "ovs_refcount_ref count = (if count > 0 then Some (count + 1) else None)"

text \<open>The new and the old count.\<close>

definition ovs_refcount_unref :: "u32 \<Rightarrow> (u32 \<times> u32) option" where
  "ovs_refcount_unref count = (if count > 0 then Some (count - 1, count) else None)"

definition mac_learning_ref :: "'p ml_object \<Rightarrow> 'p ml_object option" where
  "mac_learning_ref obj = map_option (\<lambda>n. obj\<lparr>ref_cnt := n\<rparr>) (ovs_refcount_ref (ref_cnt obj))"

text \<open>The loop over the entries of the hash table that expires each of them.\<close>

fun expire_entries :: "mac_key list \<Rightarrow> 'p mac_learning \<Rightarrow> 'p mac_learning option" where
  "expire_entries [] ml = Some ml"
| "expire_entries (k # ks) ml = (case mac_learning_expire ml k of None \<Rightarrow> None | Some ml' \<Rightarrow> expire_entries ks ml')"

text \<open>Whether the table is destroyed; its content is then what the loop has left.\<close>

definition mac_learning_unref :: "'p ml_object \<Rightarrow> ('p ml_object \<times> bool) option" where
  "mac_learning_unref obj =
     (case ovs_refcount_unref (ref_cnt obj) of
        None \<Rightarrow> None
      | Some (n, old) \<Rightarrow>
          if old = 1 then
            (case expire_entries (map fst (ml_table (ml_content obj))) (ml_content obj) of
               None \<Rightarrow> None
             | Some ml \<Rightarrow> Some (obj\<lparr>ref_cnt := n, ml_content := ml\<rparr>, True))
          else Some (obj\<lparr>ref_cnt := n\<rparr>, False))"

lemma expire_entries_ok:
  "ml_ok X now ml \<Longrightarrow> distinct ks \<Longrightarrow> set ks \<subseteq> dom (map_of (ml_table ml)) \<Longrightarrow>
    \<exists>ml'. expire_entries ks ml = Some ml' \<and> ml_ok X now ml' \<and> dom (map_of (ml_table ml')) = dom (map_of (ml_table ml)) - set ks"
proof (induction ks arbitrary: ml)
  case (Cons k ks)
  then obtain e where "map_of (ml_table ml) k = Some e" by auto
  from mac_learning_expire_inv [OF Cons.prems(1) this] obtain ml1 where
    ml1: "mac_learning_expire ml k = Some ml1" "ml_ok X now ml1"
      "map_of (ml_table ml1) = (map_of (ml_table ml))(k := None)" by blast
  then have "set ks \<subseteq> dom (map_of (ml_table ml1))" using Cons.prems by auto
  then obtain ml' where "expire_entries ks ml1 = Some ml'" "ml_ok X now ml'"
      "dom (map_of (ml_table ml')) = dom (map_of (ml_table ml1)) - set ks"
    using Cons.IH [OF ml1(2)] Cons.prems(2) by auto
  moreover have "dom (map_of (ml_table ml1)) - set ks = dom (map_of (ml_table ml)) - set (k # ks)"
    unfolding ml1(3) by auto
  ultimately show ?case by (intro exI [of _ ml']) (simp only: expire_entries.simps ml1(1) option.case)
qed simp

text \<open>The last reference expires every entry without an abort: no entry, list node or port is
  left, so that freeing the tables frees everything.\<close>

lemma mac_learning_unref_destroys:
  assumes "ml_inv now (ml_content obj)" "ref_cnt obj = 1"
  shows "\<exists>obj'. mac_learning_unref obj = Some (obj', True) \<and> ml_table (ml_content obj') = [] \<and>
    ml_lrus (ml_content obj') = [] \<and> ports_by_ptr (ml_content obj') = []"
proof -
  define ml where "ml = ml_content obj"
  have "distinct (map fst (ml_table ml))" using assms(1) by (simp add: ml_ok_def ml_links_def ml_def)
  then obtain ml' where ml': "expire_entries (map fst (ml_table ml)) ml = Some ml'" "ml_inv now ml'"
      "dom (map_of (ml_table ml')) = {}"
    using expire_entries_ok [OF assms(1) [folded ml_def], of "map fst (ml_table ml)"] by (auto simp: dom_map_of_conv_image_fst)
  have t: "ml_table ml' = []" "ml_lrus ml' = []" using ml'(3) ml_ok_table(1,2) [OF ml'(2)] by simp_all
  have "ports_by_ptr ml' = []"
  proof (rule ccontr)
    assume "ports_by_ptr ml' \<noteq> []"
    then have "map_of (ports_by_ptr ml') (fst (hd (ports_by_ptr ml'))) \<noteq> None" by (simp add: map_of_eq_None_iff)
    then obtain p l where "map_of (ports_by_ptr ml') p = Some l" by blast
    moreover from this have "plist (ports_by_ptr ml') p = l" by (simp add: plist_def)
    moreover have "plist (ports_by_ptr ml') p = []" using ml'(2) t by (simp add: ml_ok_def order_ok_def)
    ultimately show False using ml'(2) by (simp add: ml_ok_def ml_links_def ports_ok_def)
  qed
  with ml' t assms(2) show ?thesis by (simp add: mac_learning_unref_def ovs_refcount_unref_def ml_def)
qed

text \<open>Taking a reference and giving it back changes nothing, up to the largest count.\<close>

lemma mac_learning_ref_unref:
  assumes "0 < ref_cnt obj" "ref_cnt obj < 0xffffffff"
  shows "\<exists>obj'. mac_learning_ref obj = Some obj' \<and> mac_learning_unref obj' = Some (obj, False)"
proof -
  have "unat (ref_cnt obj + 1) = unat (ref_cnt obj) + 1" "0 < unat (ref_cnt obj)"
    using assms by (simp_all add: word_less_nat_alt unat_word_ariths)
  then have "0 < ref_cnt obj + 1" "ref_cnt obj + 1 \<noteq> 1" by (simp_all add: word_less_nat_alt word_unat_eq_iff)
  with assms(1) show ?thesis
    by (simp add: mac_learning_ref_def mac_learning_unref_def ovs_refcount_ref_def ovs_refcount_unref_def)
qed

lemma created_table_is_freed: "\<exists>obj'. mac_learning_unref (ml_object_create idle) = Some (obj', True)"
  using mac_learning_unref_destroys [of 0 "ml_object_create idle"]
  by (auto simp: ml_object_create_def ovs_refcount_init_def mac_learning_create_ok)

end
