(* ===== verification/Spec2Isabelle.thy ===== *)
theory Spec2Isabelle
  imports Heap MacLearning TokenBucket Csum Reconnect Stp ConntrackTp Conntrack StpSpec StpProps StpTimers StpRate ConntrackProps HostBytes BpfSnat BpfIcmp BpfTcp OfpText Gateway GatewayProps GatewayCtl MacLearningRef
begin

text \<open>
  \<^bold>\<open>A verification library for the Open vSwitch gateway.\<close>

  The repository is Open vSwitch 2.14.1 (directory \<open>openvswitch-2.14.1\<close>) with the changes
  that make it a gateway, an eBPF program for source NAT, and the notes and scripts of the
  installation. This library models components of the switch as functions on explicit states and
  proves what they promise. All file names below are relative to
  \<open>src/openvswitch-2.14.1\<close> unless they say otherwise.

  \<^bold>\<open>How the code is modelled.\<close> A structure is a \<open>record\<close> with one field per member
  that the code reads, an enumeration is a \<open>datatype\<close>, a C integer is a word of its width
  (or \<open>int\<close> with the wrap-around written out by \<open>c_int\<close>), a packet is the list of its
  bytes. A function that changes a structure returns the changed record; an assertion or a
  dereference of a missing object is the value \<open>None\<close> of an \<open>option\<close> result, or a flag
  of the record (\<open>st_aborted\<close> of the spanning tree). The clock is an argument. Hash tables are
  finite maps or lists of their elements; no modelled function depends on the order inside a
  table. Locks and reference counts that only manage memory are left out where the note of the
  component in the manifest says so. Loops are recursive functions that are proved to
  terminate; no definition uses fuel. The one exception is \<open>ofpacts_decode\<close>, a
  \<open>partial_function\<close> because it may loop for a bad table of actions; the theorem about it
  says that it returns.

  \<^bold>\<open>The theories.\<close>

  \<^item> \<open>Prelude\<close>: machine integers, the big-endian encoding of wire formats, the interfaces
    \<open>wire_format\<close> (a structure that reads back as it was written), \<open>call_system\<close> (a
    component driven by calls, with an invariant) and \<open>call_order\<close>.

  \<^item> \<open>Heap\<close> (\<open>lib/heap.c\<close>, \<open>lib/heap.h\<close>): the array with the back indices of the nodes,
    all operations, also the raw ones. The heap refines a finite map from nodes to priorities
    under any sequence of calls; \<open>heap_rebuild\<close> restores the order. Its interface
    \<open>max_queue\<close> is what the MAC learning table uses.

  \<^item> \<open>MacLearning\<close> (\<open>lib/mac-learning.c\<close>): entries, the two least recently used lists,
    the heap of ports by usage, learning, flushing, aging and the check under the read lock. No
    call aborts or breaks the structure; learning, fair eviction and aging do what their
    comments say; the check under the read lock agrees with the update under the write lock.
    \<open>MacLearningRef\<close> adds the reference count: the last reference leaves nothing behind.

  \<^item> \<open>TokenBucket\<close> (\<open>lib/token-bucket.c\<close>, \<open>lib/sat-math.h\<close>): the limit a bucket enforces
    over any period, that waiting as long as it says is enough, and that the saturating
    operations clamp the exact result.

  \<^item> \<open>Csum\<close> (\<open>lib/csum.c\<close>): the Internet checksum as a class of residues modulo 65535. The
    incremental updates equal a recomputation, a packet with its checksum verifies, and the
    bytes do not depend on the byte order of the host.

  \<^item> \<open>Reconnect\<close> (\<open>lib/reconnect.c\<close>): the connection state machine: the sequence number, the
    exact back-off after any number of failures, the exact timeouts and the probe protocol.

  \<^item> \<open>Stp\<close> (\<open>lib/stp.c\<close>): the spanning tree protocol, every operation from the reception of a
    frame to the frames sent. \<open>StpSpec\<close> holds the part of the state on which the tree
    depends, the loops over ports (interface \<open>port_loop\<close>) and the invariant; \<open>StpProps\<close>
    the properties of the tree and of the frames; \<open>StpTimers\<close> and \<open>StpRate\<close> the bounds on
    timers, clock and frames sent. The callback that sends a frame appends it to the list
    \<open>st_sent\<close> and does not call the module again; \<open>StpRate\<close> shows what goes wrong with
    the limit on frames when it does.

  \<^item> \<open>ConntrackTp\<close> (\<open>lib/conntrack-tp.c\<close>) and \<open>Conntrack\<close> (\<open>lib/conntrack-tcp.c\<close>,
    \<open>lib/conntrack-icmp.c\<close>, \<open>lib/conntrack-other.c\<close>): timeout policies, expiration lists and
    the three layer 4 trackers. \<open>ConntrackProps\<close>: the TCP states only move forward, the
    handshake establishes a connection, rejected packets do no harm, window scales are well
    typed, the option parser stays in the header, policies take effect, and every connection
    is in exactly one expiration list (the interface \<open>ct_l4_proto\<close>, met by all three).

  \<^item> \<open>HostBytes\<close>: 16- and 32-bit values in memory of a host of either byte order, for the
    programs that read and write packets and structures in place.

  \<^item> \<open>BpfSnat\<close> (\<open>src/bpf_snat.c\<close>): the whole eBPF program. The helpers of the kernel, the
    table of connections and the headers outside of the repository are parameters; what the
    theorems need of them is the documented behaviour, in predicates such as \<open>store_ok\<close>.
    \<open>BpfTcp\<close> shows that a TCP packet leaves with the addresses and ports of the table,
    valid checksums and nothing else changed; \<open>BpfIcmp\<close> the same for ICMP errors with the
    packet they quote.

  \<^item> \<open>OfpText\<close> (\<open>lib/ofp-parse.c\<close>, \<open>lib/util.c\<close>): lists of key-value pairs, numbers and
    Ethernet addresses as text, and that what is written reads back.

  \<^item> \<open>Gateway\<close> (the gateway's part of \<open>lib/ofp-actions.c\<close>, \<open>lib/odp-util.c\<close>,
    \<open>lib/odp-execute.c\<close>, \<open>ofproto/ofproto-dpif-xlate.c\<close>, \<open>datapath/flow_netlink.c\<close>
    and \<open>datapath/actions.c\<close>): the actions \<open>config_gw\<close> and \<open>handle_gw\<close> as text, OpenFlow
    message and datapath action. \<open>GatewayProps\<close>: the actions of a controller reach the
    datapath unchanged; the text of \<open>config_gw\<close> parses back, that of \<open>handle_gw\<close> only for
    small numbers.

  \<^item> \<open>GatewayCtl\<close> (the gateway's part of \<open>lib/dpctl.c\<close>, \<open>lib/dpif-netlink.c\<close> and
    \<open>datapath/datapath.c\<close>): the command \<open>set-gateway-params\<close>, whose parameters reach the
    kernel exactly.

  \<^bold>\<open>How the parts interact.\<close> The MAC learning table keeps its ports in the heap and relies
  on \<open>max_queue\<close> only. The trackers share the expiration lists through \<open>ct_l4_proto\<close>. The
  frames of the spanning tree use \<open>wire_format\<close>, and so do the messages, actions and
  structures of the gateway. Key-value text is shared by the actions and the command of the
  gateway; the checksum algebra of \<open>Csum\<close> carries the proofs about the eBPF program. Calls of the
  components in any order are runs of a \<open>call_system\<close>, whose invariants are proved by one
  induction.

  \<^bold>\<open>Bounds.\<close> Integers keep the width they have in C wherever the code relies on it. Where the
  code computes in \<open>int\<close> or \<open>long long\<close> and no overflow is possible the model uses
  \<open>int\<close> and says why. Clock values are \<open>int\<close> (milliseconds in \<open>long long\<close>).

  \<^bold>\<open>Not modelled.\<close> The rest of the OpenFlow library, the classifier, the datapath interfaces,
  the network devices, the other actions and commands, the other link protocols, OVSDB, the
  daemons and tools, the kernel module, the Windows port, the Python library, the tests and the deployment scripts. They are
  I/O, threads and shared tables, or code the gateway does not use, or programs of a size
  beyond this library; the manifest lists them with a reason each. Of the modelled files,
  logging, coverage counters, locks and the registration with the build's tables are left out.
\<close>

end
